(* ===== verification/Prelude.thy ===== *)
theory Prelude
  imports Main "HOL-Library.Word" "HOL-Library.State_Monad"
begin

text \<open>
  What every component shares: the machine integers, the effect monad (a state monad
  whose computations may return a Go error), list-of-rows lemmas for the database
  tables, and the locale \<open>run_relation\<close>, in which the rules that lift a relation between
  the worlds before and after one call to whole handlers are proved once.
\<close>

named_theorems run_simps \<open>evaluation of the effect monad and of the primitive calls\<close>
named_theorems run_intros \<open>introduction rules for relations kept by effectful code\<close>

section \<open>Machine integers\<close>

text \<open>Go's \<open>int64\<close> and \<open>int32\<close>: two's complement, arithmetic wraps around.\<close>

type_synonym int64 = "64 word"
type_synonym int32 = "32 word"

abbreviation max_int64 :: int where "max_int64 \<equiv> 9223372036854775807"
abbreviation min_int64 :: int where "min_int64 \<equiv> - 9223372036854775808"

definition in_int64 :: "int \<Rightarrow> bool" where
  "in_int64 i \<longleftrightarrow> min_int64 \<le> i \<and> i \<le> max_int64"

lemma sint64_bounds [simp]:
  fixes x :: int64
  shows "min_int64 \<le> sint x" "sint x \<le> max_int64" "sint x < 9223372036854775808"
  using sint_ge [of x] sint_lt [of x] by simp_all

lemma sint64_of_int: "in_int64 i \<Longrightarrow> sint (word_of_int i :: int64) = i"
  by (simp add: signed_of_int signed_take_bit_int_eq_self in_int64_def)

lemma sint32_of_int:
  "- 2147483648 \<le> i \<Longrightarrow> i < 2147483648 \<Longrightarrow> sint (word_of_int i :: int32) = i"
  by (simp add: signed_of_int signed_take_bit_int_eq_self)

lemma sint64_inj: "sint (x :: int64) = sint y \<longleftrightarrow> x = y"
  by (metis signed_word_eqI)

lemma sint64_minus:
  fixes x :: int64
  assumes "sint x \<noteq> min_int64"
  shows "sint (- x) = - sint x"
proof -
  have "- sint x \<le> max_int64" "min_int64 \<le> - sint x"
    using assms sint64_bounds [of x] by linarith+
  then have "in_int64 (- sint x)" by (simp add: in_int64_def)
  moreover have "- x = word_of_int (- sint x)" by simp
  ultimately show ?thesis by (metis sint64_of_int)
qed

lemma sint64_add:
  fixes x y :: int64
  assumes "in_int64 (sint x + sint y)"
  shows "sint (x + y) = sint x + sint y"
proof -
  have "x + y = word_of_int (sint x + sint y)" by simp
  then show ?thesis using sint64_of_int [OF assms] by metis
qed

text \<open>The smallest \<open>int64\<close> is its own negation, as in Go.\<close>

lemma sint64_minus_min:
  assumes "sint (x :: int64) = min_int64"
  shows "- x = x"
proof -
  have "x = word_of_int (sint x)" by (metis of_int_sint scast_id)
  with assms show ?thesis by simp
qed

section \<open>Effects\<close>

text \<open>
  A Go function with effects on \<open>'w\<close> that returns \<open>(T, error)\<close> is a computation of
  \<open>('w, error + T) state\<close>: \<open>Inl err\<close> for \<open>err != nil\<close>, \<open>Inr x\<close> for \<open>err == nil\<close>.
  \<open>try_do m f\<close> is the idiom \<open>x, err := m; if err != nil { return err }; f(x)\<close>.
\<close>

abbreviation ret :: "'a \<Rightarrow> ('w, 'a) state" where
  "ret \<equiv> State_Monad.return"

abbreviation run :: "('w, 'a) state \<Rightarrow> 'w \<Rightarrow> 'a \<times> 'w" where
  "run \<equiv> run_state"

definition try_do ::
    "('w, 'e + 'a) state \<Rightarrow> ('a \<Rightarrow> ('w, 'e + 'b) state) \<Rightarrow> ('w, 'e + 'b) state" where
  "try_do m f = do { r \<leftarrow> m; case r of Inl e \<Rightarrow> ret (Inl e) | Inr x \<Rightarrow> f x }"

lemma run_try_do:
  "run (try_do m f) w =
     (case run m w of (Inl e, w1) \<Rightarrow> (Inl e, w1) | (Inr x, w1) \<Rightarrow> run (f x) w1)"
  by (simp add: try_do_def split: prod.splits sum.splits)

lemma run_try_do_Inr:
  "run (try_do m f) w = (Inr y, w') \<longleftrightarrow>
     (\<exists>x w1. run m w = (Inr x, w1) \<and> run (f x) w1 = (Inr y, w'))"
  by (auto simp: run_try_do split: prod.splits sum.splits)

declare run_try_do [run_simps]

text \<open>Runs of a computation for each of a list of inputs, in order.\<close>

fun run_all :: "('i \<Rightarrow> ('w, 'o) state) \<Rightarrow> 'i list \<Rightarrow> 'w \<Rightarrow> 'o list \<times> 'w" where
  "run_all f [] w = ([], w)"
| "run_all f (i # is) w =
     (case run (f i) w of (out, w1) \<Rightarrow> case run_all f is w1 of (os, w2) \<Rightarrow> (out # os, w2))"

section \<open>Relations between the worlds before and after a call\<close>

text \<open>
  \<open>always R m\<close>: whatever \<open>m\<close> returns, the world it leaves is related to the one it
  started in. An invariant \<open>P\<close> is the relation \<open>P w \<longrightarrow> P w'\<close>; "blocked sessions stay
  blocked" and "money is conserved" are relations of the same kind.
\<close>

definition always :: "('w \<Rightarrow> 'w \<Rightarrow> bool) \<Rightarrow> ('w, 'a) state \<Rightarrow> bool" where
  "always R m \<longleftrightarrow> state_io_rel R m"

lemma alwaysI: "(\<And>w r w'. run m w = (r, w') \<Longrightarrow> R w w') \<Longrightarrow> always R m"
  by (auto simp: always_def)

lemma alwaysD: "always R m \<Longrightarrow> run m w = (r, w') \<Longrightarrow> R w w'"
  by (auto simp: always_def)

locale run_relation =
  fixes R :: "'w \<Rightarrow> 'w \<Rightarrow> bool"
  assumes refl: "R w w"
    and trans: "R u v \<Longrightarrow> R v w \<Longrightarrow> R u w"
begin

lemma always_ret: "always R (ret x)"
  by (rule alwaysI) (simp add: refl)

lemma always_bind: "always R m \<Longrightarrow> (\<And>x. always R (f x)) \<Longrightarrow> always R (m \<bind> f)"
  by (rule alwaysI) (auto split: prod.splits dest: alwaysD intro: trans)

lemma always_sum:
  "(\<And>e. always R (f e)) \<Longrightarrow> (\<And>x. always R (g x)) \<Longrightarrow>
   always R (case s of Inl e \<Rightarrow> f e | Inr x \<Rightarrow> g x)"
  by (cases s) auto

lemma always_option:
  "always R a \<Longrightarrow> (\<And>x. always R (f x)) \<Longrightarrow>
   always R (case s of None \<Rightarrow> a | Some x \<Rightarrow> f x)"
  by (cases s) auto

lemma always_prod: "(\<And>x y. always R (f x y)) \<Longrightarrow> always R (case p of (x, y) \<Rightarrow> f x y)"
  by (cases p) auto

lemma always_if: "always R a \<Longrightarrow> always R b \<Longrightarrow> always R (if c then a else b)"
  by simp

lemma always_let: "(\<And>x. always R (f x)) \<Longrightarrow> always R (let x = v in f x)"
  by simp

lemma always_try_do: "always R m \<Longrightarrow> (\<And>x. always R (f x)) \<Longrightarrow> always R (try_do m f)"
  unfolding try_do_def by (intro always_bind always_sum always_ret)

lemma run_all_rel: "(\<And>i. always R (f i)) \<Longrightarrow> R w (snd (run_all f is w))"
proof (induction "is" arbitrary: w)
  case Nil
  then show ?case by (simp add: refl)
next
  case (Cons i "is")
  obtain out w1 where 1: "run (f i) w = (out, w1)" by force
  with Cons.prems have "R w w1" by (auto dest: alwaysD)
  moreover have "R w1 (snd (run_all f is w1))" by (rule Cons.IH [OF Cons.prems])
  ultimately show ?case using 1 by (auto split: prod.splits intro: trans)
qed

lemmas always_intros =
  always_ret always_bind always_sum always_option always_prod always_if always_let always_try_do

end

section \<open>Tables as lists of rows\<close>

text \<open>
  A table is the list of its rows in insertion order. \<open>lookup key k\<close> is
  \<open>SELECT ... WHERE key = k LIMIT 1\<close>, \<open>update_where p f\<close> is \<open>UPDATE ... SET f WHERE p\<close>.
\<close>

definition lookup :: "('r \<Rightarrow> 'k) \<Rightarrow> 'k \<Rightarrow> 'r list \<Rightarrow> 'r option" where
  "lookup key k rows = List.find (\<lambda>r. key r = k) rows"

definition update_where :: "('r \<Rightarrow> bool) \<Rightarrow> ('r \<Rightarrow> 'r) \<Rightarrow> 'r list \<Rightarrow> 'r list" where
  "update_where p f rows = map (\<lambda>r. if p r then f r else r) rows"

lemma lookup_Nil [simp]: "lookup key k [] = None"
  by (simp add: lookup_def)

lemma lookup_Cons [simp]:
  "lookup key k (r # rows) = (if key r = k then Some r else lookup key k rows)"
  by (simp add: lookup_def)

lemma lookup_append:
  "lookup key k (xs @ ys) = (case lookup key k xs of None \<Rightarrow> lookup key k ys | Some r \<Rightarrow> Some r)"
  by (induction xs) auto

lemma lookup_SomeD: "lookup key k rows = Some r \<Longrightarrow> r \<in> set rows \<and> key r = k"
  by (induction rows) (auto split: if_splits)

lemma lookup_None_iff: "lookup key k rows = None \<longleftrightarrow> k \<notin> key ` set rows"
  by (induction rows) (auto split: if_splits)

lemma lookup_Some_iff:
  "distinct (map key rows) \<Longrightarrow> lookup key k rows = Some r \<longleftrightarrow> r \<in> set rows \<and> key r = k"
  by (induction rows) (auto simp: rev_image_eqI)

lemma update_where_Nil [simp]: "update_where p f [] = []"
  by (simp add: update_where_def)

lemma update_where_Cons [simp]:
  "update_where p f (r # rows) = (if p r then f r else r) # update_where p f rows"
  by (simp add: update_where_def)

lemma update_where_append:
  "update_where p f (xs @ ys) = update_where p f xs @ update_where p f ys"
  by (simp add: update_where_def)

lemma length_update_where [simp]: "length (update_where p f rows) = length rows"
  by (simp add: update_where_def)

lemma map_update_where:
  "(\<And>r. g (f r) = g r) \<Longrightarrow> map g (update_where p f rows) = map g rows"
  by (induction rows) auto

lemma set_update_where: "set (update_where p f rows) = (\<lambda>r. if p r then f r else r) ` set rows"
  by (simp add: update_where_def)

lemma lookup_update_where:
  assumes "\<And>r. key (f r) = key r"
  shows "lookup key k (update_where (\<lambda>r. key r = k') f rows) =
    (if k = k' then map_option f (lookup key k rows) else lookup key k rows)"
  by (induction rows) (auto simp: assms)

lemma update_where_absent: "lookup key k rows = None \<Longrightarrow> update_where (\<lambda>r. key r = k) f rows = rows"
  by (induction rows) (auto split: if_splits)

text \<open>What one keyed update does to a sum over the table.\<close>

lemma sum_update_where:
  fixes v :: "'r \<Rightarrow> int"
  assumes "distinct (map key rows)" and "lookup key k rows = Some r"
  shows "(\<Sum>x\<leftarrow>update_where (\<lambda>x. key x = k) f rows. v x) = (\<Sum>x\<leftarrow>rows. v x) - v r + v (f r)"
  using assms
proof (induction rows)
  case Nil
  then show ?case by simp
next
  case (Cons x rows)
  show ?case
  proof (cases "key x = k")
    case True
    then have "lookup key k rows = None"
      using Cons.prems(1) by (auto simp: lookup_None_iff)
    with True Cons.prems show ?thesis by (simp add: update_where_absent)
  next
    case False
    with Cons show ?thesis by simp
  qed
qed

lemma map_filter_distinctD:
  "distinct (List.map_filter f xs) \<Longrightarrow> x \<in> set xs \<Longrightarrow> y \<in> set xs \<Longrightarrow> f x = Some z \<Longrightarrow> f y = Some z \<Longrightarrow> x = y"
proof (induction xs)
  case (Cons a xs)
  have "z \<in> set (List.map_filter f xs)" if "x \<in> set xs \<or> y \<in> set xs"
    using that Cons.prems(4,5) by (force simp: map_filter_def)
  with Cons show ?case by (auto simp: map_filter_simps split: option.splits)
qed simp

end
