(* ===== verification/Go_Strings.thy ===== *)
theory Go_Strings
  imports Prelude
begin

text \<open>
  The parts of Go's standard library that the program applies to strings. A Go string is a
  sequence of bytes and \<open>len\<close> counts bytes, so a Go string is a HOL \<open>string\<close> (a list of
  8-bit characters) and \<open>len\<close> is \<open>length\<close>. Here are \<open>fmt\<close>'s \<open>%d\<close>,
  \<open>hex.EncodeToString\<close>, \<open>strings.Fields\<close>, \<open>strings.ToLower\<close> and
  \<open>utf8.RuneCountInString\<close>; the lemmas show that decimal and hexadecimal printing
  determine their argument.
\<close>

section \<open>Decimal printing\<close>

definition digit_char :: "nat \<Rightarrow> char" where
  "digit_char d = char_of (48 + d)"

fun show_nat :: "nat \<Rightarrow> string" where
  "show_nat n = (if n < 10 then [digit_char n] else show_nat (n div 10) @ [digit_char (n mod 10)])"

declare show_nat.simps [simp del]

text \<open>\<open>fmt.Sprintf("%d", x)\<close> for an \<open>int64\<close>.\<close>

definition show_int64 :: "int64 \<Rightarrow> string" where
  "show_int64 x =
     (if sint x < 0 then CHR ''-'' # show_nat (nat (- sint x)) else show_nat (nat (sint x)))"

definition read_nat :: "string \<Rightarrow> nat" where
  "read_nat s = foldl (\<lambda>n c. 10 * n + (of_char c - 48)) 0 s"

lemma of_digit_char: "d < 10 \<Longrightarrow> of_char (digit_char d) = 48 + d"
  by (simp add: digit_char_def)

lemma read_show_nat: "read_nat (show_nat n) = n"
proof (induction n rule: show_nat.induct)
  case (1 n)
  show ?case
  proof (cases "n < 10")
    case True
    then show ?thesis by (simp add: show_nat.simps [of n] read_nat_def of_digit_char)
  next
    case False
    with 1 have "read_nat (show_nat (n div 10)) = n div 10" by simp
    with False show ?thesis by (simp add: show_nat.simps [of n] read_nat_def of_digit_char)
  qed
qed

lemma show_nat_inj: "show_nat m = show_nat n \<longleftrightarrow> m = n"
  by (metis read_show_nat)

lemma show_nat_digits: "c \<in> set (show_nat n) \<Longrightarrow> \<exists>d<10. c = digit_char d"
proof (induction n rule: show_nat.induct)
  case (1 n)
  show ?case
  proof (cases "n < 10")
    case True
    with "1.prems" show ?thesis by (auto simp: show_nat.simps [of n])
  next
    case False
    with "1.prems" have "c \<in> set (show_nat (n div 10)) \<or> c = digit_char (n mod 10)"
      by (auto simp: show_nat.simps [of n])
    with "1.IH" [OF False] show ?thesis by (metis mod_less_divisor zero_less_numeral)
  qed
qed

lemma digit_char_not:
  assumes "d < 10" shows "digit_char d \<noteq> CHR ''-''" "digit_char d \<noteq> CHR '':''"
proof -
  have "of_char (digit_char d) \<noteq> (45::nat)" "of_char (digit_char d) \<noteq> (58::nat)"
    using assms by (simp_all add: of_digit_char)
  then show "digit_char d \<noteq> CHR ''-''" "digit_char d \<noteq> CHR '':''" by auto
qed

lemma show_nat_no_sep: "CHR '':'' \<notin> set (show_nat n)" "CHR ''-'' \<notin> set (show_nat n)"
  using show_nat_digits digit_char_not by metis+

lemma show_int64_no_colon: "CHR '':'' \<notin> set (show_int64 x)"
  by (simp add: show_int64_def show_nat_no_sep)

lemma show_int64_inj: "show_int64 x = show_int64 y \<longleftrightarrow> x = y"
proof
  assume eq: "show_int64 x = show_int64 y"
  have "sint x = sint y"
  proof (cases "sint x < 0"; cases "sint y < 0")
    assume "sint x < 0" "sint y < 0"
    with eq show ?thesis by (simp add: show_int64_def show_nat_inj eq_nat_nat_iff)
  next
    assume "sint x < 0" "\<not> sint y < 0"
    with eq show ?thesis
      using show_nat_no_sep(2) [of "nat (sint y)"] by (metis list.set_intros(1) show_int64_def)
  next
    assume "\<not> sint x < 0" "sint y < 0"
    with eq show ?thesis
      using show_nat_no_sep(2) [of "nat (sint x)"] by (metis list.set_intros(1) show_int64_def)
  next
    assume "\<not> sint x < 0" "\<not> sint y < 0"
    with eq show ?thesis by (simp add: show_int64_def show_nat_inj eq_nat_nat_iff)
  qed
  then show "x = y" by (simp add: sint64_inj)
qed simp

text \<open>A field that does not contain the separator can be read back.\<close>

lemma split_at_separator:
  assumes "xs @ c # ys = xs' @ c # ys'" and "c \<notin> set xs" and "c \<notin> set xs'"
  shows "xs = xs' \<and> ys = ys'"
  using assms
proof (induction xs arbitrary: xs')
  case Nil
  then show ?case by (cases xs') auto
next
  case (Cons x xs)
  then show ?case by (cases xs') auto
qed

section \<open>Hexadecimal\<close>

definition hex_digit :: "nat \<Rightarrow> char" where
  "hex_digit d = ''0123456789abcdef'' ! d"

text \<open>\<open>hex.EncodeToString\<close>: two lower-case digits per byte.\<close>

fun hex_encode :: "string \<Rightarrow> string" where
  "hex_encode [] = []"
| "hex_encode (c # cs) =
     hex_digit (of_char c div 16) # hex_digit (of_char c mod 16) # hex_encode cs"

lemma hex_digit_inj: "a < 16 \<Longrightarrow> b < 16 \<Longrightarrow> hex_digit a = hex_digit b \<longleftrightarrow> a = b"
proof -
  assume "a < 16" "b < 16"
  have "distinct ''0123456789abcdef''" by simp
  then show ?thesis
    using \<open>a < 16\<close> \<open>b < 16\<close> by (simp add: hex_digit_def nth_eq_iff_index_eq)
qed

lemma hex_encode_inj: "hex_encode s = hex_encode t \<longleftrightarrow> s = t"
proof
  show "hex_encode s = hex_encode t \<Longrightarrow> s = t"
  proof (induction s arbitrary: t)
    case Nil
    then show ?case by (cases t) auto
  next
    case (Cons c cs)
    then obtain d ds where t: "t = d # ds" by (cases t) auto
    have lt: "(of_char c :: nat) < 256" "(of_char d :: nat) < 256"
      by (rule nat_of_char_less_256)+
    then have hi: "(of_char c :: nat) div 16 < 16" "(of_char d :: nat) div 16 < 16"
      by (simp_all add: div_less_iff_less_mult)
    from Cons.prems t have
      "hex_digit (of_char c div 16) = hex_digit (of_char d div 16)"
      "hex_digit (of_char c mod 16) = hex_digit (of_char d mod 16)" and
      rest: "hex_encode cs = hex_encode ds" by simp_all
    then have "(of_char c :: nat) div 16 = of_char d div 16" "(of_char c :: nat) mod 16 = of_char d mod 16"
      using hi by (simp_all add: hex_digit_inj)
    then have "(of_char c :: nat) = of_char d" by (metis div_mult_mod_eq)
    then have "c = d" by (simp add: of_char_eq_iff)
    with Cons.IH [OF rest] t show ?case by simp
  qed
qed simp

section \<open>strings.Fields, strings.ToLower, utf8.RuneCountInString\<close>

text \<open>
  \<open>space_len s\<close> is the number of bytes of the white-space rune at the front of \<open>s\<close>, 0 if
  there is none: the six ASCII spaces, and the UTF-8 encodings of the runes of
  \<open>unicode.IsSpace\<close> beyond ASCII (U+0085, U+00A0, U+1680, U+2000 to U+200A, U+2028,
  U+2029, U+202F, U+205F, U+3000). Their first bytes are never continuation bytes, so
  scanning byte by byte finds the same spaces as scanning rune by rune.
\<close>

definition byte :: "char \<Rightarrow> nat" where
  "byte c = of_char c"

definition space_len :: "string \<Rightarrow> nat" where
  "space_len s = (case map byte (take 3 s) of
       [] \<Rightarrow> 0
     | b # bs \<Rightarrow>
         if b \<in> {9, 10, 11, 12, 13, 32} then 1
         else if b = 194 \<and> take 1 bs \<in> {[133], [160]} then 2
         else if b = 225 \<and> bs = [154, 128] then 3
         else if b = 226 \<and> length bs = 2 \<and> bs ! 0 = 128 \<and>
                 (128 \<le> bs ! 1 \<and> bs ! 1 \<le> 138 \<or> bs ! 1 \<in> {168, 169, 175}) then 3
         else if b = 226 \<and> bs = [129, 159] then 3
         else if b = 227 \<and> bs = [128, 128] then 3
         else 0)"

text \<open>\<open>fields_from cur s\<close>: \<open>cur\<close> holds the bytes of the field being read, reversed.\<close>

function fields_from :: "string \<Rightarrow> string \<Rightarrow> string list" where
  "fields_from cur s =
     (case s of
        [] \<Rightarrow> (if cur = [] then [] else [rev cur])
      | c # cs \<Rightarrow>
          if 0 < space_len s then
            (if cur = [] then [] else [rev cur]) @ fields_from [] (drop (space_len s) s)
          else fields_from (c # cur) cs)"
  by pat_completeness auto
termination
  by (relation "measure (\<lambda>(cur, s). length s)") auto

declare fields_from.simps [simp del]

definition strings_Fields :: "string \<Rightarrow> string list" where
  "strings_Fields s = fields_from [] s"

lemma fields_from_Nil: "fields_from cur [] = (if cur = [] then [] else [rev cur])"
  by (simp add: fields_from.simps)

lemma fields_from_space:
  "0 < space_len s \<Longrightarrow>
   fields_from cur s = (if cur = [] then [] else [rev cur]) @ fields_from [] (drop (space_len s) s)"
  by (cases s) (simp_all add: fields_from.simps [of cur] space_len_def)

lemma fields_from_char:
  "space_len (c # cs) = 0 \<Longrightarrow> fields_from cur (c # cs) = fields_from (c # cur) cs"
  by (simp add: fields_from.simps [of cur])

lemma fields_nonempty: "f \<in> set (fields_from cur s) \<Longrightarrow> f \<noteq> []"
proof (induction cur s rule: fields_from.induct)
  case (1 cur s)
  show ?case
  proof (cases s)
    case Nil
    with "1.prems" show ?thesis by (auto simp: fields_from_Nil split: if_splits)
  next
    case (Cons c cs)
    show ?thesis
    proof (cases "0 < space_len s")
      case True
      from "1.IH" (1) [OF Cons True] "1.prems" show ?thesis
        by (auto simp: fields_from_space [OF True] split: if_splits)
    next
      case False
      then have "space_len (c # cs) = 0" using Cons by simp
      with "1.IH" (2) [OF Cons False] "1.prems" Cons show ?thesis
        by (simp add: fields_from_char)
    qed
  qed
qed

text \<open>
  \<open>strings.ToLower\<close> on bytes. Beyond ASCII, Go maps whole runes; no such rune lower-cases
  to one of the letters of \<open>bearer\<close> (only U+0130 and U+212A map into ASCII, to i and k),
  so a comparison with that word gives the same answer on the bytes.
\<close>

definition to_lower_char :: "char \<Rightarrow> char" where
  "to_lower_char c = (if 65 \<le> byte c \<and> byte c \<le> 90 then char_of (byte c + 32) else c)"

definition strings_ToLower :: "string \<Rightarrow> string" where
  "strings_ToLower s = map to_lower_char s"

lemma to_lower_char_idem: "to_lower_char (to_lower_char c) = to_lower_char c"
  by (simp add: to_lower_char_def byte_def)

lemma strings_ToLower_idem: "strings_ToLower (strings_ToLower s) = strings_ToLower s"
  by (simp add: strings_ToLower_def to_lower_char_idem)

text \<open>
  The number of runes of a valid UTF-8 string: its bytes that are not continuation bytes.
  The strings it is applied to come out of \<open>encoding/json\<close>, which only produces valid UTF-8.
\<close>

definition rune_count :: "string \<Rightarrow> nat" where
  "rune_count s = length (filter (\<lambda>c. byte c div 64 \<noteq> 2) s)"

lemma rune_count_le: "rune_count s \<le> length s"
  by (simp add: rune_count_def)

section \<open>Character classes of the regular expressions\<close>

definition is_lower :: "char \<Rightarrow> bool" where
  "is_lower c \<longleftrightarrow> 97 \<le> byte c \<and> byte c \<le> 122"

definition is_upper :: "char \<Rightarrow> bool" where
  "is_upper c \<longleftrightarrow> 65 \<le> byte c \<and> byte c \<le> 90"

definition is_digit :: "char \<Rightarrow> bool" where
  "is_digit c \<longleftrightarrow> 48 \<le> byte c \<and> byte c \<le> 57"

text \<open>\<open>\s\<close> of RE2: tab, newline, form feed, carriage return, space.\<close>

definition is_re_space :: "char \<Rightarrow> bool" where
  "is_re_space c \<longleftrightarrow> byte c \<in> {9, 10, 12, 13, 32}"

end
