(* ===== verification/Models.thy ===== *)
theory Models
  imports Go_Strings
begin

text \<open>
  The data of the program: the row types of \<open>db/sqlc/models.go\<close>, the parameter structs of
  the queries and of the store, the token payload, and the errors that flow between the
  layers. A field \<open>F\<close> of a Go struct \<open>T\<close> is the record field \<open>T_F\<close>; a \<open>sql.NullString\<close>
  or \<open>sql.NullTime\<close> is an option (\<open>None\<close> for \<open>Valid: false\<close>).
\<close>

text \<open>Instants are nanoseconds since the epoch; a \<open>time.Duration\<close> is an \<open>int64\<close> of nanoseconds.\<close>

type_synonym time = int
type_synonym duration = int64
type_synonym uuid = "128 word"

section \<open>Errors\<close>

text \<open>
  Go's \<open>error\<close> values. \<open>PqError name constraint\<close> is a \<open>*pq.Error\<close> with \<open>Code.Name()\<close> and
  \<open>Constraint\<close>; \<open>OtherErr\<close> is any error of the driver, the network, a cancelled context
  or the server that is neither \<open>sql.ErrNoRows\<close> nor a \<open>*pq.Error\<close>, and the errors of the
  third-party functions; \<open>Errorf\<close> is an error text made by the program; \<open>TxErr\<close> is
  \<open>fmt.Errorf("tx err: %v, rb err: %v", err, rbErr)\<close>, which has lost the type of \<open>err\<close>.
\<close>

datatype error =
    ErrNoRows
  | PqError string string
  | OtherErr string
  | Errorf string
  | Wrapf string error
  | TxErr error error
  | ErrInvalidToken
  | ErrExpiredToken

section \<open>Rows\<close>

record Account =
  Account_ID :: int64
  Account_Owner :: string
  Account_Balance :: int64
  Account_Currency :: string
  Account_CreatedAt :: time

record Entry =
  Entry_ID :: int64
  Entry_AccountID :: int64
  Entry_Amount :: int64
  Entry_CreatedAt :: time

record IdempotencyKey =
  IdempotencyKey_Owner :: string
  IdempotencyKey_Key :: string
  IdempotencyKey_RequestHash :: string
  IdempotencyKey_ResponseBody :: string
  IdempotencyKey_CreatedAt :: time

record Session =
  Session_ID :: uuid
  Session_Username :: string
  Session_RefreshToken :: string
  Session_UserAgent :: string
  Session_ClientIp :: string
  Session_IsBlocked :: bool
  Session_ExpiresAt :: time
  Session_CreatedAt :: time

record Transfer =
  Transfer_ID :: int64
  Transfer_FromAccountID :: int64
  Transfer_ToAccountID :: int64
  Transfer_Amount :: int64
  Transfer_CreatedAt :: time

record User =
  User_Username :: string
  User_HashedPassword :: string
  User_FullName :: string
  User_Email :: string
  User_PasswordChangedAt :: time
  User_CreatedAt :: time

section \<open>Parameters and results of the queries and of the store\<close>

record AddAccountBalanceParams =
  AddAccountBalanceParams_Amount :: int64
  AddAccountBalanceParams_ID :: int64

record CreateAccountParams =
  CreateAccountParams_Owner :: string
  CreateAccountParams_Balance :: int64
  CreateAccountParams_Currency :: string

record ListAccountsParams =
  ListAccountsParams_Owner :: string
  ListAccountsParams_Limit :: int32
  ListAccountsParams_Offset :: int32

record UpdateAccountParams =
  UpdateAccountParams_ID :: int64
  UpdateAccountParams_Balance :: int64

record CreateEntryParams =
  CreateEntryParams_AccountID :: int64
  CreateEntryParams_Amount :: int64

record ListEntriesParams =
  ListEntriesParams_AccountID :: int64
  ListEntriesParams_Limit :: int32
  ListEntriesParams_Offset :: int32

record TransferTxParams =
  TransferTxParams_FromAccountID :: int64
  TransferTxParams_ToAccountID :: int64
  TransferTxParams_Amount :: int64

text \<open>\<open>CreateTransferParams(arg)\<close> is a conversion between structs with the same fields.\<close>

type_synonym CreateTransferParams = TransferTxParams

record ListTransfersParams =
  ListTransfersParams_FromAccountID :: int64
  ListTransfersParams_ToAccountID :: int64
  ListTransfersParams_Limit :: int32
  ListTransfersParams_Offset :: int32

record CompleteIdempotencyKeyParams =
  CompleteIdempotencyKeyParams_Owner :: string
  CompleteIdempotencyKeyParams_Key :: string
  CompleteIdempotencyKeyParams_ResponseBody :: string

record CreateIdempotencyKeyParams =
  CreateIdempotencyKeyParams_Owner :: string
  CreateIdempotencyKeyParams_Key :: string
  CreateIdempotencyKeyParams_RequestHash :: string

record CreateSessionParams =
  CreateSessionParams_ID :: uuid
  CreateSessionParams_Username :: string
  CreateSessionParams_RefreshToken :: string
  CreateSessionParams_UserAgent :: string
  CreateSessionParams_ClientIp :: string
  CreateSessionParams_IsBlocked :: bool
  CreateSessionParams_ExpiresAt :: time

record CreateUserParams =
  CreateUserParams_Username :: string
  CreateUserParams_HashedPassword :: string
  CreateUserParams_FullName :: string
  CreateUserParams_Email :: string

record UpdateUserParams =
  UpdateUserParams_HashedPassword :: "string option"
  UpdateUserParams_PasswordChangedAt :: "time option"
  UpdateUserParams_FullName :: "string option"
  UpdateUserParams_Email :: "string option"
  UpdateUserParams_Username :: string

record TransferTxResult =
  TransferTxResult_Transfer :: Transfer
  TransferTxResult_FromEntry :: Entry
  TransferTxResult_ToEntry :: Entry
  TransferTxResult_FromAccount :: Account
  TransferTxResult_ToAccount :: Account

record IdempotentTransferTxParams =
  IdempotentTransferTxParams_TransferTxParams :: TransferTxParams
  IdempotentTransferTxParams_Owner :: string
  IdempotentTransferTxParams_Key :: string
  IdempotentTransferTxParams_RequestHash :: string

section \<open>Token payload and configuration\<close>

record Payload =
  Payload_ID :: uuid
  Payload_Username :: string
  Payload_IssuedAt :: time
  Payload_ExpiredAt :: time

record Config =
  Config_Environment :: string
  Config_DbDriver :: string
  Config_DbSource :: string
  Config_MigrationURL :: string
  Config_HTTPServerAddress :: string
  Config_GRPCServerAddress :: string
  Config_TokenSymmetricKey :: string
  Config_AccessTokenDuration :: duration
  Config_RefreshTokenDuration :: duration

end
