(* ===== verification/World.thy ===== *)
theory World
  imports Models
begin

text \<open>
  The state the program runs against. The database is one list of rows per table of
  \<open>db/migration/\<close> plus the sequence behind each \<open>bigserial\<close> column. The \<open>env\<close> record
  holds what is not code of the repository: the clocks, the network between the program
  and PostgreSQL, and the third-party functions. Every interaction with it advances
  \<open>tick\<close>, so a theorem for every \<open>env\<close> covers every pattern of clock readings and
  failures.
\<close>

section \<open>The database\<close>

text \<open>A sequence field is the last value \<open>nextval\<close> returned, 0 before the first call.\<close>

record database =
  users :: "User list"
  accounts :: "Account list"
  entries :: "Entry list"
  transfers :: "Transfer list"
  sessions :: "Session list"
  idempotency_keys :: "IdempotencyKey list"
  account_seq :: nat
  entry_seq :: nat
  transfer_seq :: nat

definition empty_db :: database where
  "empty_db = \<lparr>users = [], accounts = [], entries = [], transfers = [], sessions = [],
     idempotency_keys = [], account_seq = 0, entry_seq = 0, transfer_seq = 0\<rparr>"

section \<open>The environment\<close>

text \<open>
  What happens to one round trip to PostgreSQL: it is answered, it is lost before the server
  executes it, or the server executes it and the answer is lost.
\<close>

datatype fault = NoFault | FaultBefore string | FaultAfter string

text \<open>
  \<open>clock\<close> is \<open>time.Now()\<close> of the Go process and \<open>db_clock\<close> the server's \<open>now()\<close>;
  \<open>pg_timestamp\<close> is the rounding of an instant stored in a \<open>timestamptz\<close> column. The
  others are \<open>uuid.NewRandom\<close>, \<open>bcrypt.GenerateFromPassword\<close> (its salt depends on the
  tick), \<open>bcrypt.CompareHashAndPassword\<close>, \<open>paseto.V2.Encrypt\<close> (with a nonce) and
  \<open>Decrypt\<close>, \<open>sha256.Sum256\<close>, \<open>json.Marshal\<close> of a transfer result,
  \<open>mail.ParseAddress\<close> (does it accept?) and the validator's \<open>email\<close> tag.
\<close>

record env =
  clock :: "nat \<Rightarrow> time"
  db_clock :: "nat \<Rightarrow> time"
  net :: "nat \<Rightarrow> fault"
  pg_timestamp :: "time \<Rightarrow> time"
  uuid_NewRandom :: "nat \<Rightarrow> error + uuid"
  bcrypt_Generate :: "nat \<Rightarrow> string \<Rightarrow> error + string"
  bcrypt_Compare :: "string \<Rightarrow> string \<Rightarrow> error option"
  paseto_Encrypt :: "nat \<Rightarrow> string \<Rightarrow> Payload \<Rightarrow> error + string"
  paseto_Decrypt :: "string \<Rightarrow> string \<Rightarrow> error + Payload"
  sha256_Sum :: "string \<Rightarrow> string"
  json_Marshal :: "TransferTxResult \<Rightarrow> error + string"
  mail_ParseAddress :: "string \<Rightarrow> bool"
  email_tag :: "string \<Rightarrow> bool"

text \<open>
  \<open>tx_start\<close> is the server time at which the open transaction began: PostgreSQL's
  \<open>now()\<close> is constant inside a transaction.
\<close>

record world =
  db :: database
  tick :: nat
  tx_start :: "time option"

type_synonym 'a op = "(world, 'a) state"
type_synonym 'a db_op = "(world, error + 'a) state"

definition start_world :: world where
  "start_world = \<lparr>db = empty_db, tick = 0, tx_start = None\<rparr>"

section \<open>Primitive effects\<close>

definition time_Now :: "env \<Rightarrow> time op" where
  "time_Now E = State (\<lambda>w. (clock E (tick w), w\<lparr>tick := Suc (tick w)\<rparr>))"

text \<open>A third-party call that draws randomness at the current tick.\<close>

definition draw :: "(nat \<Rightarrow> 'a) \<Rightarrow> 'a op" where
  "draw f = State (\<lambda>w. (f (tick w), w\<lparr>tick := Suc (tick w)\<rparr>))"

text \<open>
  A statement reads and writes the tables at a given \<open>now()\<close>. \<open>query E s\<close> sends it over
  the connection. A statement that fails leaves the tables as they were: that is how each
  statement below is written.
\<close>

type_synonym 'a stmt = "time \<Rightarrow> database \<Rightarrow> (error + 'a) \<times> database"

definition server_now :: "env \<Rightarrow> world \<Rightarrow> time" where
  "server_now E w =
     pg_timestamp E (case tx_start w of None \<Rightarrow> db_clock E (tick w) | Some t \<Rightarrow> t)"

definition query :: "env \<Rightarrow> 'a stmt \<Rightarrow> 'a db_op" where
  "query E s = State (\<lambda>w.
     let (r, d) = s (server_now E w) (db w) in
     case net E (tick w) of
       NoFault \<Rightarrow> (r, w\<lparr>db := d, tick := Suc (tick w)\<rparr>)
     | FaultBefore m \<Rightarrow> (Inl (OtherErr m), w\<lparr>tick := Suc (tick w)\<rparr>)
     | FaultAfter m \<Rightarrow> (Inl (OtherErr m), w\<lparr>db := d, tick := Suc (tick w)\<rparr>))"

lemma run_time_Now [run_simps]:
  "run (time_Now E) w = (clock E (tick w), w\<lparr>tick := Suc (tick w)\<rparr>)"
  by (simp add: time_Now_def)

lemma run_draw [run_simps]: "run (draw f) w = (f (tick w), w\<lparr>tick := Suc (tick w)\<rparr>)"
  by (simp add: draw_def)

lemma run_query:
  "run (query E s) w =
     (case net E (tick w) of
       NoFault \<Rightarrow> (fst (s (server_now E w) (db w)),
          w\<lparr>db := snd (s (server_now E w) (db w)), tick := Suc (tick w)\<rparr>)
     | FaultBefore m \<Rightarrow> (Inl (OtherErr m), w\<lparr>tick := Suc (tick w)\<rparr>)
     | FaultAfter m \<Rightarrow> (Inl (OtherErr m),
          w\<lparr>db := snd (s (server_now E w) (db w)), tick := Suc (tick w)\<rparr>))"
  by (simp add: query_def case_prod_beta Let_def split: fault.splits)

lemma run_query_ok [run_simps]:
  "net E (tick w) = NoFault \<Longrightarrow> run (query E s) w =
     (fst (s (server_now E w) (db w)),
      w\<lparr>db := snd (s (server_now E w) (db w)), tick := Suc (tick w)\<rparr>)"
  by (simp add: run_query)

lemma query_InrD:
  "run (query E s) w = (Inr x, w') \<Longrightarrow>
   s (server_now E w) (db w) = (Inr x, db w') \<and> tick w' = Suc (tick w) \<and> tx_start w' = tx_start w"
  by (auto simp: run_query prod_eq_iff split: fault.splits)

text \<open>However the round trip ends, the tables are the old ones or those of the statement.\<close>

lemma query_db: "run (query E s) w = (r, w') \<Longrightarrow>
   (db w' = db w \<or> db w' = snd (s (server_now E w) (db w))) \<and>
   tick w' = Suc (tick w) \<and> tx_start w' = tx_start w"
  by (auto simp: run_query split: fault.splits)

section \<open>Relations on the database\<close>

text \<open>
  A relation between worlds that only looks at the database. Clock readings, draws and
  read-only statements keep every reflexive one.
\<close>

definition on_db :: "(database \<Rightarrow> database \<Rightarrow> bool) \<Rightarrow> world \<Rightarrow> world \<Rightarrow> bool" where
  "on_db Q w w' \<longleftrightarrow> Q (db w) (db w')"

locale db_relation =
  fixes Q :: "database \<Rightarrow> database \<Rightarrow> bool"
  assumes Q_refl: "Q d d"
    and Q_trans: "Q d1 d2 \<Longrightarrow> Q d2 d3 \<Longrightarrow> Q d1 d3"
begin

lemma query_rel: "(\<And>t d. Q d (snd (s t d))) \<Longrightarrow> always (on_db Q) (query E s)"
  by (rule alwaysI) (auto simp: on_db_def Q_refl dest!: query_db)

lemma time_Now_rel: "always (on_db Q) (time_Now E)"
  by (rule alwaysI) (auto simp: on_db_def Q_refl run_time_Now)

lemma draw_rel: "always (on_db Q) (draw f)"
  by (rule alwaysI) (auto simp: on_db_def Q_refl run_draw)

end

sublocale db_relation \<subseteq> run_relation "on_db Q"
  by unfold_locales (auto simp: on_db_def intro: Q_refl Q_trans)

end
