(* ===== verification/Examples.thy ===== *)
theory Examples
  imports World
begin

text \<open>
  A concrete environment and a concrete database, on which the definitions can be evaluated
  and the theorems applied. Every round trip succeeds, clocks count ticks, and the
  third-party functions are simple stand-ins: the cipher writes the key and the fields of
  the payload in clear, and decryption is proved to invert it.
\<close>

section \<open>A stand-in for the cipher\<close>

definition show_int :: "int \<Rightarrow> string" where
  "show_int i = (if i < 0 then CHR ''-'' # show_nat (nat (- i)) else show_nat (nat i))"

definition read_int :: "string \<Rightarrow> int" where
  "read_int s = (case s of c # cs \<Rightarrow> if c = CHR ''-'' then - int (read_nat cs) else int (read_nat s)
     | [] \<Rightarrow> 0)"

lemma read_show_int: "read_int (show_int i) = i"
proof (cases "i < 0")
  case True
  then show ?thesis by (simp add: read_int_def show_int_def read_show_nat)
next
  case False
  obtain c cs where n: "show_nat (nat i) = c # cs"
    by (cases "show_nat (nat i)") (simp_all add: show_nat.simps [of "nat i"] split: if_splits)
  then have "c \<noteq> CHR ''-''" using show_nat_no_sep(2) [of "nat i"] by auto
  moreover have "read_nat (c # cs) = nat i" using read_show_nat [of "nat i"] n by simp
  ultimately show ?thesis using False n by (simp add: read_int_def show_int_def)
qed

lemma show_int_no_colon: "CHR '':'' \<notin> set (show_int i)"
  by (simp add: show_int_def show_nat_no_sep)

definition example_encode :: "Payload \<Rightarrow> string" where
  "example_encode p =
     show_nat (unat (Payload_ID p)) @ '':'' @ show_int (Payload_IssuedAt p) @ '':'' @
     show_int (Payload_ExpiredAt p) @ '':'' @ Payload_Username p"

definition cut :: "string \<Rightarrow> string \<times> string" where
  "cut s = (takeWhile (\<lambda>c. c \<noteq> CHR '':'') s, drop 1 (dropWhile (\<lambda>c. c \<noteq> CHR '':'') s))"

lemma cut_append: "CHR '':'' \<notin> set s \<Longrightarrow> cut (s @ CHR '':'' # t) = (s, t)"
  by (auto simp: cut_def takeWhile_append dropWhile_append)

definition example_decode :: "string \<Rightarrow> Payload" where
  "example_decode s =
     (case cut s of (a, s1) \<Rightarrow> case cut s1 of (b, s2) \<Rightarrow> case cut s2 of (c, u) \<Rightarrow>
        \<lparr>Payload_ID = of_nat (read_nat a), Payload_Username = u, Payload_IssuedAt = read_int b,
         Payload_ExpiredAt = read_int c\<rparr>)"

lemma example_decode_encode: "example_decode (example_encode p) = p"
  by (simp add: example_decode_def example_encode_def cut_append show_nat_no_sep
      show_int_no_colon read_show_nat read_show_int)

definition example_prefix :: "string \<Rightarrow> string" where
  "example_prefix k = show_nat (length k) @ '':'' @ k"

definition example_encrypt :: "string \<Rightarrow> Payload \<Rightarrow> string" where
  "example_encrypt k p = example_prefix k @ example_encode p"

definition example_decrypt :: "string \<Rightarrow> string \<Rightarrow> error + Payload" where
  "example_decrypt tok k =
     (let n = length (example_prefix k) in
      if take n tok = example_prefix k then Inr (example_decode (drop n tok))
      else Inl (OtherErr ''invalid token authentication''))"

lemma example_decrypt_encrypt: "example_decrypt (example_encrypt k p) k = Inr p"
  by (simp add: example_decrypt_def example_encrypt_def example_decode_encode)

section \<open>The environment\<close>

definition example_env :: env where
  "example_env = \<lparr>
     clock = int, db_clock = int, net = (\<lambda>_. NoFault), pg_timestamp = (\<lambda>t. t),
     uuid_NewRandom = (\<lambda>n. Inr (of_nat n)),
     bcrypt_Generate = (\<lambda>n pw. if length pw \<le> 72 then Inr (CHR ''$'' # pw)
       else Inl (OtherErr ''password length exceeds 72 bytes'')),
     bcrypt_Compare = (\<lambda>h pw. if h = CHR ''$'' # pw then None else Some (OtherErr ''mismatch'')),
     paseto_Encrypt = (\<lambda>n k p. Inr (example_encrypt k p)), paseto_Decrypt = example_decrypt,
     sha256_Sum = (\<lambda>s. s),
     json_Marshal = (\<lambda>r. Inr (''transfer '' @ show_int64 (Transfer_ID (TransferTxResult_Transfer r)))),
     mail_ParseAddress = (\<lambda>s. CHR ''@'' \<in> set s), email_tag = (\<lambda>s. CHR ''@'' \<in> set s)\<rparr>"

lemma example_env_simps [simp]:
  "clock example_env n = int n" "db_clock example_env n = int n" "net example_env n = NoFault"
  "pg_timestamp example_env t = t" "uuid_NewRandom example_env n = Inr (of_nat n)"
  "bcrypt_Generate example_env n pw = (if length pw \<le> 72 then Inr (CHR ''$'' # pw)
     else Inl (OtherErr ''password length exceeds 72 bytes''))"
  "bcrypt_Compare example_env h pw = (if h = CHR ''$'' # pw then None else Some (OtherErr ''mismatch''))"
  "paseto_Encrypt example_env n k p = Inr (example_encrypt k p)"
  "paseto_Decrypt example_env = example_decrypt" "sha256_Sum example_env s = s"
  "json_Marshal example_env r =
     Inr (''transfer '' @ show_int64 (Transfer_ID (TransferTxResult_Transfer r)))"
  by (simp_all add: example_env_def)

section \<open>A database\<close>

definition example_user :: "string \<Rightarrow> User" where
  "example_user u = \<lparr>User_Username = u, User_HashedPassword = ''$secret'', User_FullName = u,
     User_Email = u @ ''@bank'', User_PasswordChangedAt = 0, User_CreatedAt = 0\<rparr>"

definition example_account :: "int64 \<Rightarrow> string \<Rightarrow> int64 \<Rightarrow> Account" where
  "example_account i u b = \<lparr>Account_ID = i, Account_Owner = u, Account_Balance = b,
     Account_Currency = ''USD'', Account_CreatedAt = 0\<rparr>"

text \<open>Account 1 of \<open>ann\<close> holds 100, account 2 of \<open>bob\<close> holds 5.\<close>

definition example_db :: database where
  "example_db = empty_db\<lparr>users := [example_user ''ann'', example_user ''bob''],
     accounts := [example_account 1 ''ann'' 100, example_account 2 ''bob'' 5], account_seq := 2\<rparr>"

definition example_world :: world where
  "example_world = start_world\<lparr>db := example_db\<rparr>"

definition example_transfer :: "int64 \<Rightarrow> TransferTxParams" where
  "example_transfer x = \<lparr>TransferTxParams_FromAccountID = 1, TransferTxParams_ToAccountID = 2,
     TransferTxParams_Amount = x\<rparr>"

lemmas example_defs = example_user_def example_account_def example_db_def example_world_def
  example_transfer_def empty_db_def start_world_def

lemma example_world_simps [simp]:
  "db example_world = example_db" "tick example_world = 0" "tx_start example_world = None"
  "transfer_seq example_db = 0" "entry_seq example_db = 0" "account_seq example_db = 2"
  "sessions example_db = []" "idempotency_keys example_db = []" "transfers example_db = []"
  "entries example_db = []"
  by (simp_all add: example_defs)

end
