(* ===== verification/Query_Ledger.thy ===== *)
theory Query_Ledger
  imports Examples
begin

text \<open>
  The queries on the tables \<open>accounts\<close>, \<open>entries\<close> and \<open>transfers\<close>:
  \<open>db/sqlc/account.sql.go\<close>, \<open>entry.sql.go\<close> and \<open>transfer.sql.go\<close>. For a query method
  \<open>Foo\<close>, \<open>sql_Foo\<close> is its SQL text executed against the tables under the constraints of
  \<open>db/migration/\<close>, and \<open>Foo E arg\<close> is the method: the statement sent over the connection
  and the row scanned. A failed statement leaves every row as it was, but a consumed
  sequence value is gone: \<open>nextval\<close> is not rolled back.
\<close>

section \<open>Constraint errors and sequences\<close>

abbreviation unique_violation :: "string \<Rightarrow> error" where
  "unique_violation c \<equiv> PqError ''unique_violation'' c"

abbreviation foreign_key_violation :: "string \<Rightarrow> error" where
  "foreign_key_violation c \<equiv> PqError ''foreign_key_violation'' c"

abbreviation check_violation :: "string \<Rightarrow> error" where
  "check_violation c \<equiv> PqError ''check_violation'' c"

text \<open>The value a \<open>bigserial\<close> column takes from its sequence, and the sequence after it.\<close>

definition nextval :: "nat \<Rightarrow> error + int64 \<times> nat" where
  "nextval s =
     (if int s < max_int64 then Inr (word_of_int (int s + 1), s + 1)
      else Inl (PqError ''sequence_generator_limit_exceeded'' ''''))"

lemma nextval_InrD:
  assumes "nextval s = Inr (i, s')"
  shows "sint i = int s + 1 \<and> s' = s + 1"
proof -
  from assms have s: "int s < max_int64" "i = word_of_int (int s + 1)" "s' = s + 1"
    by (simp_all only: nextval_def sum.inject prod.inject split: if_splits) auto
  then have "in_int64 (int s + 1)" by (simp add: in_int64_def)
  from sint64_of_int [OF this] s(2) have "sint i = int s + 1" by metis
  with s(3) show ?thesis by simp
qed

text \<open>\<open>LIMIT l OFFSET off\<close> on an ordered result.\<close>

definition page :: "int32 \<Rightarrow> int32 \<Rightarrow> 'r list \<Rightarrow> error + 'r list" where
  "page l off rows =
     (if sint off < 0 then Inl (PqError ''invalid_row_count_in_result_offset_clause'' '''')
      else if sint l < 0 then Inl (PqError ''invalid_row_count_in_limit_clause'' '''')
      else Inr (take (nat (sint l)) (drop (nat (sint off)) rows)))"

text \<open>A \<open>:one\<close> query scans the row it got or returns \<open>sql.ErrNoRows\<close>.\<close>

definition one_row :: "'r option \<Rightarrow> error + 'r" where
  "one_row r = (case r of None \<Rightarrow> Inl ErrNoRows | Some x \<Rightarrow> Inr x)"

lemma one_row_simps [simp]:
  "one_row None = Inl ErrNoRows" "one_row (Some x) = Inr x"
  "one_row r = Inr x \<longleftrightarrow> r = Some x" "one_row r = Inl e \<longleftrightarrow> r = None \<and> e = ErrNoRows"
  by (auto simp: one_row_def split: option.splits)

section \<open>accounts\<close>

definition add_to_balance :: "int64 \<Rightarrow> Account \<Rightarrow> Account" where
  "add_to_balance amount a = a\<lparr>Account_Balance := Account_Balance a + amount\<rparr>"

lemma add_to_balance_simps [simp]:
  "Account_ID (add_to_balance x a) = Account_ID a"
  "Account_Owner (add_to_balance x a) = Account_Owner a"
  "Account_Currency (add_to_balance x a) = Account_Currency a"
  "Account_CreatedAt (add_to_balance x a) = Account_CreatedAt a"
  "Account_Balance (add_to_balance x a) = Account_Balance a + x"
  by (simp_all add: add_to_balance_def)

definition sql_AddAccountBalance :: "AddAccountBalanceParams \<Rightarrow> Account stmt" where
  "sql_AddAccountBalance arg now d =
     (case lookup Account_ID (AddAccountBalanceParams_ID arg) (accounts d) of
        None \<Rightarrow> (Inl ErrNoRows, d)
      | Some a \<Rightarrow>
          let b = sint (Account_Balance a) + sint (AddAccountBalanceParams_Amount arg) in
          if \<not> in_int64 b then (Inl (PqError ''numeric_value_out_of_range'' ''''), d)
          else if b < 0 then (Inl (check_violation ''accounts_balance_non_negative''), d)
          else (Inr (add_to_balance (AddAccountBalanceParams_Amount arg) a),
                d\<lparr>accounts := update_where (\<lambda>r. Account_ID r = AddAccountBalanceParams_ID arg)
                     (add_to_balance (AddAccountBalanceParams_Amount arg)) (accounts d)\<rparr>))"

definition AddAccountBalance :: "env \<Rightarrow> AddAccountBalanceParams \<Rightarrow> Account db_op" where
  "AddAccountBalance E arg = query E (sql_AddAccountBalance arg)"

definition sql_CreateAccount :: "CreateAccountParams \<Rightarrow> Account stmt" where
  "sql_CreateAccount arg now d =
     (case nextval (account_seq d) of
        Inl e \<Rightarrow> (Inl e, d)
      | Inr (i, s) \<Rightarrow>
          let d1 = d\<lparr>account_seq := s\<rparr>;
              a = \<lparr>Account_ID = i, Account_Owner = CreateAccountParams_Owner arg,
                   Account_Balance = CreateAccountParams_Balance arg,
                   Account_Currency = CreateAccountParams_Currency arg,
                   Account_CreatedAt = now\<rparr> in
          if sint (Account_Balance a) < 0 then
            (Inl (check_violation ''accounts_balance_non_negative''), d1)
          else if lookup Account_ID i (accounts d) \<noteq> None then
            (Inl (unique_violation ''accounts_pkey''), d1)
          else if \<exists>r \<in> set (accounts d). Account_Owner r = Account_Owner a \<and>
                    Account_Currency r = Account_Currency a then
            (Inl (unique_violation ''owner_currency_key''), d1)
          else if lookup User_Username (Account_Owner a) (users d) = None then
            (Inl (foreign_key_violation ''accounts_owner_fkey''), d1)
          else (Inr a, d1\<lparr>accounts := accounts d @ [a]\<rparr>))"

definition CreateAccount :: "env \<Rightarrow> CreateAccountParams \<Rightarrow> Account db_op" where
  "CreateAccount E arg = query E (sql_CreateAccount arg)"

text \<open>A row referenced from \<open>entries\<close> or \<open>transfers\<close> cannot be deleted.\<close>

definition sql_DeleteAccount :: "int64 \<Rightarrow> unit stmt" where
  "sql_DeleteAccount i now d =
     (if lookup Account_ID i (accounts d) = None then (Inr (), d)
      else if \<exists>e \<in> set (entries d). Entry_AccountID e = i then
        (Inl (foreign_key_violation ''entries_account_id_fkey''), d)
      else if \<exists>t \<in> set (transfers d). Transfer_FromAccountID t = i then
        (Inl (foreign_key_violation ''transfers_from_account_id_fkey''), d)
      else if \<exists>t \<in> set (transfers d). Transfer_ToAccountID t = i then
        (Inl (foreign_key_violation ''transfers_to_account_id_fkey''), d)
      else (Inr (), d\<lparr>accounts := filter (\<lambda>a. Account_ID a \<noteq> i) (accounts d)\<rparr>))"

definition DeleteAccount :: "env \<Rightarrow> int64 \<Rightarrow> unit db_op" where
  "DeleteAccount E i = query E (sql_DeleteAccount i)"

definition sql_GetAccount :: "int64 \<Rightarrow> Account stmt" where
  "sql_GetAccount i now d = (one_row (lookup Account_ID i (accounts d)), d)"

definition GetAccount :: "env \<Rightarrow> int64 \<Rightarrow> Account db_op" where
  "GetAccount E i = query E (sql_GetAccount i)"

text \<open>
  The \<open>FOR NO KEY UPDATE\<close> lock of this query orders concurrent transactions; what it
  returns is the row \<open>GetAccount\<close> returns.
\<close>

definition sql_GetAccountForUpdate :: "int64 \<Rightarrow> Account stmt" where
  "sql_GetAccountForUpdate i now d = (one_row (lookup Account_ID i (accounts d)), d)"

definition GetAccountForUpdate :: "env \<Rightarrow> int64 \<Rightarrow> Account db_op" where
  "GetAccountForUpdate E i = query E (sql_GetAccountForUpdate i)"

definition sql_ListAccounts :: "ListAccountsParams \<Rightarrow> Account list stmt" where
  "sql_ListAccounts arg now d =
     (page (ListAccountsParams_Limit arg) (ListAccountsParams_Offset arg)
        (sort_key (\<lambda>a. sint (Account_ID a))
           (filter (\<lambda>a. Account_Owner a = ListAccountsParams_Owner arg) (accounts d))), d)"

definition ListAccounts :: "env \<Rightarrow> ListAccountsParams \<Rightarrow> Account list db_op" where
  "ListAccounts E arg = query E (sql_ListAccounts arg)"

definition sql_UpdateAccount :: "UpdateAccountParams \<Rightarrow> Account stmt" where
  "sql_UpdateAccount arg now d =
     (case lookup Account_ID (UpdateAccountParams_ID arg) (accounts d) of
        None \<Rightarrow> (Inl ErrNoRows, d)
      | Some a \<Rightarrow>
          if sint (UpdateAccountParams_Balance arg) < 0 then
            (Inl (check_violation ''accounts_balance_non_negative''), d)
          else (Inr (a\<lparr>Account_Balance := UpdateAccountParams_Balance arg\<rparr>),
                d\<lparr>accounts := update_where (\<lambda>r. Account_ID r = UpdateAccountParams_ID arg)
                     (\<lambda>r. r\<lparr>Account_Balance := UpdateAccountParams_Balance arg\<rparr>) (accounts d)\<rparr>))"

definition UpdateAccount :: "env \<Rightarrow> UpdateAccountParams \<Rightarrow> Account db_op" where
  "UpdateAccount E arg = query E (sql_UpdateAccount arg)"

section \<open>entries\<close>

definition sql_CreateEntry :: "CreateEntryParams \<Rightarrow> Entry stmt" where
  "sql_CreateEntry arg now d =
     (case nextval (entry_seq d) of
        Inl e \<Rightarrow> (Inl e, d)
      | Inr (i, s) \<Rightarrow>
          let d1 = d\<lparr>entry_seq := s\<rparr>;
              e = \<lparr>Entry_ID = i, Entry_AccountID = CreateEntryParams_AccountID arg,
                   Entry_Amount = CreateEntryParams_Amount arg, Entry_CreatedAt = now\<rparr> in
          if lookup Entry_ID i (entries d) \<noteq> None then
            (Inl (unique_violation ''entries_pkey''), d1)
          else if lookup Account_ID (Entry_AccountID e) (accounts d) = None then
            (Inl (foreign_key_violation ''entries_account_id_fkey''), d1)
          else (Inr e, d1\<lparr>entries := entries d @ [e]\<rparr>))"

definition CreateEntry :: "env \<Rightarrow> CreateEntryParams \<Rightarrow> Entry db_op" where
  "CreateEntry E arg = query E (sql_CreateEntry arg)"

definition sql_GetEntry :: "int64 \<Rightarrow> Entry stmt" where
  "sql_GetEntry i now d = (one_row (lookup Entry_ID i (entries d)), d)"

definition GetEntry :: "env \<Rightarrow> int64 \<Rightarrow> Entry db_op" where
  "GetEntry E i = query E (sql_GetEntry i)"

definition sql_ListEntries :: "ListEntriesParams \<Rightarrow> Entry list stmt" where
  "sql_ListEntries arg now d =
     (page (ListEntriesParams_Limit arg) (ListEntriesParams_Offset arg)
        (sort_key (\<lambda>e. sint (Entry_ID e))
           (filter (\<lambda>e. Entry_AccountID e = ListEntriesParams_AccountID arg) (entries d))), d)"

definition ListEntries :: "env \<Rightarrow> ListEntriesParams \<Rightarrow> Entry list db_op" where
  "ListEntries E arg = query E (sql_ListEntries arg)"

section \<open>transfers\<close>

definition sql_CreateTransfer :: "CreateTransferParams \<Rightarrow> Transfer stmt" where
  "sql_CreateTransfer arg now d =
     (case nextval (transfer_seq d) of
        Inl e \<Rightarrow> (Inl e, d)
      | Inr (i, s) \<Rightarrow>
          let d1 = d\<lparr>transfer_seq := s\<rparr>;
              t = \<lparr>Transfer_ID = i, Transfer_FromAccountID = TransferTxParams_FromAccountID arg,
                   Transfer_ToAccountID = TransferTxParams_ToAccountID arg,
                   Transfer_Amount = TransferTxParams_Amount arg, Transfer_CreatedAt = now\<rparr> in
          if lookup Transfer_ID i (transfers d) \<noteq> None then
            (Inl (unique_violation ''transfers_pkey''), d1)
          else if lookup Account_ID (Transfer_FromAccountID t) (accounts d) = None then
            (Inl (foreign_key_violation ''transfers_from_account_id_fkey''), d1)
          else if lookup Account_ID (Transfer_ToAccountID t) (accounts d) = None then
            (Inl (foreign_key_violation ''transfers_to_account_id_fkey''), d1)
          else (Inr t, d1\<lparr>transfers := transfers d @ [t]\<rparr>))"

definition CreateTransfer :: "env \<Rightarrow> CreateTransferParams \<Rightarrow> Transfer db_op" where
  "CreateTransfer E arg = query E (sql_CreateTransfer arg)"

definition sql_GetTransfer :: "int64 \<Rightarrow> Transfer stmt" where
  "sql_GetTransfer i now d = (one_row (lookup Transfer_ID i (transfers d)), d)"

definition GetTransfer :: "env \<Rightarrow> int64 \<Rightarrow> Transfer db_op" where
  "GetTransfer E i = query E (sql_GetTransfer i)"

definition sql_ListTransfers :: "ListTransfersParams \<Rightarrow> Transfer list stmt" where
  "sql_ListTransfers arg now d =
     (page (ListTransfersParams_Limit arg) (ListTransfersParams_Offset arg)
        (sort_key (\<lambda>t. sint (Transfer_ID t))
           (filter (\<lambda>t. Transfer_FromAccountID t = ListTransfersParams_FromAccountID arg \<or>
                        Transfer_ToAccountID t = ListTransfersParams_ToAccountID arg)
              (transfers d))), d)"

definition ListTransfers :: "env \<Rightarrow> ListTransfersParams \<Rightarrow> Transfer list db_op" where
  "ListTransfers E arg = query E (sql_ListTransfers arg)"

end
