(* ===== verification/Query_Identity.thy ===== *)
theory Query_Identity
  imports Query_Ledger
begin

text \<open>
  The queries on the tables \<open>users\<close>, \<open>sessions\<close> and \<open>idempotency_keys\<close>:
  \<open>db/sqlc/user.sql.go\<close>, \<open>session.sql.go\<close> and \<open>idempotency_key.sql.go\<close>, in the form
  explained in Query_Ledger.
\<close>

section \<open>users\<close>

text \<open>
  The column default of \<open>password_changed_at\<close> is \<open>0001-01-01 00:00:00Z\<close>: 62135596800
  seconds before the epoch.
\<close>

definition zero_time :: time where
  "zero_time = - 62135596800 * 1000000000"

definition sql_CreateUser :: "CreateUserParams \<Rightarrow> User stmt" where
  "sql_CreateUser arg now d =
     (let u = \<lparr>User_Username = CreateUserParams_Username arg,
               User_HashedPassword = CreateUserParams_HashedPassword arg,
               User_FullName = CreateUserParams_FullName arg,
               User_Email = CreateUserParams_Email arg,
               User_PasswordChangedAt = zero_time, User_CreatedAt = now\<rparr> in
      if lookup User_Username (User_Username u) (users d) \<noteq> None then
        (Inl (unique_violation ''users_pkey''), d)
      else if lookup User_Email (User_Email u) (users d) \<noteq> None then
        (Inl (unique_violation ''users_email_key''), d)
      else (Inr u, d\<lparr>users := users d @ [u]\<rparr>))"

definition CreateUser :: "env \<Rightarrow> CreateUserParams \<Rightarrow> User db_op" where
  "CreateUser E arg = query E (sql_CreateUser arg)"

definition sql_GetUser :: "string \<Rightarrow> User stmt" where
  "sql_GetUser username now d = (one_row (lookup User_Username username (users d)), d)"

definition GetUser :: "env \<Rightarrow> string \<Rightarrow> User db_op" where
  "GetUser E username = query E (sql_GetUser username)"

text \<open>\<open>COALESCE($n, column)\<close>.\<close>

definition coalesce :: "'a option \<Rightarrow> 'a \<Rightarrow> 'a" where
  "coalesce v old = (case v of None \<Rightarrow> old | Some x \<Rightarrow> x)"

lemma coalesce_simps [simp]: "coalesce None x = x" "coalesce (Some y) x = y"
  by (simp_all add: coalesce_def)

definition set_user :: "env \<Rightarrow> UpdateUserParams \<Rightarrow> User \<Rightarrow> User" where
  "set_user E arg u =
     u\<lparr>User_HashedPassword := coalesce (UpdateUserParams_HashedPassword arg) (User_HashedPassword u),
       User_PasswordChangedAt :=
         coalesce (map_option (pg_timestamp E) (UpdateUserParams_PasswordChangedAt arg))
           (User_PasswordChangedAt u),
       User_FullName := coalesce (UpdateUserParams_FullName arg) (User_FullName u),
       User_Email := coalesce (UpdateUserParams_Email arg) (User_Email u)\<rparr>"

definition sql_UpdateUser :: "env \<Rightarrow> UpdateUserParams \<Rightarrow> User stmt" where
  "sql_UpdateUser E arg now d =
     (case lookup User_Username (UpdateUserParams_Username arg) (users d) of
        None \<Rightarrow> (Inl ErrNoRows, d)
      | Some u \<Rightarrow>
          if \<exists>r \<in> set (users d). User_Username r \<noteq> User_Username u \<and>
               User_Email r = User_Email (set_user E arg u) then
            (Inl (unique_violation ''users_email_key''), d)
          else (Inr (set_user E arg u),
                d\<lparr>users := update_where (\<lambda>r. User_Username r = UpdateUserParams_Username arg)
                     (set_user E arg) (users d)\<rparr>))"

definition UpdateUser :: "env \<Rightarrow> UpdateUserParams \<Rightarrow> User db_op" where
  "UpdateUser E arg = query E (sql_UpdateUser E arg)"

section \<open>sessions\<close>

definition block :: "Session \<Rightarrow> Session" where
  "block s = s\<lparr>Session_IsBlocked := True\<rparr>"

lemma block_simps [simp]:
  "Session_ID (block s) = Session_ID s" "Session_Username (block s) = Session_Username s"
  "Session_RefreshToken (block s) = Session_RefreshToken s"
  "Session_UserAgent (block s) = Session_UserAgent s"
  "Session_ClientIp (block s) = Session_ClientIp s"
  "Session_ExpiresAt (block s) = Session_ExpiresAt s"
  "Session_CreatedAt (block s) = Session_CreatedAt s"
  "Session_IsBlocked (block s)"
  by (simp_all add: block_def)

definition sql_BlockSession :: "uuid \<Rightarrow> Session stmt" where
  "sql_BlockSession i now d =
     (case lookup Session_ID i (sessions d) of
        None \<Rightarrow> (Inl ErrNoRows, d)
      | Some s \<Rightarrow>
          (Inr (block s), d\<lparr>sessions := update_where (\<lambda>r. Session_ID r = i) block (sessions d)\<rparr>))"

definition BlockSession :: "env \<Rightarrow> uuid \<Rightarrow> Session db_op" where
  "BlockSession E i = query E (sql_BlockSession i)"

definition open_session :: "string \<Rightarrow> Session \<Rightarrow> bool" where
  "open_session username s \<longleftrightarrow> Session_Username s = username \<and> \<not> Session_IsBlocked s"

definition sql_BlockUserSessions :: "string \<Rightarrow> int64 stmt" where
  "sql_BlockUserSessions username now d =
     (Inr (of_nat (length (filter (open_session username) (sessions d)))),
      d\<lparr>sessions := update_where (open_session username) block (sessions d)\<rparr>)"

definition BlockUserSessions :: "env \<Rightarrow> string \<Rightarrow> int64 db_op" where
  "BlockUserSessions E username = query E (sql_BlockUserSessions username)"

definition sql_CreateSession :: "env \<Rightarrow> CreateSessionParams \<Rightarrow> Session stmt" where
  "sql_CreateSession E arg now d =
     (let s = \<lparr>Session_ID = CreateSessionParams_ID arg,
               Session_Username = CreateSessionParams_Username arg,
               Session_RefreshToken = CreateSessionParams_RefreshToken arg,
               Session_UserAgent = CreateSessionParams_UserAgent arg,
               Session_ClientIp = CreateSessionParams_ClientIp arg,
               Session_IsBlocked = CreateSessionParams_IsBlocked arg,
               Session_ExpiresAt = pg_timestamp E (CreateSessionParams_ExpiresAt arg),
               Session_CreatedAt = now\<rparr> in
      if lookup Session_ID (Session_ID s) (sessions d) \<noteq> None then
        (Inl (unique_violation ''sessions_pkey''), d)
      else if lookup User_Username (Session_Username s) (users d) = None then
        (Inl (foreign_key_violation ''sessions_username_fkey''), d)
      else (Inr s, d\<lparr>sessions := sessions d @ [s]\<rparr>))"

definition CreateSession :: "env \<Rightarrow> CreateSessionParams \<Rightarrow> Session db_op" where
  "CreateSession E arg = query E (sql_CreateSession E arg)"

definition sql_GetSession :: "uuid \<Rightarrow> Session stmt" where
  "sql_GetSession i now d = (one_row (lookup Session_ID i (sessions d)), d)"

definition GetSession :: "env \<Rightarrow> uuid \<Rightarrow> Session db_op" where
  "GetSession E i = query E (sql_GetSession i)"

section \<open>idempotency_keys\<close>

text \<open>The primary key of the table: \<open>(owner, key)\<close>.\<close>

definition key_of :: "IdempotencyKey \<Rightarrow> string \<times> string" where
  "key_of k = (IdempotencyKey_Owner k, IdempotencyKey_Key k)"

definition sql_CompleteIdempotencyKey :: "CompleteIdempotencyKeyParams \<Rightarrow> IdempotencyKey stmt" where
  "sql_CompleteIdempotencyKey arg now d =
     (let pk = (CompleteIdempotencyKeyParams_Owner arg, CompleteIdempotencyKeyParams_Key arg);
          set_body = (\<lambda>k. k\<lparr>IdempotencyKey_ResponseBody := CompleteIdempotencyKeyParams_ResponseBody arg\<rparr>) in
      case lookup key_of pk (idempotency_keys d) of
        None \<Rightarrow> (Inl ErrNoRows, d)
      | Some k \<Rightarrow>
          (Inr (set_body k),
           d\<lparr>idempotency_keys := update_where (\<lambda>r. key_of r = pk) set_body (idempotency_keys d)\<rparr>))"

definition CompleteIdempotencyKey :: "env \<Rightarrow> CompleteIdempotencyKeyParams \<Rightarrow> IdempotencyKey db_op" where
  "CompleteIdempotencyKey E arg = query E (sql_CompleteIdempotencyKey arg)"

definition sql_CreateIdempotencyKey :: "CreateIdempotencyKeyParams \<Rightarrow> IdempotencyKey stmt" where
  "sql_CreateIdempotencyKey arg now d =
     (let k = \<lparr>IdempotencyKey_Owner = CreateIdempotencyKeyParams_Owner arg,
               IdempotencyKey_Key = CreateIdempotencyKeyParams_Key arg,
               IdempotencyKey_RequestHash = CreateIdempotencyKeyParams_RequestHash arg,
               IdempotencyKey_ResponseBody = '''', IdempotencyKey_CreatedAt = now\<rparr> in
      if lookup key_of (key_of k) (idempotency_keys d) \<noteq> None then
        (Inl (unique_violation ''idempotency_keys_pkey''), d)
      else (Inr k, d\<lparr>idempotency_keys := idempotency_keys d @ [k]\<rparr>))"

definition CreateIdempotencyKey :: "env \<Rightarrow> CreateIdempotencyKeyParams \<Rightarrow> IdempotencyKey db_op" where
  "CreateIdempotencyKey E arg = query E (sql_CreateIdempotencyKey arg)"

text \<open>\<open>GetIdempotencyKeyParams\<close> is the pair of its fields \<open>Owner\<close> and \<open>Key\<close>.\<close>

type_synonym GetIdempotencyKeyParams = "string \<times> string"

definition sql_GetIdempotencyKey :: "GetIdempotencyKeyParams \<Rightarrow> IdempotencyKey stmt" where
  "sql_GetIdempotencyKey pk now d = (one_row (lookup key_of pk (idempotency_keys d)), d)"

definition GetIdempotencyKey :: "env \<Rightarrow> GetIdempotencyKeyParams \<Rightarrow> IdempotencyKey db_op" where
  "GetIdempotencyKey E pk = query E (sql_GetIdempotencyKey pk)"

end
