(* ===== verification/Schema.thy ===== *)
theory Schema
  imports Query_Identity
begin

text \<open>
  The integrity constraints of \<open>db/migration/\<close> as an invariant of the tables, and the
  proof that every statement of \<open>db/sqlc\<close> keeps it: primary keys and unique columns stay
  unique, foreign keys stay resolved, no balance becomes negative and every generated id
  lies between 1 and its sequence.
\<close>

section \<open>The constraints\<close>

definition usernames :: "database \<Rightarrow> string set" where
  "usernames d = User_Username ` set (users d)"

definition account_ids :: "database \<Rightarrow> int64 set" where
  "account_ids d = Account_ID ` set (accounts d)"

definition ids_within :: "('r \<Rightarrow> int64) \<Rightarrow> nat \<Rightarrow> 'r list \<Rightarrow> bool" where
  "ids_within key s rows \<longleftrightarrow>
     distinct (map key rows) \<and> (\<forall>r \<in> set rows. 1 \<le> sint (key r) \<and> sint (key r) \<le> int s)"

definition users_ok :: "database \<Rightarrow> bool" where
  "users_ok d \<longleftrightarrow> distinct (map User_Username (users d)) \<and> distinct (map User_Email (users d))"

definition accounts_ok :: "database \<Rightarrow> bool" where
  "accounts_ok d \<longleftrightarrow>
     ids_within Account_ID (account_seq d) (accounts d) \<and>
     distinct (map (\<lambda>a. (Account_Owner a, Account_Currency a)) (accounts d)) \<and>
     (\<forall>a \<in> set (accounts d). 0 \<le> sint (Account_Balance a) \<and> Account_Owner a \<in> usernames d)"

definition entries_ok :: "database \<Rightarrow> bool" where
  "entries_ok d \<longleftrightarrow>
     ids_within Entry_ID (entry_seq d) (entries d) \<and>
     (\<forall>e \<in> set (entries d). Entry_AccountID e \<in> account_ids d)"

definition transfers_ok :: "database \<Rightarrow> bool" where
  "transfers_ok d \<longleftrightarrow>
     ids_within Transfer_ID (transfer_seq d) (transfers d) \<and>
     (\<forall>t \<in> set (transfers d).
        Transfer_FromAccountID t \<in> account_ids d \<and> Transfer_ToAccountID t \<in> account_ids d)"

definition sessions_ok :: "database \<Rightarrow> bool" where
  "sessions_ok d \<longleftrightarrow>
     distinct (map Session_ID (sessions d)) \<and>
     (\<forall>s \<in> set (sessions d). Session_Username s \<in> usernames d)"

definition keys_ok :: "database \<Rightarrow> bool" where
  "keys_ok d \<longleftrightarrow> distinct (map key_of (idempotency_keys d))"

definition db_ok :: "database \<Rightarrow> bool" where
  "db_ok d \<longleftrightarrow> users_ok d \<and> accounts_ok d \<and> entries_ok d \<and> transfers_ok d \<and>
     sessions_ok d \<and> keys_ok d"

lemmas ok_defs = db_ok_def users_ok_def accounts_ok_def entries_ok_def transfers_ok_def
  sessions_ok_def keys_ok_def ids_within_def usernames_def account_ids_def

lemma db_ok_empty: "db_ok empty_db"
  by (simp add: ok_defs empty_db_def)

lemma ids_within_snoc:
  assumes "ids_within key s rows" and "nextval s = Inr (key r, s')"
  shows "ids_within key s' (rows @ [r])"
proof -
  from nextval_InrD [OF assms(2)] have *: "sint (key r) = int s + 1" "s' = s + 1" by auto
  have "key r \<notin> key ` set rows"
  proof
    assume "key r \<in> key ` set rows"
    with assms(1) have "sint (key r) \<le> int s" by (auto simp: ids_within_def)
    with * show False by simp
  qed
  with assms(1) * show ?thesis by (auto simp: ids_within_def)
qed

lemma ids_within_mono: "ids_within key s rows \<Longrightarrow> s \<le> s' \<Longrightarrow> ids_within key s' rows"
  by (fastforce simp: ids_within_def)

lemma ids_within_fresh:
  "ids_within key s rows \<Longrightarrow> nextval s = Inr (i, s') \<Longrightarrow> lookup key i rows = None"
  by (auto simp: ids_within_def lookup_None_iff dest!: nextval_InrD)

lemma ids_within_update:
  "ids_within key s rows \<Longrightarrow> (\<And>r. key (f r) = key r) \<Longrightarrow> ids_within key s (update_where p f rows)"
  by (auto simp: ids_within_def map_update_where set_update_where split: if_splits)

text \<open>Consuming a sequence value touches no row.\<close>

lemma db_ok_seq [simp]:
  "db_ok d \<Longrightarrow> account_seq d \<le> s \<Longrightarrow> db_ok (d\<lparr>account_seq := s\<rparr>)"
  "db_ok d \<Longrightarrow> entry_seq d \<le> s \<Longrightarrow> db_ok (d\<lparr>entry_seq := s\<rparr>)"
  "db_ok d \<Longrightarrow> transfer_seq d \<le> s \<Longrightarrow> db_ok (d\<lparr>transfer_seq := s\<rparr>)"
  by (auto simp: db_ok_def users_ok_def accounts_ok_def entries_ok_def transfers_ok_def
      sessions_ok_def keys_ok_def usernames_def account_ids_def intro: ids_within_mono)

section \<open>Every statement keeps the constraints\<close>

lemma usernames_update:
  "(\<And>u. User_Username (f u) = User_Username u) \<Longrightarrow>
   usernames (d\<lparr>users := update_where p f (users d)\<rparr>) = usernames d"
  by (simp add: usernames_def map_update_where flip: set_map)

lemma account_ids_update:
  "(\<And>a. Account_ID (f a) = Account_ID a) \<Longrightarrow>
   account_ids (d\<lparr>accounts := update_where p f (accounts d)\<rparr>) = account_ids d"
  by (simp add: account_ids_def map_update_where flip: set_map)

text \<open>A new balance for one account, the only change the queries make to an account row.\<close>

lemma db_ok_set_balance:
  assumes "db_ok d" and "\<And>a. a \<in> set (accounts d) \<Longrightarrow> p a \<Longrightarrow> 0 \<le> sint (Account_Balance (f a))"
    and f: "\<And>a. Account_ID (f a) = Account_ID a" "\<And>a. Account_Owner (f a) = Account_Owner a"
      "\<And>a. Account_Currency (f a) = Account_Currency a"
  shows "db_ok (d\<lparr>accounts := update_where p f (accounts d)\<rparr>)" (is "db_ok ?d")
proof -
  have "account_ids ?d = account_ids d" by (rule account_ids_update) (rule f)
  moreover have "ids_within Account_ID (account_seq d) (accounts ?d)"
    using assms(1) by (auto simp: db_ok_def accounts_ok_def f intro: ids_within_update)
  moreover have "\<forall>a \<in> set (accounts ?d). 0 \<le> sint (Account_Balance a) \<and> Account_Owner a \<in> usernames d"
    using assms by (auto simp: db_ok_def accounts_ok_def set_update_where)
  ultimately show ?thesis
    using assms(1)
    by (simp add: db_ok_def users_ok_def accounts_ok_def entries_ok_def transfers_ok_def
        sessions_ok_def keys_ok_def map_update_where usernames_def f)
qed

lemma account_unique:
  assumes "db_ok d" and "lookup Account_ID i (accounts d) = Some a"
    and "b \<in> set (accounts d)" and "Account_ID b = i"
  shows "b = a"
proof -
  from assms(1) have "inj_on Account_ID (set (accounts d))"
    by (simp add: db_ok_def accounts_ok_def ids_within_def distinct_map)
  moreover from lookup_SomeD [OF assms(2)] have "a \<in> set (accounts d)" "Account_ID a = i" by simp_all
  ultimately show ?thesis using assms(3,4) by (simp add: inj_on_def)
qed

lemma sql_AddAccountBalance_ok:
  assumes "db_ok d"
  shows "db_ok (snd (sql_AddAccountBalance arg now d))"
proof (cases "fst (sql_AddAccountBalance arg now d)")
  case (Inl e)
  then have "snd (sql_AddAccountBalance arg now d) = d"
    by (auto simp: sql_AddAccountBalance_def Let_def split: option.splits if_splits)
  with assms show ?thesis by simp
next
  case (Inr a')
  let ?i = "AddAccountBalanceParams_ID arg" and ?x = "AddAccountBalanceParams_Amount arg"
  from Inr obtain a where a: "lookup Account_ID ?i (accounts d) = Some a"
    and range: "in_int64 (sint (Account_Balance a) + sint ?x)"
      "0 \<le> sint (Account_Balance a) + sint ?x"
    and snd: "snd (sql_AddAccountBalance arg now d) =
      d\<lparr>accounts := update_where (\<lambda>r. Account_ID r = ?i) (add_to_balance ?x) (accounts d)\<rparr>"
    by (auto simp: sql_AddAccountBalance_def Let_def split: option.splits if_splits)
  have "0 \<le> sint (Account_Balance (add_to_balance ?x b))"
    if "b \<in> set (accounts d)" "Account_ID b = ?i" for b
    using account_unique [OF assms a that] range by (simp add: sint64_add)
  with assms snd show ?thesis by (simp add: db_ok_set_balance)
qed

lemma sql_UpdateAccount_ok: "db_ok d \<Longrightarrow> db_ok (snd (sql_UpdateAccount arg now d))"
  by (auto simp: sql_UpdateAccount_def intro!: db_ok_set_balance split: option.splits)

lemma db_ok_add_account:
  assumes "db_ok d" and "nextval (account_seq d) = Inr (Account_ID a, s)"
    and "0 \<le> sint (Account_Balance a)" and "Account_Owner a \<in> usernames d"
    and "\<not> (\<exists>r \<in> set (accounts d). Account_Owner r = Account_Owner a \<and>
               Account_Currency r = Account_Currency a)"
  shows "db_ok (d\<lparr>account_seq := s, accounts := accounts d @ [a]\<rparr>)"
proof -
  from assms(1,2) have "ids_within Account_ID s (accounts d @ [a])"
    by (auto simp: db_ok_def accounts_ok_def intro: ids_within_snoc)
  with assms show ?thesis
    by (auto simp: db_ok_def users_ok_def accounts_ok_def entries_ok_def transfers_ok_def
        sessions_ok_def keys_ok_def usernames_def account_ids_def)
qed

lemma sql_CreateAccount_ok: "db_ok d \<Longrightarrow> db_ok (snd (sql_CreateAccount arg now d))"
  by (auto simp: sql_CreateAccount_def Let_def lookup_None_iff usernames_def
      intro!: db_ok_add_account dest: nextval_InrD split: sum.splits)

lemma db_ok_drop_account:
  assumes "db_ok d" and "\<forall>e \<in> set (entries d). Entry_AccountID e \<noteq> i"
    and "\<forall>t \<in> set (transfers d). Transfer_FromAccountID t \<noteq> i \<and> Transfer_ToAccountID t \<noteq> i"
  shows "db_ok (d\<lparr>accounts := filter (\<lambda>a. Account_ID a \<noteq> i) (accounts d)\<rparr>)" (is "db_ok ?d")
proof -
  have ids: "account_ids ?d = account_ids d - {i}" by (auto simp: account_ids_def)
  show ?thesis
    using assms
    unfolding db_ok_def users_ok_def accounts_ok_def entries_ok_def transfers_ok_def
      sessions_ok_def keys_ok_def ids
    by (auto simp: usernames_def ids_within_def distinct_map_filter)
qed

lemma sql_DeleteAccount_ok: "db_ok d \<Longrightarrow> db_ok (snd (sql_DeleteAccount i now d))"
  by (auto simp: sql_DeleteAccount_def intro!: db_ok_drop_account)

lemma db_ok_add_entry:
  assumes "db_ok d" and "nextval (entry_seq d) = Inr (Entry_ID e, s)"
    and "Entry_AccountID e \<in> account_ids d"
  shows "db_ok (d\<lparr>entry_seq := s, entries := entries d @ [e]\<rparr>)"
proof -
  from assms(1,2) have "ids_within Entry_ID s (entries d @ [e])"
    by (auto simp: db_ok_def entries_ok_def intro: ids_within_snoc)
  with assms show ?thesis
    by (auto simp: db_ok_def users_ok_def accounts_ok_def entries_ok_def transfers_ok_def
        sessions_ok_def keys_ok_def usernames_def account_ids_def)
qed

lemma sql_CreateEntry_ok: "db_ok d \<Longrightarrow> db_ok (snd (sql_CreateEntry arg now d))"
  by (auto simp: sql_CreateEntry_def Let_def lookup_None_iff account_ids_def
      intro!: db_ok_add_entry dest: nextval_InrD split: sum.splits)

lemma db_ok_add_transfer:
  assumes "db_ok d" and "nextval (transfer_seq d) = Inr (Transfer_ID t, s)"
    and "Transfer_FromAccountID t \<in> account_ids d" and "Transfer_ToAccountID t \<in> account_ids d"
  shows "db_ok (d\<lparr>transfer_seq := s, transfers := transfers d @ [t]\<rparr>)"
proof -
  from assms(1,2) have "ids_within Transfer_ID s (transfers d @ [t])"
    by (auto simp: db_ok_def transfers_ok_def intro: ids_within_snoc)
  with assms show ?thesis
    by (auto simp: db_ok_def users_ok_def accounts_ok_def entries_ok_def transfers_ok_def
        sessions_ok_def keys_ok_def usernames_def account_ids_def)
qed

lemma sql_CreateTransfer_ok: "db_ok d \<Longrightarrow> db_ok (snd (sql_CreateTransfer arg now d))"
  by (auto simp: sql_CreateTransfer_def Let_def lookup_None_iff account_ids_def
      intro!: db_ok_add_transfer dest: nextval_InrD split: sum.splits)

lemma sql_CreateUser_ok: "db_ok d \<Longrightarrow> db_ok (snd (sql_CreateUser arg now d))"
  by (auto simp: sql_CreateUser_def Let_def lookup_None_iff ok_defs)

lemma distinct_update_where:
  assumes "distinct (map v rows)" and "distinct (map key rows)"
    and "\<And>r. r \<in> set rows \<Longrightarrow> key r \<noteq> k \<Longrightarrow> v r \<noteq> v (f old)" and "old \<in> set rows" and "key old = k"
  shows "distinct (map v (update_where (\<lambda>r. key r = k) f rows))"
  using assms
proof (induction rows)
  case Nil
  then show ?case by simp
next
  case (Cons r rows)
  show ?case
  proof (cases "key r = k")
    case True
    with Cons.prems have "old = r" "k \<notin> key ` set rows" by (auto simp: rev_image_eqI)
    then have "update_where (\<lambda>r. key r = k) f rows = rows"
      by (simp add: update_where_absent lookup_None_iff)
    moreover have "v (f r) \<notin> v ` set rows"
    proof
      assume "v (f r) \<in> v ` set rows"
      then obtain x where x: "x \<in> set rows" "v x = v (f r)" by auto
      with \<open>k \<notin> key ` set rows\<close> have "key x \<noteq> k" by auto
      with x Cons.prems(3) [of x] \<open>old = r\<close> show False by simp
    qed
    ultimately show ?thesis using True Cons.prems(1) by simp
  next
    case False
    with Cons.prems have "old \<in> set rows" by auto
    moreover have "v r \<notin> v ` set (update_where (\<lambda>r. key r = k) f rows)"
    proof
      assume "v r \<in> v ` set (update_where (\<lambda>r. key r = k) f rows)"
      then obtain x where x: "x \<in> set rows" "v r = v (if key x = k then f x else x)"
        by (auto simp: set_update_where)
      show False
      proof (cases "key x = k")
        case True
        with x Cons.prems \<open>old \<in> set rows\<close> have "x = old"
          by (metis distinct.simps(2) distinct_map inj_onD list.simps(9))
        with x True False Cons.prems(3) [of r] show False by simp
      next
        case False
        with x Cons.prems(1) show False by auto
      qed
    qed
    ultimately show ?thesis using False Cons by simp
  qed
qed

lemma sql_UpdateUser_ok:
  assumes "db_ok d"
  shows "db_ok (snd (sql_UpdateUser E arg now d))"
proof (cases "fst (sql_UpdateUser E arg now d)")
  case (Inl e)
  then have "snd (sql_UpdateUser E arg now d) = d"
    by (auto simp: sql_UpdateUser_def split: option.splits if_splits)
  with assms show ?thesis by simp
next
  case (Inr u')
  let ?k = "UpdateUserParams_Username arg"
  let ?d = "d\<lparr>users := update_where (\<lambda>r. User_Username r = ?k) (set_user E arg) (users d)\<rparr>"
  from Inr obtain u where u: "lookup User_Username ?k (users d) = Some u"
    and snd: "snd (sql_UpdateUser E arg now d) = ?d"
    and email: "\<forall>r \<in> set (users d). User_Username r \<noteq> User_Username u \<longrightarrow>
                  User_Email r \<noteq> User_Email (set_user E arg u)"
    by (auto simp: sql_UpdateUser_def split: option.splits if_splits)
  have names: "usernames ?d = usernames d"
    by (rule usernames_update) (simp add: set_user_def)
  have "distinct (map User_Email (users ?d))"
    using assms email lookup_SomeD [OF u]
    by (auto simp: db_ok_def users_ok_def intro!: distinct_update_where [where old = u])
  moreover have "map User_Username (users ?d) = map User_Username (users d)"
    by (simp add: map_update_where set_user_def)
  ultimately have "db_ok ?d"
    using assms
    unfolding db_ok_def users_ok_def accounts_ok_def entries_ok_def transfers_ok_def
      sessions_ok_def keys_ok_def account_ids_def names by simp
  with snd show ?thesis by simp
qed

lemma db_ok_block: "db_ok d \<Longrightarrow> db_ok (d\<lparr>sessions := update_where p block (sessions d)\<rparr>)"
  by (auto simp: ok_defs map_update_where set_update_where split: if_splits)

lemma sql_BlockSession_ok: "db_ok d \<Longrightarrow> db_ok (snd (sql_BlockSession i now d))"
  by (auto simp: sql_BlockSession_def db_ok_block split: option.splits)

lemma sql_BlockUserSessions_ok: "db_ok d \<Longrightarrow> db_ok (snd (sql_BlockUserSessions u now d))"
  by (simp add: sql_BlockUserSessions_def db_ok_block)

lemma sql_CreateSession_ok: "db_ok d \<Longrightarrow> db_ok (snd (sql_CreateSession E arg now d))"
  by (auto simp: sql_CreateSession_def Let_def lookup_None_iff ok_defs)

lemma sql_CreateIdempotencyKey_ok: "db_ok d \<Longrightarrow> db_ok (snd (sql_CreateIdempotencyKey arg now d))"
  by (auto simp: sql_CreateIdempotencyKey_def Let_def lookup_None_iff ok_defs)

lemma sql_CompleteIdempotencyKey_ok: "db_ok d \<Longrightarrow> db_ok (snd (sql_CompleteIdempotencyKey arg now d))"
  by (auto simp: sql_CompleteIdempotencyKey_def Let_def ok_defs map_update_where key_of_def
      split: option.splits)

text \<open>The queries that only read.\<close>

lemma read_only_statements:
  "snd (sql_GetAccount i now d) = d" "snd (sql_GetAccountForUpdate i now d) = d"
  "snd (sql_ListAccounts la now d) = d" "snd (sql_GetEntry i now d) = d"
  "snd (sql_ListEntries le now d) = d" "snd (sql_GetTransfer i now d) = d"
  "snd (sql_ListTransfers lt now d) = d" "snd (sql_GetUser u now d) = d"
  "snd (sql_GetSession ui now d) = d" "snd (sql_GetIdempotencyKey pk now d) = d"
  by (simp_all add: sql_GetAccount_def sql_GetAccountForUpdate_def sql_ListAccounts_def
      sql_GetEntry_def sql_ListEntries_def sql_GetTransfer_def sql_ListTransfers_def
      sql_GetUser_def sql_GetSession_def sql_GetIdempotencyKey_def)

section \<open>The constraints as a relation between the tables before and after\<close>

text \<open>Sequences never go back, not even in a rollback.\<close>

definition seq_le :: "database \<Rightarrow> database \<Rightarrow> bool" where
  "seq_le d d' \<longleftrightarrow> account_seq d \<le> account_seq d' \<and> entry_seq d \<le> entry_seq d' \<and>
     transfer_seq d \<le> transfer_seq d'"

definition ok_kept :: "database \<Rightarrow> database \<Rightarrow> bool" where
  "ok_kept d d' \<longleftrightarrow> seq_le d d' \<and> (db_ok d \<longrightarrow> db_ok d')"

interpretation ok: db_relation ok_kept
  by unfold_locales (auto simp: ok_kept_def seq_le_def)

lemma insert_seq_le:
  "seq_le d (snd (sql_CreateAccount ca now d))" "seq_le d (snd (sql_CreateEntry ce now d))"
  "seq_le d (snd (sql_CreateTransfer ct now d))"
  by (auto simp: seq_le_def sql_CreateAccount_def sql_CreateEntry_def sql_CreateTransfer_def
      Let_def dest: nextval_InrD split: sum.splits)

lemma other_seq_le:
  "seq_le d (snd (sql_AddAccountBalance aa now d))" "seq_le d (snd (sql_UpdateAccount ua now d))"
  "seq_le d (snd (sql_DeleteAccount i now d))" "seq_le d (snd (sql_CreateUser cu now d))"
  "seq_le d (snd (sql_UpdateUser E uu now d))" "seq_le d (snd (sql_BlockSession ui now d))"
  "seq_le d (snd (sql_BlockUserSessions u now d))" "seq_le d (snd (sql_CreateSession E cs now d))"
  "seq_le d (snd (sql_CreateIdempotencyKey ck now d))"
  "seq_le d (snd (sql_CompleteIdempotencyKey ci now d))"
  by (auto simp: seq_le_def Let_def sql_AddAccountBalance_def sql_UpdateAccount_def
      sql_DeleteAccount_def sql_CreateUser_def sql_UpdateUser_def sql_BlockSession_def
      sql_BlockUserSessions_def sql_CreateSession_def sql_CreateIdempotencyKey_def
      sql_CompleteIdempotencyKey_def split: option.splits)

lemmas statements_ok =
  sql_AddAccountBalance_ok sql_UpdateAccount_ok sql_DeleteAccount_ok sql_CreateAccount_ok
  sql_CreateEntry_ok sql_CreateTransfer_ok sql_CreateUser_ok sql_UpdateUser_ok
  sql_BlockSession_ok sql_BlockUserSessions_ok sql_CreateSession_ok
  sql_CreateIdempotencyKey_ok sql_CompleteIdempotencyKey_ok

text \<open>Every method of the \<open>Querier\<close> interface keeps the constraints.\<close>

lemma queries_ok [run_intros]:
  "always (on_db ok_kept) (AddAccountBalance E aa)" "always (on_db ok_kept) (UpdateAccount E ua)"
  "always (on_db ok_kept) (DeleteAccount E i)" "always (on_db ok_kept) (CreateAccount E ca)"
  "always (on_db ok_kept) (CreateEntry E ce)" "always (on_db ok_kept) (CreateTransfer E ct)"
  "always (on_db ok_kept) (CreateUser E cu)" "always (on_db ok_kept) (UpdateUser E uu)"
  "always (on_db ok_kept) (BlockSession E ui)" "always (on_db ok_kept) (BlockUserSessions E u)"
  "always (on_db ok_kept) (CreateSession E cs)" "always (on_db ok_kept) (CreateIdempotencyKey E ck)"
  "always (on_db ok_kept) (CompleteIdempotencyKey E ci)"
  unfolding AddAccountBalance_def UpdateAccount_def DeleteAccount_def CreateAccount_def
    CreateEntry_def CreateTransfer_def CreateUser_def UpdateUser_def BlockSession_def
    BlockUserSessions_def CreateSession_def CreateIdempotencyKey_def CompleteIdempotencyKey_def
  by (rule ok.query_rel; simp add: ok_kept_def insert_seq_le other_seq_le statements_ok)+

text \<open>The queries that only read keep every reflexive relation.\<close>

context db_relation
begin

lemma read_only_rel:
  "always (on_db Q) (GetAccount E i)" "always (on_db Q) (GetAccountForUpdate E i)"
  "always (on_db Q) (ListAccounts E la)" "always (on_db Q) (GetEntry E i)"
  "always (on_db Q) (ListEntries E le)" "always (on_db Q) (GetTransfer E i)"
  "always (on_db Q) (ListTransfers E lt)" "always (on_db Q) (GetUser E u)"
  "always (on_db Q) (GetSession E ui)" "always (on_db Q) (GetIdempotencyKey E pk)"
  unfolding GetAccount_def GetAccountForUpdate_def ListAccounts_def GetEntry_def ListEntries_def
    GetTransfer_def ListTransfers_def GetUser_def GetSession_def GetIdempotencyKey_def
  by (rule query_rel; simp add: read_only_statements Q_refl)+

end

end
