(* ===== verification/Store.thy ===== *)
theory Store
  imports Schema
begin

text \<open>
  \<open>db/sqlc/store.go\<close>: transactions, \<open>TransferTx\<close> and \<open>IdempotentTransferTx\<close>. A
  transaction runs on the tables in place and keeps the tables of its start for a
  rollback. The lemmas give the atomicity of \<open>execTx\<close> under every pattern of network
  failures, what a successful transfer does to the tables, and the conservation laws.
\<close>

section \<open>Transactions\<close>

text \<open>A rollback restores every row; sequences do not roll back.\<close>

definition rollback_to :: "database \<Rightarrow> database \<Rightarrow> database" where
  "rollback_to d0 d = d0\<lparr>account_seq := account_seq d, entry_seq := entry_seq d,
     transfer_seq := transfer_seq d\<rparr>"

definition BeginTx :: "env \<Rightarrow> unit db_op" where
  "BeginTx E = State (\<lambda>w. case net E (tick w) of
       NoFault \<Rightarrow> (Inr (), w\<lparr>tick := Suc (tick w), tx_start := Some (db_clock E (tick w))\<rparr>)
     | FaultBefore m \<Rightarrow> (Inl (OtherErr m), w\<lparr>tick := Suc (tick w)\<rparr>)
     | FaultAfter m \<Rightarrow> (Inl (OtherErr m), w\<lparr>tick := Suc (tick w)\<rparr>))"

text \<open>A transaction whose connection is lost before it commits is rolled back by the server.\<close>

definition Rollback :: "env \<Rightarrow> database \<Rightarrow> unit db_op" where
  "Rollback E d0 = State (\<lambda>w.
     let w' = w\<lparr>db := rollback_to d0 (db w), tick := Suc (tick w), tx_start := None\<rparr> in
     case net E (tick w) of
       NoFault \<Rightarrow> (Inr (), w')
     | FaultBefore m \<Rightarrow> (Inl (OtherErr m), w')
     | FaultAfter m \<Rightarrow> (Inl (OtherErr m), w'))"

definition Commit :: "env \<Rightarrow> database \<Rightarrow> unit db_op" where
  "Commit E d0 = State (\<lambda>w.
     let w' = w\<lparr>tick := Suc (tick w), tx_start := None\<rparr> in
     case net E (tick w) of
       NoFault \<Rightarrow> (Inr (), w')
     | FaultBefore m \<Rightarrow> (Inl (OtherErr m), w'\<lparr>db := rollback_to d0 (db w)\<rparr>)
     | FaultAfter m \<Rightarrow> (Inl (OtherErr m), w'))"

definition execTx :: "env \<Rightarrow> 'a db_op \<Rightarrow> 'a db_op" where
  "execTx E fn = do {
     w0 \<leftarrow> State_Monad.get;
     tx \<leftarrow> BeginTx E;
     case tx of
       Inl err \<Rightarrow> ret (Inl err)
     | Inr _ \<Rightarrow> do {
         r \<leftarrow> fn;
         case r of
           Inl err \<Rightarrow> do {
             rb \<leftarrow> Rollback E (db w0);
             case rb of
               Inl rbErr \<Rightarrow> ret (Inl (TxErr err rbErr))
             | Inr _ \<Rightarrow> ret (Inl err)
           }
         | Inr x \<Rightarrow> do {
             c \<leftarrow> Commit E (db w0);
             case c of
               Inl err \<Rightarrow> ret (Inl err)
             | Inr _ \<Rightarrow> ret (Inr x)
           }
       }
   }"

definition Ping :: "env \<Rightarrow> unit db_op" where
  "Ping E = query E (\<lambda>now d. (Inr (), d))"

section \<open>Transfers\<close>

definition addMoney ::
    "env \<Rightarrow> int64 \<Rightarrow> int64 \<Rightarrow> int64 \<Rightarrow> int64 \<Rightarrow> (Account \<times> Account) db_op" where
  "addMoney E accountID1 amount1 accountID2 amount2 =
     try_do (AddAccountBalance E
         \<lparr>AddAccountBalanceParams_Amount = amount1, AddAccountBalanceParams_ID = accountID1\<rparr>)
       (\<lambda>account1.
     try_do (AddAccountBalance E
         \<lparr>AddAccountBalanceParams_Amount = amount2, AddAccountBalanceParams_ID = accountID2\<rparr>)
       (\<lambda>account2. ret (Inr (account1, account2))))"

definition transferTx :: "env \<Rightarrow> TransferTxParams \<Rightarrow> TransferTxResult db_op" where
  "transferTx E arg =
     (let from_id = TransferTxParams_FromAccountID arg; to_id = TransferTxParams_ToAccountID arg;
          amount = TransferTxParams_Amount arg in
      try_do (CreateTransfer E arg) (\<lambda>transfer.
      try_do (CreateEntry E
          \<lparr>CreateEntryParams_AccountID = from_id, CreateEntryParams_Amount = - amount\<rparr>)
        (\<lambda>fromEntry.
      try_do (CreateEntry E
          \<lparr>CreateEntryParams_AccountID = to_id, CreateEntryParams_Amount = amount\<rparr>)
        (\<lambda>toEntry.
      if sint from_id < sint to_id then
        try_do (addMoney E from_id (- amount) to_id amount) (\<lambda>(fromAccount, toAccount).
          ret (Inr \<lparr>TransferTxResult_Transfer = transfer, TransferTxResult_FromEntry = fromEntry,
                    TransferTxResult_ToEntry = toEntry, TransferTxResult_FromAccount = fromAccount,
                    TransferTxResult_ToAccount = toAccount\<rparr>))
      else
        try_do (addMoney E to_id amount from_id (- amount)) (\<lambda>(toAccount, fromAccount).
          ret (Inr \<lparr>TransferTxResult_Transfer = transfer, TransferTxResult_FromEntry = fromEntry,
                    TransferTxResult_ToEntry = toEntry, TransferTxResult_FromAccount = fromAccount,
                    TransferTxResult_ToAccount = toAccount\<rparr>))))))"

definition TransferTx :: "env \<Rightarrow> TransferTxParams \<Rightarrow> TransferTxResult db_op" where
  "TransferTx E arg = execTx E (transferTx E arg)"

text \<open>The function \<open>IdempotentTransferTx\<close> runs in its transaction: the claim comes first.\<close>

definition claimAndTransfer :: "env \<Rightarrow> IdempotentTransferTxParams \<Rightarrow> TransferTxResult db_op" where
  "claimAndTransfer E arg =
     try_do (CreateIdempotencyKey E
         \<lparr>CreateIdempotencyKeyParams_Owner = IdempotentTransferTxParams_Owner arg,
          CreateIdempotencyKeyParams_Key = IdempotentTransferTxParams_Key arg,
          CreateIdempotencyKeyParams_RequestHash = IdempotentTransferTxParams_RequestHash arg\<rparr>)
       (\<lambda>_.
     try_do (transferTx E (IdempotentTransferTxParams_TransferTxParams arg)) (\<lambda>result.
     case json_Marshal E result of
       Inl err \<Rightarrow> ret (Inl err)
     | Inr body \<Rightarrow>
         try_do (CompleteIdempotencyKey E
             \<lparr>CompleteIdempotencyKeyParams_Owner = IdempotentTransferTxParams_Owner arg,
              CompleteIdempotencyKeyParams_Key = IdempotentTransferTxParams_Key arg,
              CompleteIdempotencyKeyParams_ResponseBody = body\<rparr>)
           (\<lambda>_. ret (Inr result))))"

definition IdempotentTransferTx ::
    "env \<Rightarrow> IdempotentTransferTxParams \<Rightarrow> TransferTxResult db_op" where
  "IdempotentTransferTx E arg = execTx E (claimAndTransfer E arg)"

section \<open>Atomicity\<close>

text \<open>The world in which the function of a transaction starts.\<close>

definition in_tx :: "env \<Rightarrow> world \<Rightarrow> world" where
  "in_tx E w = w\<lparr>tick := Suc (tick w), tx_start := Some (db_clock E (tick w))\<rparr>"

lemma in_tx_db [simp]: "db (in_tx E w) = db w"
  by (simp add: in_tx_def)

definition same_tables :: "database \<Rightarrow> database \<Rightarrow> bool" where
  "same_tables d d' \<longleftrightarrow> rollback_to d d' = d'"

lemma same_tables_iff:
  "same_tables d d' \<longleftrightarrow> users d' = users d \<and> accounts d' = accounts d \<and> entries d' = entries d \<and>
     transfers d' = transfers d \<and> sessions d' = sessions d \<and>
     idempotency_keys d' = idempotency_keys d"
  by (cases d; cases d') (auto simp: same_tables_def rollback_to_def)

lemma same_tables_rollback [simp]: "same_tables d (rollback_to d d')"
  by (simp add: same_tables_iff rollback_to_def)

lemma same_tables_refl [simp]: "same_tables d d"
  by (simp add: same_tables_iff)

lemma run_execTx:
  "run (execTx E fn) w =
    (case net E (tick w) of
       NoFault \<Rightarrow>
         (case run fn (in_tx E w) of
            (Inl err, w1) \<Rightarrow>
              (case run (Rollback E (db w)) w1 of
                 (Inl rb, w2) \<Rightarrow> (Inl (TxErr err rb), w2)
               | (Inr _, w2) \<Rightarrow> (Inl err, w2))
          | (Inr x, w1) \<Rightarrow>
              (case run (Commit E (db w)) w1 of
                 (Inl err, w2) \<Rightarrow> (Inl err, w2)
               | (Inr _, w2) \<Rightarrow> (Inr x, w2)))
     | FaultBefore m \<Rightarrow> (Inl (OtherErr m), w\<lparr>tick := Suc (tick w)\<rparr>)
     | FaultAfter m \<Rightarrow> (Inl (OtherErr m), w\<lparr>tick := Suc (tick w)\<rparr>))"
  by (auto simp: execTx_def BeginTx_def in_tx_def split: fault.splits prod.splits sum.splits)

lemma execTx_InrD:
  assumes "run (execTx E fn) w = (Inr x, w')"
  obtains w1 where "run fn (in_tx E w) = (Inr x, w1)" "db w' = db w1" "tx_start w' = None"
  using assms
  by (fastforce simp: run_execTx Commit_def Rollback_def Let_def
      split: fault.splits prod.splits sum.splits)

text \<open>
  A transaction that returns an error left the tables as they were, unless its commit was
  executed and only the answer to the commit was lost.
\<close>

lemma execTx_InlE:
  assumes "run (execTx E fn) w = (Inl e, w')"
  obtains (not_begun) "db w' = db w"
  | (rolled_back) r w1 where "run fn (in_tx E w) = (r, w1)" "db w' = rollback_to (db w) (db w1)"
  | (lost) x w1 m where "run fn (in_tx E w) = (Inr x, w1)" "db w' = db w1"
      "net E (tick w1) = FaultAfter m" "e = OtherErr m"
  using assms
  by (fastforce simp: run_execTx Commit_def Rollback_def Let_def
      split: fault.splits prod.splits sum.splits)

lemma execTx_InlD:
  assumes "run (execTx E fn) w = (Inl e, w')"
  shows "same_tables (db w) (db w') \<or> (\<exists>x w1 m. run fn (in_tx E w) = (Inr x, w1) \<and>
    db w' = db w1 \<and> net E (tick w1) = FaultAfter m \<and> e = OtherErr m)"
  using assms by (cases rule: execTx_InlE) auto

text \<open>
  A relation that holds for the successful runs of the function and for the rollback of any
  run holds for the transaction.
\<close>

lemma execTx_rel:
  assumes "\<And>w x w1. run fn w = (Inr x, w1) \<Longrightarrow> Q (db w) (db w1)"
    and "\<And>w r w1. run fn w = (r, w1) \<Longrightarrow> Q (db w) (rollback_to (db w) (db w1))"
    and "\<And>d. Q d d"
  shows "always (on_db Q) (execTx E fn)"
proof (rule alwaysI)
  fix w r w'
  assume run: "run (execTx E fn) w = (r, w')"
  have tx: "db (in_tx E w) = db w" by (simp add: in_tx_def)
  show "on_db Q w w'"
  proof (cases r)
    case (Inr x)
    with run obtain w1 where "run fn (in_tx E w) = (Inr x, w1)" "db w' = db w1"
      by (blast elim: execTx_InrD)
    with assms(1) [of "in_tx E w"] tx show ?thesis by (simp add: on_db_def)
  next
    case (Inl e)
    with run have "run (execTx E fn) w = (Inl e, w')" by simp
    then show ?thesis
      by (cases rule: execTx_InlE)
        (use assms(1) [of "in_tx E w"] assms(2) [of "in_tx E w"] assms(3) tx
          in \<open>auto simp: on_db_def\<close>)
  qed
qed

section \<open>Constraints\<close>

lemma ok_kept_rollback:
  assumes "seq_le d d'" shows "ok_kept d (rollback_to d d')"
  using assms by (auto simp: ok_kept_def seq_le_def rollback_to_def)

lemma execTx_ok:
  assumes "always (on_db ok_kept) fn"
  shows "always (on_db ok_kept) (execTx E fn)"
proof (rule execTx_rel)
  fix w r w1
  assume "run fn w = (r, w1)"
  from alwaysD [OF assms this] have "ok_kept (db w) (db w1)" by (simp add: on_db_def)
  then show "ok_kept (db w) (db w1)" and "ok_kept (db w) (rollback_to (db w) (db w1))"
    by (simp_all add: ok_kept_rollback ok_kept_def [of "db w" "db w1"])
qed (rule ok.Q_refl)

lemma transferTx_ok: "always (on_db ok_kept) (transferTx E arg)"
  unfolding transferTx_def addMoney_def Let_def
  by (intro ok.always_intros run_intros)

lemma TransferTx_ok: "always (on_db ok_kept) (TransferTx E arg)"
  unfolding TransferTx_def by (intro execTx_ok transferTx_ok)

lemma claimAndTransfer_ok: "always (on_db ok_kept) (claimAndTransfer E arg)"
  unfolding claimAndTransfer_def
  by (intro ok.always_intros transferTx_ok run_intros)

lemma IdempotentTransferTx_ok: "always (on_db ok_kept) (IdempotentTransferTx E arg)"
  unfolding IdempotentTransferTx_def by (intro execTx_ok claimAndTransfer_ok)

section \<open>Properties\<close>

text \<open>
  C20: Whatever the network does, a transaction is all or nothing: if \<open>execTx\<close> reports
  success, the tables are those its function left; if it reports an error, no row has
  changed, except when only the answer to an executed commit was lost.
\<close>

theorem execTx_atomic:
  "case run (execTx E fn) w of
     (Inr x, w') \<Rightarrow> \<exists>w1. run fn (in_tx E w) = (Inr x, w1) \<and> db w' = db w1
   | (Inl e, w') \<Rightarrow> same_tables (db w) (db w') \<or>
       (\<exists>x w1 m. run fn (in_tx E w) = (Inr x, w1) \<and> db w' = db w1 \<and>
          net E (tick w1) = FaultAfter m \<and> e = OtherErr m)"
  by (auto split: prod.splits sum.splits dest: execTx_InlD elim: execTx_InrD)

text \<open>
  When the function of a transaction fails, the caller gets that error if the rollback
  is answered; otherwise the error is wrapped into a text, so that a \<open>*pq.Error\<close> is no
  longer recognisable and the handlers answer 500 where they would have answered 400 or 403.
\<close>

theorem execTx_error:
  assumes "net E (tick w) = NoFault" and "run fn (in_tx E w) = (Inl e, w1)"
  shows "fst (run (execTx E fn) w) =
    (case net E (tick w1) of NoFault \<Rightarrow> Inl e
     | FaultBefore m \<Rightarrow> Inl (TxErr e (OtherErr m)) | FaultAfter m \<Rightarrow> Inl (TxErr e (OtherErr m)))"
  using assms by (simp add: run_execTx Rollback_def Let_def split: fault.splits)

theorem execTx_error_witness:
  "fst (run (execTx example_env (ret (Inl ErrNoRows) :: unit db_op)) example_world) = Inl ErrNoRows"
  using execTx_error [of example_env example_world "ret (Inl ErrNoRows) :: unit db_op" ErrNoRows]
  by simp

end
