(* ===== verification/Ledger.thy ===== *)
theory Ledger
  imports Store
begin

text \<open>
  What transfers do to the money. The measures of a database are the total of all balances,
  the balance of one account, the sum of the entries of one account and their difference,
  the drift. A committed transfer moves exactly the amount, appends one transfer and two
  entries, and keeps the total and every drift; everything else keeps them too.
\<close>

section \<open>Measures\<close>

definition total_balance :: "database \<Rightarrow> int" where
  "total_balance d = (\<Sum>a\<leftarrow>accounts d. sint (Account_Balance a))"

definition balance_of :: "int64 \<Rightarrow> database \<Rightarrow> int" where
  "balance_of i d =
     (case lookup Account_ID i (accounts d) of None \<Rightarrow> 0 | Some a \<Rightarrow> sint (Account_Balance a))"

definition entry_sum :: "int64 \<Rightarrow> database \<Rightarrow> int" where
  "entry_sum i d = (\<Sum>e\<leftarrow>entries d. if Entry_AccountID e = i then sint (Entry_Amount e) else 0)"

definition entry_total :: "database \<Rightarrow> int" where
  "entry_total d = (\<Sum>e\<leftarrow>entries d. sint (Entry_Amount e))"

definition drift :: "int64 \<Rightarrow> database \<Rightarrow> int" where
  "drift i d = balance_of i d - entry_sum i d"

section \<open>Effects of the statements of a transfer\<close>

lemma sql_CreateTransfer_InrD:
  assumes "sql_CreateTransfer arg now d = (Inr t, d')"
  shows "\<exists>s. nextval (transfer_seq d) = Inr (Transfer_ID t, s) \<and>
    d' = d\<lparr>transfer_seq := s, transfers := transfers d @ [t]\<rparr>"
    and "Transfer_FromAccountID t = TransferTxParams_FromAccountID arg"
    and "Transfer_ToAccountID t = TransferTxParams_ToAccountID arg"
    and "Transfer_Amount t = TransferTxParams_Amount arg"
    and "Transfer_CreatedAt t = now"
    and "lookup Account_ID (TransferTxParams_FromAccountID arg) (accounts d) \<noteq> None"
    and "lookup Account_ID (TransferTxParams_ToAccountID arg) (accounts d) \<noteq> None"
  using assms by (auto simp: sql_CreateTransfer_def Let_def split: sum.splits if_splits)

lemma sql_CreateEntry_InrD:
  assumes "sql_CreateEntry arg now d = (Inr e, d')"
  shows "\<exists>s. nextval (entry_seq d) = Inr (Entry_ID e, s) \<and>
    d' = d\<lparr>entry_seq := s, entries := entries d @ [e]\<rparr>"
    and "Entry_AccountID e = CreateEntryParams_AccountID arg"
    and "Entry_Amount e = CreateEntryParams_Amount arg"
    and "Entry_CreatedAt e = now"
  using assms by (auto simp: sql_CreateEntry_def Let_def split: sum.splits if_splits)

abbreviation credit :: "int64 \<Rightarrow> int64 \<Rightarrow> Account list \<Rightarrow> Account list" where
  "credit i x rows \<equiv> update_where (\<lambda>r. Account_ID r = i) (add_to_balance x) rows"

lemma credit_commute: "credit i x (credit j y rows) = credit j y (credit i x rows)"
  by (induction rows) (auto simp: add_to_balance_def add_ac)

lemma sql_AddAccountBalance_InrD:
  assumes "sql_AddAccountBalance arg now d = (Inr a', d')"
  obtains a where "lookup Account_ID (AddAccountBalanceParams_ID arg) (accounts d) = Some a"
    "a' = add_to_balance (AddAccountBalanceParams_Amount arg) a"
    "sint (Account_Balance a') = sint (Account_Balance a) + sint (AddAccountBalanceParams_Amount arg)"
    "0 \<le> sint (Account_Balance a')"
    "d' = d\<lparr>accounts := credit (AddAccountBalanceParams_ID arg) (AddAccountBalanceParams_Amount arg)
       (accounts d)\<rparr>"
  using assms
  by (auto simp: sql_AddAccountBalance_def Let_def sint64_add split: option.splits if_splits)

lemma sql_AddAccountBalance_total:
  assumes "db_ok d" and "sql_AddAccountBalance arg now d = (Inr a', d')"
  shows "total_balance d' = total_balance d + sint (AddAccountBalanceParams_Amount arg)"
  using assms(2)
proof (rule sql_AddAccountBalance_InrD)
  fix a
  assume a: "lookup Account_ID (AddAccountBalanceParams_ID arg) (accounts d) = Some a"
    "a' = add_to_balance (AddAccountBalanceParams_Amount arg) a"
    "sint (Account_Balance a') = sint (Account_Balance a) + sint (AddAccountBalanceParams_Amount arg)"
    "d' = d\<lparr>accounts := credit (AddAccountBalanceParams_ID arg) (AddAccountBalanceParams_Amount arg)
       (accounts d)\<rparr>"
  have "distinct (map Account_ID (accounts d))"
    using assms(1) by (simp add: db_ok_def accounts_ok_def ids_within_def)
  from sum_update_where [OF this a(1), of "\<lambda>a. sint (Account_Balance a)"
      "add_to_balance (AddAccountBalanceParams_Amount arg)"] a
  show ?thesis by (simp add: total_balance_def)
qed

lemma sql_AddAccountBalance_balance_of:
  assumes "sql_AddAccountBalance arg now d = (Inr a', d')"
  shows "balance_of i d' = balance_of i d +
    (if i = AddAccountBalanceParams_ID arg then sint (AddAccountBalanceParams_Amount arg) else 0)"
  using assms
proof (rule sql_AddAccountBalance_InrD)
  fix a
  assume a: "lookup Account_ID (AddAccountBalanceParams_ID arg) (accounts d) = Some a"
    "a' = add_to_balance (AddAccountBalanceParams_Amount arg) a"
    "sint (Account_Balance a') = sint (Account_Balance a) + sint (AddAccountBalanceParams_Amount arg)"
    "d' = d\<lparr>accounts := credit (AddAccountBalanceParams_ID arg) (AddAccountBalanceParams_Amount arg)
       (accounts d)\<rparr>"
  then show ?thesis by (auto simp: balance_of_def lookup_update_where)
qed

section \<open>What a successful transfer leaves behind\<close>

text \<open>
  The five statements of a successful \<open>transferTx\<close> in the order the code issues them. The
  two balance updates come in the order of the account ids.
\<close>

definition balance_stmt :: "int64 \<Rightarrow> int64 \<Rightarrow> Account stmt" where
  "balance_stmt i x = sql_AddAccountBalance
     \<lparr>AddAccountBalanceParams_Amount = x, AddAccountBalanceParams_ID = i\<rparr>"

definition entry_stmt :: "int64 \<Rightarrow> int64 \<Rightarrow> Entry stmt" where
  "entry_stmt i x =
     sql_CreateEntry \<lparr>CreateEntryParams_AccountID = i, CreateEntryParams_Amount = x\<rparr>"

definition moved :: "TransferTxParams \<Rightarrow> TransferTxResult \<Rightarrow> database \<Rightarrow> database \<Rightarrow> bool" where
  "moved arg r d d' \<longleftrightarrow>
     (let f = TransferTxParams_FromAccountID arg; t = TransferTxParams_ToAccountID arg;
          x = TransferTxParams_Amount arg in
      \<exists>n m d1.
        sint f < sint t \<and>
          balance_stmt f (- x) n d = (Inr (TransferTxResult_FromAccount r), d1) \<and>
          balance_stmt t x m d1 = (Inr (TransferTxResult_ToAccount r), d') \<or>
        sint t \<le> sint f \<and>
          balance_stmt t x n d = (Inr (TransferTxResult_ToAccount r), d1) \<and>
          balance_stmt f (- x) m d1 = (Inr (TransferTxResult_FromAccount r), d'))"

lemma transferTx_InrE:
  assumes "run (transferTx E arg) w = (Inr r, w')"
  obtains n1 d1 n2 d2 n3 d3 where
    "sql_CreateTransfer arg n1 (db w) = (Inr (TransferTxResult_Transfer r), d1)"
    "entry_stmt (TransferTxParams_FromAccountID arg) (- TransferTxParams_Amount arg) n2 d1
      = (Inr (TransferTxResult_FromEntry r), d2)"
    "entry_stmt (TransferTxParams_ToAccountID arg) (TransferTxParams_Amount arg) n3 d2
      = (Inr (TransferTxResult_ToEntry r), d3)"
    "moved arg r d3 (db w')"
proof -
  have split: "(if c then run a w1 else run b w1) = x \<longleftrightarrow> c \<and> run a w1 = x \<or> \<not> c \<and> run b w1 = x"
    for c and a b :: "TransferTxResult db_op" and w1 x by auto
  show thesis
    using assms
    by (simp add: transferTx_def addMoney_def Let_def run_try_do_Inr if_distrib [of run]
        if_distribR split CreateTransfer_def CreateEntry_def AddAccountBalance_def not_less
        split: prod.splits)
      (fastforce simp: moved_def balance_stmt_def entry_stmt_def Let_def
        dest!: query_InrD intro: that)
qed

lemma entry_stmt_InrD:
  assumes "entry_stmt i x now d = (Inr e, d')"
  shows "\<exists>s. nextval (entry_seq d) = Inr (Entry_ID e, s) \<and>
      d' = d\<lparr>entry_seq := s, entries := entries d @ [e]\<rparr>"
    and "Entry_AccountID e = i" and "Entry_Amount e = x"
    and "db_ok d \<Longrightarrow> db_ok d'"
  using sql_CreateEntry_InrD [OF assms [unfolded entry_stmt_def]]
    sql_CreateEntry_ok [of d "\<lparr>CreateEntryParams_AccountID = i, CreateEntryParams_Amount = x\<rparr>" now]
    assms
  by (auto simp: entry_stmt_def)

lemma balance_stmt_InrE:
  assumes "balance_stmt i x now d = (Inr a', d')"
  obtains a where "lookup Account_ID i (accounts d) = Some a" "a' = add_to_balance x a"
    "sint (Account_Balance a') = sint (Account_Balance a) + sint x" "0 \<le> sint (Account_Balance a')"
    "d' = d\<lparr>accounts := credit i x (accounts d)\<rparr>"
  using assms by (auto simp: balance_stmt_def elim!: sql_AddAccountBalance_InrD)

lemma balance_stmt_ok:
  assumes "balance_stmt i x now d = (Inr a', d')" and "db_ok d"
  shows "db_ok d' \<and> total_balance d' = total_balance d + sint x"
proof -
  note s = assms(1) [unfolded balance_stmt_def]
  show ?thesis
    using sql_AddAccountBalance_ok [OF assms(2), of _ now] sql_AddAccountBalance_total [OF assms(2) s] s
    by (metis AddAccountBalanceParams.select_convs(1) snd_conv)
qed

lemma balance_stmt_balance_of:
  "balance_stmt i x now d = (Inr a', d') \<Longrightarrow>
   balance_of j d' = balance_of j d + (if j = i then sint x else 0)"
  using sql_AddAccountBalance_balance_of [of _ now d a' d' j] by (fastforce simp: balance_stmt_def)

lemma moved_accounts:
  assumes "moved arg r d d'"
  shows "d' = d\<lparr>accounts := credit (TransferTxParams_ToAccountID arg) (TransferTxParams_Amount arg)
    (credit (TransferTxParams_FromAccountID arg) (- TransferTxParams_Amount arg) (accounts d))\<rparr>"
  using assms by (auto simp: moved_def Let_def credit_commute elim!: balance_stmt_InrE)

text \<open>
  The smallest \<open>int64\<close> is its own negation, so it would be taken from both accounts; no
  balance is large enough for that, and the balance check refuses it.
\<close>

lemma balance_stmt_amount:
  assumes "balance_stmt i x now d = (Inr a', d')"
  shows "sint (- x) = - sint x"
  using assms
proof (rule balance_stmt_InrE)
  fix a
  assume "sint (Account_Balance a') = sint (Account_Balance a) + sint x" "0 \<le> sint (Account_Balance a')"
  then have "sint x \<noteq> min_int64" using sint64_bounds(2) [of "Account_Balance a"] by linarith
  then show ?thesis by (rule sint64_minus)
qed

lemma moved_amount:
  "moved arg r d d' \<Longrightarrow> sint (- TransferTxParams_Amount arg) = - sint (TransferTxParams_Amount arg)"
  by (auto simp: moved_def Let_def dest: balance_stmt_amount)

lemma moved_ok:
  assumes "moved arg r d d'" and "db_ok d"
  shows "db_ok d' \<and> total_balance d' = total_balance d"
  using assms(1) moved_amount [OF assms(1)] assms(2)
  by (auto simp: moved_def Let_def dest!: balance_stmt_ok)

lemma moved_balance_of:
  assumes "moved arg r d d'"
  shows "balance_of j d' = balance_of j d
      - (if j = TransferTxParams_FromAccountID arg then sint (TransferTxParams_Amount arg) else 0)
      + (if j = TransferTxParams_ToAccountID arg then sint (TransferTxParams_Amount arg) else 0)"
  using assms moved_amount [OF assms]
  by (auto simp: moved_def Let_def dest!: balance_stmt_balance_of [where j = j])

text \<open>
  The same as one effect on the tables: the rows of \<open>arg\<close>'s two accounts change by the
  amount, one transfer and two entries are appended, and nothing else changes.
\<close>

definition transferred :: "TransferTxParams \<Rightarrow> TransferTxResult \<Rightarrow> database \<Rightarrow> database \<Rightarrow> bool" where
  "transferred arg r d d' \<longleftrightarrow>
     (let f = TransferTxParams_FromAccountID arg; t = TransferTxParams_ToAccountID arg;
          x = TransferTxParams_Amount arg in
      accounts d' = credit t x (credit f (- x) (accounts d)) \<and>
      transfers d' = transfers d @ [TransferTxResult_Transfer r] \<and>
      entries d' = entries d @ [TransferTxResult_FromEntry r, TransferTxResult_ToEntry r] \<and>
      users d' = users d \<and> sessions d' = sessions d \<and> idempotency_keys d' = idempotency_keys d \<and>
      Transfer_FromAccountID (TransferTxResult_Transfer r) = f \<and>
      Transfer_ToAccountID (TransferTxResult_Transfer r) = t \<and>
      Transfer_Amount (TransferTxResult_Transfer r) = x \<and>
      Entry_AccountID (TransferTxResult_FromEntry r) = f \<and>
      Entry_Amount (TransferTxResult_FromEntry r) = - x \<and>
      Entry_AccountID (TransferTxResult_ToEntry r) = t \<and>
      Entry_Amount (TransferTxResult_ToEntry r) = x)"

lemma transferTx_transferred:
  assumes "run (transferTx E arg) w = (Inr r, w')"
  shows "transferred arg r (db w) (db w')"
  using assms
proof (rule transferTx_InrE)
  fix n1 d1 n2 d2 n3 d3
  assume 1: "sql_CreateTransfer arg n1 (db w) = (Inr (TransferTxResult_Transfer r), d1)"
    and 2: "entry_stmt (TransferTxParams_FromAccountID arg) (- TransferTxParams_Amount arg) n2 d1
      = (Inr (TransferTxResult_FromEntry r), d2)"
    and 3: "entry_stmt (TransferTxParams_ToAccountID arg) (TransferTxParams_Amount arg) n3 d2
      = (Inr (TransferTxResult_ToEntry r), d3)"
    and 4: "moved arg r d3 (db w')"
  from sql_CreateTransfer_InrD [OF 1] entry_stmt_InrD(1-3) [OF 2] entry_stmt_InrD(1-3) [OF 3]
    moved_accounts [OF 4]
  show ?thesis by (auto simp: transferred_def Let_def)
qed

lemma transferred_entries:
  assumes "transferred arg r d d'"
  shows "entry_sum j d' = entry_sum j d
      + (if j = TransferTxParams_FromAccountID arg then sint (- TransferTxParams_Amount arg) else 0)
      + (if j = TransferTxParams_ToAccountID arg then sint (TransferTxParams_Amount arg) else 0)"
    and "entry_total d' = entry_total d
      + sint (- TransferTxParams_Amount arg) + sint (TransferTxParams_Amount arg)"
  using assms by (auto simp: transferred_def Let_def entry_sum_def entry_total_def)

section \<open>Conservation\<close>

text \<open>The relations between the tables before and after that transfers keep.\<close>

definition money_kept :: "database \<Rightarrow> database \<Rightarrow> bool" where
  "money_kept d d' \<longleftrightarrow> (db_ok d \<longrightarrow> db_ok d' \<and> total_balance d' = total_balance d)"

definition ledger_kept :: "database \<Rightarrow> database \<Rightarrow> bool" where
  "ledger_kept d d' \<longleftrightarrow> (\<forall>j. drift j d' = drift j d) \<and> entry_total d' = entry_total d"

interpretation money: db_relation money_kept
  by unfold_locales (auto simp: money_kept_def)

interpretation ledger: db_relation ledger_kept
  by unfold_locales (auto simp: ledger_kept_def)

lemma same_tables_kept:
  assumes "same_tables d d'" shows "ledger_kept d d'"
  using assms
  by (simp add: same_tables_iff ledger_kept_def drift_def balance_of_def entry_sum_def entry_total_def)

lemma transferTx_kept:
  assumes "run (transferTx E arg) w = (Inr r, w')"
  shows "money_kept (db w) (db w') \<and> ledger_kept (db w) (db w')"
  using assms
proof (rule transferTx_InrE)
  fix n1 d1 n2 d2 n3 d3
  assume 1: "sql_CreateTransfer arg n1 (db w) = (Inr (TransferTxResult_Transfer r), d1)"
    and 2: "entry_stmt (TransferTxParams_FromAccountID arg) (- TransferTxParams_Amount arg) n2 d1
      = (Inr (TransferTxResult_FromEntry r), d2)"
    and 3: "entry_stmt (TransferTxParams_ToAccountID arg) (TransferTxParams_Amount arg) n3 d2
      = (Inr (TransferTxResult_ToEntry r), d3)"
    and 4: "moved arg r d3 (db w')"
  have acc: "accounts d3 = accounts (db w)"
    using sql_CreateTransfer_InrD(1) [OF 1] entry_stmt_InrD(1) [OF 2] entry_stmt_InrD(1) [OF 3] by auto
  have "db_ok d3" if "db_ok (db w)"
    using sql_CreateTransfer_ok [OF that, of arg n1] 1 entry_stmt_InrD(4) [OF 2] entry_stmt_InrD(4) [OF 3]
    by simp
  with moved_ok [OF 4] acc have "money_kept (db w) (db w')"
    by (auto simp: money_kept_def total_balance_def)
  moreover have "ledger_kept (db w) (db w')"
    using transferred_entries [OF transferTx_transferred [OF assms]] moved_balance_of [OF 4]
      moved_amount [OF 4] acc
    by (simp add: ledger_kept_def drift_def balance_of_def)
  ultimately show ?thesis ..
qed

text \<open>What a successful idempotent transfer does: it claims a fresh key and stores the response.\<close>

definition idem_params_key :: "IdempotentTransferTxParams \<Rightarrow> string \<times> string" where
  "idem_params_key arg = (IdempotentTransferTxParams_Owner arg, IdempotentTransferTxParams_Key arg)"

definition claim_row :: "IdempotentTransferTxParams \<Rightarrow> string \<Rightarrow> time \<Rightarrow> IdempotencyKey" where
  "claim_row arg body now =
     \<lparr>IdempotencyKey_Owner = IdempotentTransferTxParams_Owner arg,
      IdempotencyKey_Key = IdempotentTransferTxParams_Key arg,
      IdempotencyKey_RequestHash = IdempotentTransferTxParams_RequestHash arg,
      IdempotencyKey_ResponseBody = body, IdempotencyKey_CreatedAt = now\<rparr>"

lemma claim_row_simps [simp]:
  "key_of (claim_row arg body now) = idem_params_key arg"
  "IdempotencyKey_RequestHash (claim_row arg body now) = IdempotentTransferTxParams_RequestHash arg"
  "IdempotencyKey_ResponseBody (claim_row arg body now) = body"
  "(claim_row arg body now)\<lparr>IdempotencyKey_ResponseBody := body'\<rparr> = claim_row arg body' now"
  by (simp_all add: claim_row_def key_of_def idem_params_key_def)

definition claimed :: "env \<Rightarrow> IdempotentTransferTxParams \<Rightarrow> TransferTxResult \<Rightarrow>
    database \<Rightarrow> database \<Rightarrow> bool" where
  "claimed E arg r d d' \<longleftrightarrow>
     lookup key_of (idem_params_key arg) (idempotency_keys d) = None \<and>
     (\<exists>body now. json_Marshal E r = Inr body \<and>
        idempotency_keys d' = idempotency_keys d @ [claim_row arg body now]) \<and>
     transferred (IdempotentTransferTxParams_TransferTxParams arg) r d
       (d'\<lparr>idempotency_keys := idempotency_keys d\<rparr>)"

lemma claimAndTransfer_InrE:
  assumes "run (claimAndTransfer E arg) w = (Inr r, w')"
  obtains now w1 w2 body where
    "lookup key_of (idem_params_key arg) (idempotency_keys (db w)) = None"
    "db w1 = (db w)\<lparr>idempotency_keys := idempotency_keys (db w) @ [claim_row arg '''' now]\<rparr>"
    "db_ok (db w) \<longrightarrow> db_ok (db w1)"
    "run (transferTx E (IdempotentTransferTxParams_TransferTxParams arg)) w1 = (Inr r, w2)"
    "json_Marshal E r = Inr body"
    "db w' = (db w2)\<lparr>idempotency_keys := update_where (\<lambda>r. key_of r = idem_params_key arg)
        (\<lambda>k. k\<lparr>IdempotencyKey_ResponseBody := body\<rparr>) (idempotency_keys (db w2))\<rparr>"
proof -
  let ?claim = "\<lparr>CreateIdempotencyKeyParams_Owner = IdempotentTransferTxParams_Owner arg,
      CreateIdempotencyKeyParams_Key = IdempotentTransferTxParams_Key arg,
      CreateIdempotencyKeyParams_RequestHash = IdempotentTransferTxParams_RequestHash arg\<rparr>"
  let ?done = "\<lambda>body. \<lparr>CompleteIdempotencyKeyParams_Owner = IdempotentTransferTxParams_Owner arg,
      CompleteIdempotencyKeyParams_Key = IdempotentTransferTxParams_Key arg,
      CompleteIdempotencyKeyParams_ResponseBody = body\<rparr>"
  from assms obtain k w1 x w2 where
    claim: "run (CreateIdempotencyKey E ?claim) w = (Inr k, w1)" and
    transfer: "run (transferTx E (IdempotentTransferTxParams_TransferTxParams arg)) w1 = (Inr x, w2)" and
    rest: "run (case json_Marshal E x of Inl err \<Rightarrow> ret (Inl err) | Inr body \<Rightarrow>
      try_do (CompleteIdempotencyKey E (?done body)) (\<lambda>_. ret (Inr x))) w2 = (Inr r, w')"
    by (auto simp: claimAndTransfer_def run_try_do_Inr)
  from rest obtain body k' where body: "json_Marshal E r = Inr body" "x = r" and
    complete: "run (CompleteIdempotencyKey E (?done body)) w2 = (Inr k', w')"
    by (cases "json_Marshal E x") (auto simp: run_try_do_Inr)
  from claim have
    "lookup key_of (idem_params_key arg) (idempotency_keys (db w)) = None"
    "db w1 = (db w)\<lparr>idempotency_keys :=
        idempotency_keys (db w) @ [claim_row arg '''' (server_now E w)]\<rparr>"
    by (auto simp: CreateIdempotencyKey_def sql_CreateIdempotencyKey_def Let_def key_of_def
        idem_params_key_def claim_row_def dest!: query_InrD split: if_splits)
  moreover from alwaysD [OF queries_ok(12) claim] have "db_ok (db w) \<longrightarrow> db_ok (db w1)"
    by (simp add: on_db_def ok_kept_def)
  moreover from complete have "db w' = (db w2)\<lparr>idempotency_keys :=
      update_where (\<lambda>r. key_of r = idem_params_key arg)
        (\<lambda>k. k\<lparr>IdempotencyKey_ResponseBody := body\<rparr>) (idempotency_keys (db w2))\<rparr>"
    by (auto simp: CompleteIdempotencyKey_def sql_CompleteIdempotencyKey_def Let_def
        idem_params_key_def dest!: query_InrD split: option.splits)
  ultimately show thesis using transfer body that by blast
qed

lemma claimAndTransfer_claimed:
  assumes "run (claimAndTransfer E arg) w = (Inr r, w')"
  shows "claimed E arg r (db w) (db w')"
  using assms
proof (rule claimAndTransfer_InrE)
  fix now w1 w2 body
  assume fresh: "lookup key_of (idem_params_key arg) (idempotency_keys (db w)) = None"
    and w1: "db w1 = (db w)\<lparr>idempotency_keys := idempotency_keys (db w) @ [claim_row arg '''' now]\<rparr>"
    and t: "run (transferTx E (IdempotentTransferTxParams_TransferTxParams arg)) w1 = (Inr r, w2)"
    and body: "json_Marshal E r = Inr body"
    and w': "db w' = (db w2)\<lparr>idempotency_keys := update_where (\<lambda>r. key_of r = idem_params_key arg)
        (\<lambda>k. k\<lparr>IdempotencyKey_ResponseBody := body\<rparr>) (idempotency_keys (db w2))\<rparr>"
  from transferTx_transferred [OF t]
  have "transferred (IdempotentTransferTxParams_TransferTxParams arg) r (db w)
      ((db w')\<lparr>idempotency_keys := idempotency_keys (db w)\<rparr>)"
    and "idempotency_keys (db w2) = idempotency_keys (db w1)"
    using w1 w' by (auto simp: transferred_def Let_def)
  with fresh body w1 w' show ?thesis
    by (auto simp: claimed_def update_where_append update_where_absent)
qed

lemma claimAndTransfer_kept:
  assumes "run (claimAndTransfer E arg) w = (Inr r, w')"
  shows "(db_ok (db w) \<longrightarrow> total_balance (db w') = total_balance (db w)) \<and>
    ledger_kept (db w) (db w')"
  using assms
proof (rule claimAndTransfer_InrE)
  fix now w1 w2 body
  assume "db w1 = (db w)\<lparr>idempotency_keys := idempotency_keys (db w) @ [claim_row arg '''' now]\<rparr>"
    and "db_ok (db w) \<longrightarrow> db_ok (db w1)"
    and t: "run (transferTx E (IdempotentTransferTxParams_TransferTxParams arg)) w1 = (Inr r, w2)"
    and "db w' = (db w2)\<lparr>idempotency_keys := update_where (\<lambda>r. key_of r = idem_params_key arg)
        (\<lambda>k. k\<lparr>IdempotencyKey_ResponseBody := body\<rparr>) (idempotency_keys (db w2))\<rparr>"
  with transferTx_kept [OF t] show ?thesis
    by (auto simp: money_kept_def ledger_kept_def total_balance_def drift_def balance_of_def
        entry_sum_def entry_total_def)
qed

text \<open>Every transfer operation keeps the total and the ledger, however its transaction ends.\<close>

lemma execTx_money:
  assumes "always (on_db ok_kept) fn"
    and "\<And>w x w1. run fn w = (Inr x, w1) \<Longrightarrow> db_ok (db w) \<Longrightarrow> total_balance (db w1) = total_balance (db w)"
  shows "always (on_db money_kept) (execTx E fn)"
proof (rule execTx_rel)
  fix w x w1
  assume run: "run fn w = (Inr x, w1)"
  from alwaysD [OF assms(1) this] assms(2) [OF run] show "money_kept (db w) (db w1)"
    by (simp add: money_kept_def ok_kept_def on_db_def)
next
  fix w r w1
  assume "run fn w = (r, w1)"
  from alwaysD [OF assms(1) this] have "ok_kept (db w) (rollback_to (db w) (db w1))"
    by (intro ok_kept_rollback) (simp add: on_db_def ok_kept_def)
  then show "money_kept (db w) (rollback_to (db w) (db w1))"
    by (simp add: money_kept_def ok_kept_def total_balance_def rollback_to_def)
qed (rule money.Q_refl)

lemma execTx_ledger:
  assumes "\<And>w x w1. run fn w = (Inr x, w1) \<Longrightarrow> ledger_kept (db w) (db w1)"
  shows "always (on_db ledger_kept) (execTx E fn)"
  by (rule execTx_rel) (simp_all add: assms same_tables_kept ledger.Q_refl)

lemma TransferTx_kept:
  "always (on_db money_kept) (TransferTx E arg)" "always (on_db ledger_kept) (TransferTx E arg)"
  unfolding TransferTx_def
  using transferTx_kept by (auto intro!: execTx_money execTx_ledger transferTx_ok simp: money_kept_def)

lemma IdempotentTransferTx_kept:
  "always (on_db money_kept) (IdempotentTransferTx E arg)"
  "always (on_db ledger_kept) (IdempotentTransferTx E arg)"
  unfolding IdempotentTransferTx_def
  using claimAndTransfer_kept by (auto intro!: execTx_money execTx_ledger claimAndTransfer_ok)

end
