(* ===== verification/Transfer_Spec.thy ===== *)
theory Transfer_Spec
  imports Ledger
begin

text \<open>
  The abstract ledger: a partial map from account ids to balances, and one abstract transfer
  on it. When every round trip succeeds, \<open>TransferTx\<close> refines it: it succeeds exactly when
  the abstract transfer is defined, with the same balances, and otherwise reports the error
  of the violated constraint and changes nothing.
\<close>

section \<open>The abstract ledger\<close>

definition abs_ledger :: "database \<Rightarrow> int64 \<Rightarrow> int option" where
  "abs_ledger d i = map_option (\<lambda>a. sint (Account_Balance a)) (lookup Account_ID i (accounts d))"

definition abs_transfer ::
    "int64 \<Rightarrow> int64 \<Rightarrow> int \<Rightarrow> (int64 \<Rightarrow> int option) \<Rightarrow> (int64 \<Rightarrow> int option) option" where
  "abs_transfer f t x L =
     (case (L f, L t) of
        (Some b, Some c) \<Rightarrow>
          if 0 \<le> b - x \<and> b - x \<le> max_int64 \<and> 0 \<le> c + x \<and> c + x \<le> max_int64
          then Some (L(f \<mapsto> b - x, t \<mapsto> c + x)) else None
      | _ \<Rightarrow> None)"

lemma abs_ledger_accounts: "accounts d' = accounts d \<Longrightarrow> abs_ledger d' = abs_ledger d"
  by (auto simp: abs_ledger_def)

section \<open>The statements on a calm connection\<close>

text \<open>
  The outcome of the balance updates of a transfer, with the second one only run after the
  first.
\<close>

definition balance_error :: "int \<Rightarrow> error option" where
  "balance_error b =
     (if \<not> in_int64 b then Some (PqError ''numeric_value_out_of_range'' '''')
      else if b < 0 then Some (check_violation ''accounts_balance_non_negative'') else None)"

lemma run_balance_calm:
  assumes "net E (tick w) = NoFault" and "lookup Account_ID i (accounts (db w)) = Some a"
  shows "run (AddAccountBalance E
      \<lparr>AddAccountBalanceParams_Amount = x, AddAccountBalanceParams_ID = i\<rparr>) w =
    (case balance_error (sint (Account_Balance a) + sint x) of
       Some e \<Rightarrow> (Inl e, w\<lparr>tick := Suc (tick w)\<rparr>)
     | None \<Rightarrow> (Inr (add_to_balance x a),
         w\<lparr>db := (db w)\<lparr>accounts := credit i x (accounts (db w))\<rparr>, tick := Suc (tick w)\<rparr>))"
  using assms
  by (simp add: AddAccountBalance_def run_query_ok sql_AddAccountBalance_def balance_error_def Let_def)

lemma run_addMoney_calm:
  assumes net: "\<And>n. net E n = NoFault" and "i \<noteq> j"
    and a: "lookup Account_ID i (accounts (db w)) = Some a"
    and b: "lookup Account_ID j (accounts (db w)) = Some b"
  shows "\<exists>w'. run (addMoney E i x j y) w =
    (case balance_error (sint (Account_Balance a) + sint x) of
       Some e \<Rightarrow> Inl e
     | None \<Rightarrow> (case balance_error (sint (Account_Balance b) + sint y) of
         Some e \<Rightarrow> Inl e
       | None \<Rightarrow> Inr (add_to_balance x a, add_to_balance y b)), w') \<and>
    (balance_error (sint (Account_Balance a) + sint x) = None \<longrightarrow>
     balance_error (sint (Account_Balance b) + sint y) = None \<longrightarrow>
     db w' = (db w)\<lparr>accounts := credit j y (credit i x (accounts (db w)))\<rparr>)"
proof -
  have b': "lookup Account_ID j (credit i x (accounts (db w))) = Some b"
    using b \<open>i \<noteq> j\<close> by (simp add: lookup_update_where)
  show ?thesis
    using a b'
    by (auto simp: addMoney_def run_try_do run_balance_calm net split: option.splits prod.splits sum.splits)
qed

lemma nextval_ok: "int s < max_int64 \<Longrightarrow> nextval s = Inr (word_of_int (int s + 1), s + 1)"
  by (simp only: nextval_def if_True)

lemma run_CreateTransfer_calm:
  assumes net: "\<And>n. net E n = NoFault" and ok: "db_ok (db w)"
    and "int (transfer_seq (db w)) < max_int64"
  shows "\<exists>t w'. run (CreateTransfer E arg) w =
      (if lookup Account_ID (TransferTxParams_FromAccountID arg) (accounts (db w)) = None then
         Inl (foreign_key_violation ''transfers_from_account_id_fkey'')
       else if lookup Account_ID (TransferTxParams_ToAccountID arg) (accounts (db w)) = None then
         Inl (foreign_key_violation ''transfers_to_account_id_fkey'')
       else Inr t, w') \<and>
    db_ok (db w') \<and> accounts (db w') = accounts (db w) \<and> entry_seq (db w') = entry_seq (db w)"
proof -
  note nv = nextval_ok [OF assms(3)]
  from ok nv have fresh: "lookup Transfer_ID (word_of_int (int (transfer_seq (db w)) + 1)) (transfers (db w)) = None"
    by (auto simp: db_ok_def transfers_ok_def intro: ids_within_fresh)
  have "db_ok (snd (sql_CreateTransfer arg (server_now E w) (db w)))"
    using ok by (rule sql_CreateTransfer_ok)
  moreover have "accounts (snd (sql_CreateTransfer arg n d)) = accounts d \<and>
      entry_seq (snd (sql_CreateTransfer arg n d)) = entry_seq d" for n d
    by (auto simp: sql_CreateTransfer_def Let_def split: sum.splits)
  ultimately show ?thesis
    using fresh
    by (auto simp: CreateTransfer_def run_query net, auto simp: sql_CreateTransfer_def nv Let_def)
qed

lemma run_CreateEntry_calm:
  assumes net: "\<And>n. net E n = NoFault" and ok: "db_ok (db w)"
    and "int (entry_seq (db w)) < max_int64" and "lookup Account_ID i (accounts (db w)) \<noteq> None"
  shows "\<exists>e w'. run (CreateEntry E \<lparr>CreateEntryParams_AccountID = i, CreateEntryParams_Amount = x\<rparr>) w =
      (Inr e, w') \<and>
    db_ok (db w') \<and> accounts (db w') = accounts (db w) \<and> entry_seq (db w') = Suc (entry_seq (db w))"
proof -
  let ?arg = "\<lparr>CreateEntryParams_AccountID = i, CreateEntryParams_Amount = x\<rparr>"
  note nv = nextval_ok [OF assms(3)]
  from ok nv have fresh: "lookup Entry_ID (word_of_int (int (entry_seq (db w)) + 1)) (entries (db w)) = None"
    by (auto simp: db_ok_def entries_ok_def intro: ids_within_fresh)
  have "db_ok (snd (sql_CreateEntry ?arg (server_now E w) (db w)))"
    using ok by (rule sql_CreateEntry_ok)
  moreover obtain e where "sql_CreateEntry ?arg (server_now E w) (db w) =
      (Inr e, (db w)\<lparr>entry_seq := Suc (entry_seq (db w)), entries := entries (db w) @ [e]\<rparr>)"
    using fresh assms(4) by (auto simp: sql_CreateEntry_def nv Let_def)
  ultimately show ?thesis by (auto simp: CreateEntry_def run_query net)
qed

text \<open>The first violated check of the two updates, in the order of the account ids.\<close>

definition update_error :: "TransferTxParams \<Rightarrow> Account \<Rightarrow> Account \<Rightarrow> error option" where
  "update_error arg a b =
     (let x = TransferTxParams_Amount arg;
          ef = balance_error (sint (Account_Balance a) + sint (- x));
          et = balance_error (sint (Account_Balance b) + sint x) in
      if sint (TransferTxParams_FromAccountID arg) < sint (TransferTxParams_ToAccountID arg)
      then (case ef of Some e \<Rightarrow> Some e | None \<Rightarrow> et)
      else (case et of Some e \<Rightarrow> Some e | None \<Rightarrow> ef))"

definition transfer_error :: "TransferTxParams \<Rightarrow> database \<Rightarrow> error option" where
  "transfer_error arg d =
     (case (lookup Account_ID (TransferTxParams_FromAccountID arg) (accounts d),
            lookup Account_ID (TransferTxParams_ToAccountID arg) (accounts d)) of
        (None, _) \<Rightarrow> Some (foreign_key_violation ''transfers_from_account_id_fkey'')
      | (Some a, None) \<Rightarrow> Some (foreign_key_violation ''transfers_to_account_id_fkey'')
      | (Some a, Some b) \<Rightarrow> update_error arg a b)"

lemma run_transferTx_calm:
  assumes net: "\<And>n. net E n = NoFault" and ok: "db_ok (db w)"
    and ts: "int (transfer_seq (db w)) < max_int64" and es: "int (entry_seq (db w)) + 1 < max_int64"
    and ne: "TransferTxParams_FromAccountID arg \<noteq> TransferTxParams_ToAccountID arg"
  shows "\<exists>r w'. run (transferTx E arg) w =
    (case transfer_error arg (db w) of Some e \<Rightarrow> Inl e | None \<Rightarrow> Inr r, w')"
proof -
  let ?f = "TransferTxParams_FromAccountID arg" and ?t = "TransferTxParams_ToAccountID arg"
    and ?x = "TransferTxParams_Amount arg"
  obtain tr w1 where c: "run (CreateTransfer E arg) w =
      (if lookup Account_ID ?f (accounts (db w)) = None then
         Inl (foreign_key_violation ''transfers_from_account_id_fkey'')
       else if lookup Account_ID ?t (accounts (db w)) = None then
         Inl (foreign_key_violation ''transfers_to_account_id_fkey'')
       else Inr tr, w1)"
    and w1: "db_ok (db w1)" "accounts (db w1) = accounts (db w)" "entry_seq (db w1) = entry_seq (db w)"
    using run_CreateTransfer_calm [OF net ok ts] by blast
  show ?thesis
  proof (cases "lookup Account_ID ?f (accounts (db w)) = None \<or> lookup Account_ID ?t (accounts (db w)) = None")
    case True
    then show ?thesis
      by (auto simp: transferTx_def Let_def run_try_do c transfer_error_def split: option.splits)
  next
    case False
    then obtain a b where a: "lookup Account_ID ?f (accounts (db w)) = Some a"
      and b: "lookup Account_ID ?t (accounts (db w)) = Some b" by auto
    obtain e1 w2 where e1: "run (CreateEntry E
        \<lparr>CreateEntryParams_AccountID = ?f, CreateEntryParams_Amount = - ?x\<rparr>) w1 = (Inr e1, w2)"
      and w2: "db_ok (db w2)" "accounts (db w2) = accounts (db w)"
        "entry_seq (db w2) = Suc (entry_seq (db w))"
      using run_CreateEntry_calm [OF net w1(1), of ?f "- ?x"] w1 es a by auto
    obtain e2 w3 where e2: "run (CreateEntry E
        \<lparr>CreateEntryParams_AccountID = ?t, CreateEntryParams_Amount = ?x\<rparr>) w2 = (Inr e2, w3)"
      and w3: "accounts (db w3) = accounts (db w)"
      using run_CreateEntry_calm [OF net w2(1), of ?t ?x] w2 es b by auto
    from a b w3 have a3: "lookup Account_ID ?f (accounts (db w3)) = Some a"
      and b3: "lookup Account_ID ?t (accounts (db w3)) = Some b" by simp_all
    show ?thesis
      using run_addMoney_calm [OF net ne a3 b3, of "- ?x" ?x]
        run_addMoney_calm [OF net ne [symmetric] b3 a3, of ?x "- ?x"] a b
      by (auto simp: transferTx_def Let_def run_try_do c e1 e2 transfer_error_def update_error_def
          split: option.splits)
  qed
qed

section \<open>Refinement\<close>

lemma minus_in_range:
  fixes x :: int64
  assumes "0 \<le> b" and "b \<le> max_int64"
  shows "balance_error (b + sint (- x)) = None \<longleftrightarrow> 0 \<le> b - sint x \<and> b - sint x \<le> max_int64"
proof (cases "sint x = min_int64")
  case True
  then have "sint (- x) = min_int64" by (simp add: sint64_minus_min)
  with True assms show ?thesis by (simp add: balance_error_def in_int64_def)
next
  case False
  with assms show ?thesis by (auto simp: sint64_minus balance_error_def in_int64_def)
qed

lemma update_error_None:
  "update_error arg a b = None \<longleftrightarrow>
     balance_error (sint (Account_Balance a) + sint (- TransferTxParams_Amount arg)) = None \<and>
     balance_error (sint (Account_Balance b) + sint (TransferTxParams_Amount arg)) = None"
  by (auto simp: update_error_def Let_def split: option.splits if_splits)

lemma transfer_error_abs:
  assumes "db_ok d"
  shows "transfer_error arg d = None \<longleftrightarrow>
    abs_transfer (TransferTxParams_FromAccountID arg) (TransferTxParams_ToAccountID arg)
      (sint (TransferTxParams_Amount arg)) (abs_ledger d) \<noteq> None"
proof (cases "lookup Account_ID (TransferTxParams_FromAccountID arg) (accounts d) = None \<or>
    lookup Account_ID (TransferTxParams_ToAccountID arg) (accounts d) = None")
  case True
  then show ?thesis
    by (auto simp: transfer_error_def abs_transfer_def abs_ledger_def split: option.splits)
next
  case False
  then obtain a b where ab:
    "lookup Account_ID (TransferTxParams_FromAccountID arg) (accounts d) = Some a"
    "lookup Account_ID (TransferTxParams_ToAccountID arg) (accounts d) = Some b" by auto
  with assms have "0 \<le> sint (Account_Balance a)"
    by (auto simp: db_ok_def accounts_ok_def dest: lookup_SomeD)
  then have "balance_error (sint (Account_Balance a) + sint (- TransferTxParams_Amount arg)) = None
      \<longleftrightarrow> 0 \<le> sint (Account_Balance a) - sint (TransferTxParams_Amount arg) \<and>
        sint (Account_Balance a) - sint (TransferTxParams_Amount arg) \<le> max_int64"
    by (rule minus_in_range) simp
  moreover have "balance_error (sint (Account_Balance b) + sint (TransferTxParams_Amount arg)) = None
      \<longleftrightarrow> 0 \<le> sint (Account_Balance b) + sint (TransferTxParams_Amount arg) \<and>
        sint (Account_Balance b) + sint (TransferTxParams_Amount arg) \<le> max_int64"
    by (auto simp: balance_error_def in_int64_def)
  ultimately show ?thesis
    using ab by (simp add: transfer_error_def update_error_None abs_transfer_def abs_ledger_def)
qed

section \<open>What a successful transfer did\<close>

text \<open>The two account rows a successful transfer between different accounts returns.\<close>

lemma moved_rows:
  assumes "moved arg r d d'"
    and ne: "TransferTxParams_FromAccountID arg \<noteq> TransferTxParams_ToAccountID arg"
  obtains a b where
    "lookup Account_ID (TransferTxParams_FromAccountID arg) (accounts d) = Some a"
    "lookup Account_ID (TransferTxParams_ToAccountID arg) (accounts d) = Some b"
    "TransferTxResult_FromAccount r = add_to_balance (- TransferTxParams_Amount arg) a"
    "TransferTxResult_ToAccount r = add_to_balance (TransferTxParams_Amount arg) b"
    "balance_error (sint (Account_Balance a) + sint (- TransferTxParams_Amount arg)) = None"
    "balance_error (sint (Account_Balance b) + sint (TransferTxParams_Amount arg)) = None"
proof -
  have step: "\<exists>a. lookup Account_ID i (accounts d) = Some a \<and> a' = add_to_balance x a \<and>
      balance_error (sint (Account_Balance a) + sint x) = None \<and>
      d' = d\<lparr>accounts := credit i x (accounts d)\<rparr>"
    if "balance_stmt i x n d = (Inr a', d')" for i x n a' d d'
    using that by (auto simp: balance_stmt_def sql_AddAccountBalance_def balance_error_def Let_def
        split: option.splits if_splits)
  from assms(1) consider n m d1 where
      "balance_stmt (TransferTxParams_FromAccountID arg) (- TransferTxParams_Amount arg) n d
         = (Inr (TransferTxResult_FromAccount r), d1)"
      "balance_stmt (TransferTxParams_ToAccountID arg) (TransferTxParams_Amount arg) m d1
         = (Inr (TransferTxResult_ToAccount r), d')"
    | n m d1 where
      "balance_stmt (TransferTxParams_ToAccountID arg) (TransferTxParams_Amount arg) n d
         = (Inr (TransferTxResult_ToAccount r), d1)"
      "balance_stmt (TransferTxParams_FromAccountID arg) (- TransferTxParams_Amount arg) m d1
         = (Inr (TransferTxResult_FromAccount r), d')"
    by (auto simp: moved_def Let_def)
  then show thesis
    by cases (use ne in \<open>auto dest!: step simp: lookup_update_where intro!: that\<close>)
qed

lemma transferTx_rows:
  assumes "run (transferTx E arg) w = (Inr r, w')"
    and ne: "TransferTxParams_FromAccountID arg \<noteq> TransferTxParams_ToAccountID arg"
  obtains a b where
    "lookup Account_ID (TransferTxParams_FromAccountID arg) (accounts (db w)) = Some a"
    "lookup Account_ID (TransferTxParams_ToAccountID arg) (accounts (db w)) = Some b"
    "TransferTxResult_FromAccount r = add_to_balance (- TransferTxParams_Amount arg) a"
    "TransferTxResult_ToAccount r = add_to_balance (TransferTxParams_Amount arg) b"
    "balance_error (sint (Account_Balance a) + sint (- TransferTxParams_Amount arg)) = None"
    "balance_error (sint (Account_Balance b) + sint (TransferTxParams_Amount arg)) = None"
  using assms(1)
proof (rule transferTx_InrE)
  fix n1 d1 n2 d2 n3 d3
  assume 1: "sql_CreateTransfer arg n1 (db w) = (Inr (TransferTxResult_Transfer r), d1)"
    and 2: "entry_stmt (TransferTxParams_FromAccountID arg) (- TransferTxParams_Amount arg) n2 d1
      = (Inr (TransferTxResult_FromEntry r), d2)"
    and 3: "entry_stmt (TransferTxParams_ToAccountID arg) (TransferTxParams_Amount arg) n3 d2
      = (Inr (TransferTxResult_ToEntry r), d3)"
    and 4: "moved arg r d3 (db w')"
  have "accounts d3 = accounts (db w)"
    using sql_CreateTransfer_InrD(1) [OF 1] entry_stmt_InrD(1) [OF 2] entry_stmt_InrD(1) [OF 3] by auto
  with moved_rows [OF 4 ne] that show thesis by metis
qed

text \<open>The amount of a successful transfer is not the smallest \<open>int64\<close>, so it can be negated.\<close>

lemma rows_amount:
  fixes x :: int64
  assumes "balance_error (b + sint (- x)) = None" and "balance_error (c + sint x) = None"
    and "b \<le> max_int64" and "c \<le> max_int64"
  shows "sint (- x) = - sint x"
proof (rule sint64_minus)
  show "sint x \<noteq> min_int64"
    using assms(2,4) by (auto simp: balance_error_def in_int64_def split: if_splits)
qed

lemma transferred_lookup:
  assumes "transferred arg r d d'"
  shows "lookup Account_ID i (accounts d') =
    map_option ((if i = TransferTxParams_ToAccountID arg
                 then add_to_balance (TransferTxParams_Amount arg) else id) \<circ>
                (if i = TransferTxParams_FromAccountID arg
                 then add_to_balance (- TransferTxParams_Amount arg) else id))
      (lookup Account_ID i (accounts d))"
  using assms
  by (auto simp: transferred_def Let_def lookup_update_where option.map_comp o_def option.map_ident)

lemma TransferTx_InrD:
  assumes "run (TransferTx E arg) w = (Inr r, w')"
  obtains w1 where "run (transferTx E arg) (in_tx E w) = (Inr r, w1)" "db w' = db w1"
    "transferred arg r (db w) (db w')"
proof -
  from assms obtain w1 where w1: "run (transferTx E arg) (in_tx E w) = (Inr r, w1)" "db w' = db w1"
    unfolding TransferTx_def by (rule execTx_InrD)
  with transferTx_transferred [OF w1(1)] that show thesis by (simp add: in_tx_def)
qed

lemma transferred_abs:
  assumes t: "transferred arg r d d'"
    and ne: "TransferTxParams_FromAccountID arg \<noteq> TransferTxParams_ToAccountID arg"
    and ab: "lookup Account_ID (TransferTxParams_FromAccountID arg) (accounts d) = Some a"
      "lookup Account_ID (TransferTxParams_ToAccountID arg) (accounts d) = Some b"
    and err: "balance_error (sint (Account_Balance a) + sint (- TransferTxParams_Amount arg)) = None"
      "balance_error (sint (Account_Balance b) + sint (TransferTxParams_Amount arg)) = None"
  shows "Some (abs_ledger d') = abs_transfer (TransferTxParams_FromAccountID arg)
    (TransferTxParams_ToAccountID arg) (sint (TransferTxParams_Amount arg)) (abs_ledger d)"
proof -
  have m: "sint (- TransferTxParams_Amount arg) = - sint (TransferTxParams_Amount arg)"
    by (rule rows_amount [OF err]) simp_all
  have "abs_ledger d' = (abs_ledger d)
     (TransferTxParams_FromAccountID arg \<mapsto> sint (Account_Balance a) - sint (TransferTxParams_Amount arg),
      TransferTxParams_ToAccountID arg \<mapsto> sint (Account_Balance b) + sint (TransferTxParams_Amount arg))"
  proof
    fix i
    show "abs_ledger d' i = ((abs_ledger d)
     (TransferTxParams_FromAccountID arg \<mapsto> sint (Account_Balance a) - sint (TransferTxParams_Amount arg),
      TransferTxParams_ToAccountID arg \<mapsto> sint (Account_Balance b) + sint (TransferTxParams_Amount arg))) i"
      using ne ab err m
      by (auto simp: abs_ledger_def transferred_lookup [OF t] option.map_comp o_def sint64_add
          balance_error_def split: if_splits)
         (metis add_uminus_conv_diff sint64_add uminus_add_conv_diff add.commute)+
  qed
  moreover have "0 \<le> sint (Account_Balance a) - sint (TransferTxParams_Amount arg) \<and>
      sint (Account_Balance a) - sint (TransferTxParams_Amount arg) \<le> max_int64 \<and>
      0 \<le> sint (Account_Balance b) + sint (TransferTxParams_Amount arg) \<and>
      sint (Account_Balance b) + sint (TransferTxParams_Amount arg) \<le> max_int64"
    using err m by (auto simp: balance_error_def in_int64_def split: if_splits)
  ultimately show ?thesis
    using ab by (simp add: abs_transfer_def abs_ledger_def)
qed

lemma TransferTx_calm:
  assumes net: "\<And>n. net E n = NoFault" and ok: "db_ok (db w)"
    and "int (transfer_seq (db w)) < max_int64" and "int (entry_seq (db w)) + 1 < max_int64"
    and ne: "TransferTxParams_FromAccountID arg \<noteq> TransferTxParams_ToAccountID arg"
  shows "case abs_transfer (TransferTxParams_FromAccountID arg) (TransferTxParams_ToAccountID arg)
      (sint (TransferTxParams_Amount arg)) (abs_ledger (db w)) of
      Some L \<Rightarrow> \<exists>r w'. run (TransferTx E arg) w = (Inr r, w') \<and> abs_ledger (db w') = L
    | None \<Rightarrow> \<exists>e w'. run (TransferTx E arg) w = (Inl e, w') \<and> same_tables (db w) (db w') \<and>
        transfer_error arg (db w) = Some e"
proof -
  obtain r w1 where r: "run (transferTx E arg) (in_tx E w) =
      (case transfer_error arg (db w) of Some e \<Rightarrow> Inl e | None \<Rightarrow> Inr r, w1)"
    using run_transferTx_calm [OF net _ _ _ ne, of "in_tx E w"] assms by (auto simp: in_tx_def)
  note abs = transfer_error_abs [OF ok, of arg]
  show ?thesis
  proof (cases "transfer_error arg (db w)")
    case None
    with r net obtain w' where run: "run (TransferTx E arg) w = (Inr r, w')"
      by (simp add: TransferTx_def run_execTx Commit_def Let_def)
    from run obtain w2 where w2: "run (transferTx E arg) (in_tx E w) = (Inr r, w2)"
      and t: "transferred arg r (db w) (db w')" by (rule TransferTx_InrD)
    from transferTx_rows [OF w2 ne] transferred_abs [OF t ne] have
      "Some (abs_ledger (db w')) =
        abs_transfer (TransferTxParams_FromAccountID arg) (TransferTxParams_ToAccountID arg)
          (sint (TransferTxParams_Amount arg)) (abs_ledger (db w))"
      by (metis in_tx_db)
    from this [symmetric] run show ?thesis by simp
  next
    case (Some e)
    with r net have "run (TransferTx E arg) w = (Inl e, snd (run (TransferTx E arg) w)) \<and>
        db (snd (run (TransferTx E arg) w)) = rollback_to (db w) (db w1)"
      by (simp add: TransferTx_def run_execTx Rollback_def Let_def)
    with abs Some show ?thesis by (auto split: option.splits)
  qed
qed

lemma TransferTx_rows:
  assumes "run (TransferTx E arg) w = (Inr r, w')"
    and "TransferTxParams_FromAccountID arg \<noteq> TransferTxParams_ToAccountID arg"
  shows "transferred arg r (db w) (db w') \<and>
    lookup Account_ID (TransferTxParams_FromAccountID arg) (accounts (db w')) =
      Some (TransferTxResult_FromAccount r) \<and>
    lookup Account_ID (TransferTxParams_ToAccountID arg) (accounts (db w')) =
      Some (TransferTxResult_ToAccount r) \<and>
    abs_transfer (TransferTxParams_FromAccountID arg) (TransferTxParams_ToAccountID arg)
      (sint (TransferTxParams_Amount arg)) (abs_ledger (db w)) = Some (abs_ledger (db w'))"
proof -
  obtain w1 where w1: "run (transferTx E arg) (in_tx E w) = (Inr r, w1)"
    and t: "transferred arg r (db w) (db w')" using assms(1) by (rule TransferTx_InrD)
  from transferTx_rows [OF w1 assms(2)] obtain a b where rows:
    "lookup Account_ID (TransferTxParams_FromAccountID arg) (accounts (db w)) = Some a"
    "lookup Account_ID (TransferTxParams_ToAccountID arg) (accounts (db w)) = Some b"
    "TransferTxResult_FromAccount r = add_to_balance (- TransferTxParams_Amount arg) a"
    "TransferTxResult_ToAccount r = add_to_balance (TransferTxParams_Amount arg) b"
    "balance_error (sint (Account_Balance a) + sint (- TransferTxParams_Amount arg)) = None"
    "balance_error (sint (Account_Balance b) + sint (TransferTxParams_Amount arg)) = None"
    by (auto simp: in_tx_def)
  from transferred_abs [OF t assms(2) rows(1,2,5,6)] t rows assms(2) show ?thesis
    by (simp add: transferred_lookup)
qed

section \<open>Properties\<close>

text \<open>
  A transfer that is reported as successful between two different accounts took exactly
  the amount from the one and added it to the other, left every other account as it was,
  appended one transfer and its two entries, touched no other table, and returned the
  committed rows of both accounts.
\<close>

theorem TransferTx_effect:
  assumes "run (TransferTx E arg) w = (Inr r, w')"
    and "TransferTxParams_FromAccountID arg \<noteq> TransferTxParams_ToAccountID arg"
  shows "transferred arg r (db w) (db w') \<and>
    lookup Account_ID (TransferTxParams_FromAccountID arg) (accounts (db w')) =
      Some (TransferTxResult_FromAccount r) \<and>
    lookup Account_ID (TransferTxParams_ToAccountID arg) (accounts (db w')) =
      Some (TransferTxResult_ToAccount r) \<and>
    abs_transfer (TransferTxParams_FromAccountID arg) (TransferTxParams_ToAccountID arg)
      (sint (TransferTxParams_Amount arg)) (abs_ledger (db w)) = Some (abs_ledger (db w'))"
  using assms by (rule TransferTx_rows)

lemma example_TransferTx_30:
  "fst (run (TransferTx example_env (example_transfer 30)) example_world) \<noteq> Inl e"
  by (simp add: TransferTx_def run_execTx in_tx_def transferTx_def addMoney_def Let_def run_try_do
      CreateTransfer_def CreateEntry_def AddAccountBalance_def run_query sql_CreateTransfer_def
      sql_CreateEntry_def sql_AddAccountBalance_def nextval_def in_int64_def Commit_def example_defs
      add_to_balance_def)

theorem TransferTx_effect_witness:
  "\<exists>r w'. run (TransferTx example_env (example_transfer 30)) example_world = (Inr r, w') \<and>
     transferred (example_transfer 30) r (db example_world) (db w')"
proof -
  obtain r w' where run: "run (TransferTx example_env (example_transfer 30)) example_world = (Inr r, w')"
    using example_TransferTx_30 by (metis fst_conv obj_sumE surj_pair)
  have ne: "TransferTxParams_FromAccountID (example_transfer 30) \<noteq>
      TransferTxParams_ToAccountID (example_transfer 30)" by (simp add: example_transfer_def)
  from TransferTx_effect [OF run ne] run show ?thesis by blast
qed

text \<open>
  C15: When every round trip succeeds and the sequences are not exhausted, \<open>TransferTx\<close>
  between different accounts refines the abstract transfer: it succeeds exactly when the
  abstract transfer is defined, and then with the abstract balances; otherwise it returns
  the error of the missing account or of the violated balance check and changes no table.
\<close>

theorem TransferTx_refines:
  assumes net: "\<And>n. net E n = NoFault" and ok: "db_ok (db w)"
    and "int (transfer_seq (db w)) < max_int64" and "int (entry_seq (db w)) + 1 < max_int64"
    and ne: "TransferTxParams_FromAccountID arg \<noteq> TransferTxParams_ToAccountID arg"
  shows "case abs_transfer (TransferTxParams_FromAccountID arg) (TransferTxParams_ToAccountID arg)
      (sint (TransferTxParams_Amount arg)) (abs_ledger (db w)) of
      Some L \<Rightarrow> \<exists>r w'. run (TransferTx E arg) w = (Inr r, w') \<and> abs_ledger (db w') = L
    | None \<Rightarrow> \<exists>e w'. run (TransferTx E arg) w = (Inl e, w') \<and> same_tables (db w) (db w') \<and>
        transfer_error arg (db w) = Some e"
  using assms by (rule TransferTx_calm)

lemma example_db_ok: "db_ok example_db"
  by (simp add: ok_defs example_defs)

theorem TransferTx_refines_witness:
  "\<exists>e w'. run (TransferTx example_env (example_transfer 500)) example_world = (Inl e, w') \<and>
     same_tables (db example_world) (db w') \<and>
     e = check_violation ''accounts_balance_non_negative''"
proof -
  have "abs_transfer 1 2 500 (abs_ledger example_db) = None"
    by (simp add: abs_transfer_def abs_ledger_def example_defs)
  moreover have "transfer_error (example_transfer 500) example_db =
      Some (check_violation ''accounts_balance_non_negative'')"
    by (simp add: transfer_error_def update_error_def balance_error_def in_int64_def example_defs)
  ultimately show ?thesis
    using TransferTx_refines [of example_env example_world "example_transfer 500"] example_db_ok
    by (simp add: example_transfer_def)
qed

end
