(* ===== verification/Token.thy ===== *)
theory Token
  imports Transfer_Spec
begin

text \<open>
  Package \<open>token\<close>: payloads, the \<open>Maker\<close> interface and its two implementations. The
  interface is the record \<open>Maker\<close> of its two methods; what every maker promises is the
  locale \<open>token_maker\<close>, what the PASETO maker promises beyond it is
  \<open>fresh_token_maker\<close>. The cryptography of \<open>o1egl/paseto\<close> is in the environment, that of
  \<open>golang-jwt\<close> in the record \<open>jwt_lib\<close>.
\<close>

section \<open>Payloads\<close>

definition NewPayload :: "env \<Rightarrow> string \<Rightarrow> duration \<Rightarrow> (error + Payload) op" where
  "NewPayload E username dur = do {
     u \<leftarrow> draw (uuid_NewRandom E);
     case u of
       Inl err \<Rightarrow> ret (Inl err)
     | Inr tokenID \<Rightarrow> do {
         issued \<leftarrow> time_Now E;
         now \<leftarrow> time_Now E;
         ret (Inr \<lparr>Payload_ID = tokenID, Payload_Username = username,
                   Payload_IssuedAt = issued, Payload_ExpiredAt = now + sint dur\<rparr>)
       }
   }"

text \<open>\<open>Valid\<close> returns \<open>ErrExpiredToken\<close> strictly after the expiry.\<close>

definition Payload_Valid :: "env \<Rightarrow> Payload \<Rightarrow> (error option) op" where
  "Payload_Valid E p = do {
     now \<leftarrow> time_Now E;
     ret (if Payload_ExpiredAt p < now then Some ErrExpiredToken else None)
   }"

section \<open>The Maker interface\<close>

record Maker =
  CreateToken :: "string \<Rightarrow> duration \<Rightarrow> (error + string \<times> Payload) op"
  VerifyToken :: "string \<Rightarrow> (error + Payload) op"

text \<open>
  Whatever maker a server is given: it never touches the database, time only moves on, and a
  created payload names the user and expires the given duration after a clock reading taken
  during the call.
\<close>

locale token_maker =
  fixes M :: Maker and E :: env
  assumes create_db: "run (CreateToken M u dur) w = (r, w') \<Longrightarrow>
      db w' = db w \<and> tx_start w' = tx_start w \<and> tick w < tick w'"
    and create_payload: "run (CreateToken M u dur) w = (Inr (tok, p), w') \<Longrightarrow>
      Payload_Username p = u \<and> uuid_NewRandom E (tick w) = Inr (Payload_ID p) \<and>
      (\<exists>n. tick w < n \<and> n < tick w' \<and> Payload_ExpiredAt p = clock E n + sint dur)"
    and verify_db: "run (VerifyToken M tok) w = (v, w') \<Longrightarrow>
      db w' = db w \<and> tx_start w' = tx_start w \<and> tick w \<le> tick w'"
begin

lemma maker_rel:
  assumes "db_relation Q"
  shows "always (on_db Q) (CreateToken M u dur)" "always (on_db Q) (VerifyToken M tok)"
  using create_db verify_db db_relation.Q_refl [OF assms]
  by (auto intro!: alwaysI simp: on_db_def)

end

text \<open>A maker that accepts a token only if a clock reading of the call lies before its expiry.\<close>

locale fresh_token_maker = token_maker +
  assumes verify_fresh: "run (VerifyToken M tok) w = (Inr p, w') \<Longrightarrow>
      \<exists>n. tick w \<le> n \<and> n < tick w' \<and> clock E n \<le> Payload_ExpiredAt p"
begin

text \<open>Once every later clock reading is past its expiry, a payload is never accepted again.\<close>

lemma never_accepted_after_expiry:
  assumes "\<And>n. tick w \<le> n \<Longrightarrow> Payload_ExpiredAt p < clock E n"
  shows "run (VerifyToken M tok) w \<noteq> (Inr p, w')"
proof
  assume "run (VerifyToken M tok) w = (Inr p, w')"
  then obtain n where "tick w \<le> n" "clock E n \<le> Payload_ExpiredAt p" by (blast dest: verify_fresh)
  with assms [of n] show False by simp
qed

end

section \<open>PASETO\<close>

text \<open>\<open>chacha20poly1305.KeySize\<close> is 32.\<close>

definition paseto_CreateToken ::
    "env \<Rightarrow> string \<Rightarrow> string \<Rightarrow> duration \<Rightarrow> (error + string \<times> Payload) op" where
  "paseto_CreateToken E symmetricKey username dur =
     try_do (NewPayload E username dur) (\<lambda>payload.
     try_do (draw (\<lambda>n. paseto_Encrypt E n symmetricKey payload)) (\<lambda>token.
     ret (Inr (token, payload))))"

definition paseto_VerifyToken :: "env \<Rightarrow> string \<Rightarrow> string \<Rightarrow> (error + Payload) op" where
  "paseto_VerifyToken E symmetricKey token =
     (case paseto_Decrypt E token symmetricKey of
        Inl err \<Rightarrow> ret (Inl ErrInvalidToken)
      | Inr payload \<Rightarrow> do {
          v \<leftarrow> Payload_Valid E payload;
          case v of
            Some err \<Rightarrow> ret (Inl err)
          | None \<Rightarrow> ret (Inr payload)
        })"

definition PasetoMaker :: "env \<Rightarrow> string \<Rightarrow> Maker" where
  "PasetoMaker E symmetricKey =
     \<lparr>CreateToken = paseto_CreateToken E symmetricKey,
      VerifyToken = paseto_VerifyToken E symmetricKey\<rparr>"

definition NewPasetoMaker :: "env \<Rightarrow> string \<Rightarrow> error + Maker" where
  "NewPasetoMaker E symmetricKey =
     (if length symmetricKey \<noteq> 32 then
        Inl (Errorf ''invalid key size: must be exactly 32 characters'')
      else Inr (PasetoMaker E symmetricKey))"

lemma run_NewPayload:
  "run (NewPayload E u dur) w =
     (case uuid_NewRandom E (tick w) of
        Inl err \<Rightarrow> (Inl err, w\<lparr>tick := tick w + 1\<rparr>)
      | Inr i \<Rightarrow> (Inr \<lparr>Payload_ID = i, Payload_Username = u, Payload_IssuedAt = clock E (tick w + 1),
            Payload_ExpiredAt = clock E (tick w + 2) + sint dur\<rparr>, w\<lparr>tick := tick w + 3\<rparr>))"
  by (simp add: NewPayload_def run_draw run_time_Now numeral_3_eq_3 split: sum.splits)

lemma run_paseto_VerifyToken:
  "run (paseto_VerifyToken E k tok) w =
     (case paseto_Decrypt E tok k of
        Inl err \<Rightarrow> (Inl ErrInvalidToken, w)
      | Inr p \<Rightarrow> (if Payload_ExpiredAt p < clock E (tick w) then Inl ErrExpiredToken else Inr p,
          w\<lparr>tick := tick w + 1\<rparr>))"
  by (simp add: paseto_VerifyToken_def Payload_Valid_def run_time_Now split: sum.splits)

lemma run_paseto_CreateToken:
  "run (paseto_CreateToken E k u dur) w =
     (case uuid_NewRandom E (tick w) of
        Inl err \<Rightarrow> (Inl err, w\<lparr>tick := tick w + 1\<rparr>)
      | Inr i \<Rightarrow>
          (let p = \<lparr>Payload_ID = i, Payload_Username = u, Payload_IssuedAt = clock E (tick w + 1),
                    Payload_ExpiredAt = clock E (tick w + 2) + sint dur\<rparr> in
           (case paseto_Encrypt E (tick w + 3) k p of Inl err \<Rightarrow> Inl err | Inr t \<Rightarrow> Inr (t, p),
            w\<lparr>tick := tick w + 4\<rparr>)))"
  by (simp add: paseto_CreateToken_def run_try_do run_NewPayload run_draw Let_def split: sum.splits)

interpretation paseto: fresh_token_maker "PasetoMaker E k" E for E k
proof unfold_locales
  fix u dur w r v w' tok p
  show "db w' = db w \<and> tx_start w' = tx_start w \<and> tick w < tick w'"
    if "run (CreateToken (PasetoMaker E k) u dur) w = (r, w')"
    using that by (auto simp: PasetoMaker_def run_paseto_CreateToken Let_def split: sum.splits)
  show "Payload_Username p = u \<and> uuid_NewRandom E (tick w) = Inr (Payload_ID p) \<and>
      (\<exists>n. tick w < n \<and> n < tick w' \<and> Payload_ExpiredAt p = clock E n + sint dur)"
    if "run (CreateToken (PasetoMaker E k) u dur) w = (Inr (tok, p), w')"
    using that
    by (auto simp: PasetoMaker_def run_paseto_CreateToken Let_def split: sum.splits
        intro!: exI [of _ "tick w + 2"])
  show "db w' = db w \<and> tx_start w' = tx_start w \<and> tick w \<le> tick w'"
    if "run (VerifyToken (PasetoMaker E k) tok) w = (v, w')"
    using that by (auto simp: PasetoMaker_def run_paseto_VerifyToken split: sum.splits)
  show "\<exists>n. tick w \<le> n \<and> n < tick w' \<and> clock E n \<le> Payload_ExpiredAt p"
    if "run (VerifyToken (PasetoMaker E k) tok) w = (Inr p, w')"
    using that
    by (auto simp: PasetoMaker_def run_paseto_VerifyToken split: sum.splits if_splits
        intro!: exI [of _ "tick w"])
qed

section \<open>JWT\<close>

text \<open>
  \<open>golang-jwt\<close> as the code uses it. \<open>jwt_Sign key claims\<close> is \<open>SignedString\<close> with HS256;
  \<open>jwt_Parse keyFunc now token\<close> is \<open>ParseWithClaims\<close>, which calls \<open>keyFunc\<close> with the method
  of the token's header. Of its error the code only asks whether it is \<open>ErrTokenExpired\<close>.
\<close>

datatype jwt_method = SigningMethodHMAC string | OtherMethod string
datatype jwt_error = JwtTokenExpired | JwtOtherError
datatype jwt_claims = PayloadClaims Payload | OtherClaims

record jwt_lib =
  jwt_Sign :: "string \<Rightarrow> Payload \<Rightarrow> error + string"
  jwt_Parse :: "(jwt_method \<Rightarrow> error + string) \<Rightarrow> time \<Rightarrow> string \<Rightarrow> jwt_error + jwt_claims"

definition minSecretKeySize :: nat where
  "minSecretKeySize = 32"

definition jwt_keyFunc :: "string \<Rightarrow> jwt_method \<Rightarrow> error + string" where
  "jwt_keyFunc secretKey m =
     (case m of SigningMethodHMAC _ \<Rightarrow> Inr secretKey | OtherMethod _ \<Rightarrow> Inl ErrInvalidToken)"

definition jwt_CreateToken ::
    "jwt_lib \<Rightarrow> env \<Rightarrow> string \<Rightarrow> string \<Rightarrow> duration \<Rightarrow> (error + string \<times> Payload) op" where
  "jwt_CreateToken J E secretKey username dur =
     try_do (NewPayload E username dur) (\<lambda>payload.
     case jwt_Sign J secretKey payload of
       Inl err \<Rightarrow> ret (Inl err)
     | Inr tokenString \<Rightarrow> ret (Inr (tokenString, payload)))"

definition jwt_VerifyToken :: "jwt_lib \<Rightarrow> env \<Rightarrow> string \<Rightarrow> string \<Rightarrow> (error + Payload) op" where
  "jwt_VerifyToken J E secretKey token = do {
     now \<leftarrow> time_Now E;
     case jwt_Parse J (jwt_keyFunc secretKey) now token of
       Inl JwtTokenExpired \<Rightarrow> ret (Inl ErrExpiredToken)
     | Inl JwtOtherError \<Rightarrow> ret (Inl ErrInvalidToken)
     | Inr (PayloadClaims payload) \<Rightarrow> ret (Inr payload)
     | Inr OtherClaims \<Rightarrow> ret (Inl ErrInvalidToken)
   }"

definition JWTMaker :: "jwt_lib \<Rightarrow> env \<Rightarrow> string \<Rightarrow> Maker" where
  "JWTMaker J E secretKey =
     \<lparr>CreateToken = jwt_CreateToken J E secretKey, VerifyToken = jwt_VerifyToken J E secretKey\<rparr>"

definition NewJWTMaker :: "jwt_lib \<Rightarrow> env \<Rightarrow> string \<Rightarrow> error + Maker" where
  "NewJWTMaker J E secretKey =
     (if length secretKey < minSecretKeySize then
        Inl (Errorf (''invalid key size: must be at least '' @ show_nat minSecretKeySize @ '' characters''))
      else Inr (JWTMaker J E secretKey))"

text \<open>
  The claims interface of the payload; \<open>date\<close> is \<open>jwt.NewNumericDate\<close>. The subject, the
  issuer and the audience carry no information.
\<close>

definition GetAudience :: "Payload \<Rightarrow> string list" where "GetAudience p = ['''']"
definition GetExpirationTime :: "(time \<Rightarrow> 'd) \<Rightarrow> Payload \<Rightarrow> 'd" where
  "GetExpirationTime date p = date (Payload_ExpiredAt p)"
definition GetIssuedAt :: "(time \<Rightarrow> 'd) \<Rightarrow> Payload \<Rightarrow> 'd" where
  "GetIssuedAt date p = date (Payload_IssuedAt p)"
definition GetIssuer :: "Payload \<Rightarrow> string" where "GetIssuer p = ''''"
definition GetNotBefore :: "(time \<Rightarrow> 'd) \<Rightarrow> Payload \<Rightarrow> 'd" where
  "GetNotBefore date p = date (Payload_IssuedAt p)"
definition GetSubject :: "Payload \<Rightarrow> string" where "GetSubject p = ''''"

interpretation jwt: token_maker "JWTMaker J E k" E for J E k
proof unfold_locales
  fix u dur w r v w' tok p
  show "db w' = db w \<and> tx_start w' = tx_start w \<and> tick w < tick w'"
    if "run (CreateToken (JWTMaker J E k) u dur) w = (r, w')"
    using that
    by (auto simp: JWTMaker_def jwt_CreateToken_def run_try_do run_NewPayload split: sum.splits)
  show "Payload_Username p = u \<and> uuid_NewRandom E (tick w) = Inr (Payload_ID p) \<and>
      (\<exists>n. tick w < n \<and> n < tick w' \<and> Payload_ExpiredAt p = clock E n + sint dur)"
    if "run (CreateToken (JWTMaker J E k) u dur) w = (Inr (tok, p), w')"
    using that
    by (auto simp: JWTMaker_def jwt_CreateToken_def run_try_do run_NewPayload split: sum.splits
        intro!: exI [of _ "tick w + 2"])
  show "db w' = db w \<and> tx_start w' = tx_start w \<and> tick w \<le> tick w'"
    if "run (VerifyToken (JWTMaker J E k) tok) w = (v, w')"
    using that
    by (auto simp: JWTMaker_def jwt_VerifyToken_def run_time_Now
        split: sum.splits jwt_error.splits jwt_claims.splits)
qed

section \<open>Properties\<close>

text \<open>
  C36: Whatever the PASETO maker creates it verifies, given that decryption inverts
  encryption under the same key: until the expiry it returns the very payload, which names
  the user, and after the expiry it answers that the token is expired. Neither call touches
  the database.
\<close>

theorem paseto_roundtrip:
  assumes "\<And>n p c. paseto_Encrypt E n k p = Inr c \<Longrightarrow> paseto_Decrypt E c k = Inr p"
    and "run (CreateToken (PasetoMaker E k) u dur) w = (Inr (tok, p), w1)"
  shows "Payload_Username p = u \<and> db w1 = db w \<and>
    run (VerifyToken (PasetoMaker E k) tok) w2 =
      (if clock E (tick w2) \<le> Payload_ExpiredAt p then Inr p else Inl ErrExpiredToken,
       w2\<lparr>tick := tick w2 + 1\<rparr>)"
proof -
  from assms(2) have "\<exists>n. paseto_Encrypt E n k p = Inr tok"
    by (auto simp: PasetoMaker_def run_paseto_CreateToken Let_def split: sum.splits)
  with assms(1) have "paseto_Decrypt E tok k = Inr p" by blast
  moreover have "Payload_Username p = u" using paseto.create_payload [OF assms(2)] by simp
  ultimately show ?thesis
    using paseto.create_db [OF assms(2)] by (simp add: PasetoMaker_def run_paseto_VerifyToken)
qed

theorem paseto_roundtrip_witness:
  "\<exists>tok p. fst (run (CreateToken (PasetoMaker example_env ''key'') ''ann'' 50) start_world) = Inr (tok, p) \<and>
     fst (run (VerifyToken (PasetoMaker example_env ''key'') tok) start_world) = Inr p"
proof -
  let ?p = "\<lparr>Payload_ID = 0, Payload_Username = ''ann'', Payload_IssuedAt = 1, Payload_ExpiredAt = 52\<rparr>"
  have run: "run (CreateToken (PasetoMaker example_env ''key'') ''ann'' 50) start_world =
      (Inr (example_encrypt ''key'' ?p, ?p), start_world\<lparr>tick := 4\<rparr>)"
    by (simp add: PasetoMaker_def run_paseto_CreateToken start_world_def Let_def)
  have inv: "paseto_Decrypt example_env c ''key'' = Inr p"
    if "paseto_Encrypt example_env n ''key'' p = Inr c" for n p c
    using that by (auto simp: example_decrypt_encrypt)
  from paseto_roundtrip [where ?w2.0 = start_world, OF inv run] run show ?thesis
    by (simp add: start_world_def)
qed

text \<open>
  Once every later clock reading lies after its expiry, a payload is never returned by
  \<open>VerifyToken\<close> again, for whatever token text.
\<close>

theorem paseto_expired_forever:
  assumes "\<And>n. tick w \<le> n \<Longrightarrow> Payload_ExpiredAt p < clock E n"
  shows "fst (run (VerifyToken (PasetoMaker E k) tok) w) \<noteq> Inr p"
  using paseto.never_accepted_after_expiry [OF assms] by (metis prod.collapse)

theorem paseto_expired_forever_witness:
  "fst (run (VerifyToken (PasetoMaker example_env ''key'') (example_encrypt ''key''
     \<lparr>Payload_ID = 0, Payload_Username = ''ann'', Payload_IssuedAt = 1, Payload_ExpiredAt = 52\<rparr>))
     (start_world\<lparr>tick := 60\<rparr>)) \<noteq>
   Inr \<lparr>Payload_ID = 0, Payload_Username = ''ann'', Payload_IssuedAt = 1, Payload_ExpiredAt = 52\<rparr>"
  by (rule paseto_expired_forever) simp

text \<open>
  The JWT maker refuses every token whose header names a signing method other than HMAC
  (the \<open>none\<close> attack): the key function hands out no key for it. What is used of the library
  is that it fails when the key function does.
\<close>

theorem jwt_rejects_other_methods:
  assumes "\<And>keyFunc now err. keyFunc (OtherMethod alg) = Inl err \<Longrightarrow>
      jwt_Parse J keyFunc now tok = Inl JwtOtherError"
  shows "fst (run (VerifyToken (JWTMaker J E k) tok) w) = Inl ErrInvalidToken"
  using assms [of "jwt_keyFunc k" ErrInvalidToken]
  by (simp add: JWTMaker_def jwt_VerifyToken_def run_time_Now jwt_keyFunc_def)

definition example_jwt :: jwt_lib where
  "example_jwt = \<lparr>jwt_Sign = (\<lambda>k p. Inr (example_encrypt k p)),
     jwt_Parse = (\<lambda>keyFunc now tok.
       case keyFunc (if take 4 tok = ''none'' then OtherMethod ''none'' else SigningMethodHMAC ''HS256'') of
         Inl err \<Rightarrow> Inl JwtOtherError
       | Inr key \<Rightarrow> (case example_decrypt tok key of
           Inl err \<Rightarrow> Inl JwtOtherError
         | Inr p \<Rightarrow> if Payload_ExpiredAt p < now then Inl JwtTokenExpired else Inr (PayloadClaims p)))\<rparr>"

theorem jwt_rejects_other_methods_witness:
  "fst (run (VerifyToken (JWTMaker example_jwt example_env ''key'') ''none.payload'') start_world) =
     Inl ErrInvalidToken"
  by (rule jwt_rejects_other_methods [where alg = "''none''"]) (simp add: example_jwt_def)

end
