(* ===== verification/Util.thy ===== *)
theory Util
  imports Token
begin

text \<open>
  Packages \<open>util\<close> and \<open>val\<close>: supported currencies, password hashing, and the field
  validators of the gRPC handlers.
\<close>

section \<open>util\<close>

abbreviation USD :: string where "USD \<equiv> ''USD''"
abbreviation EUR :: string where "EUR \<equiv> ''EUR''"
abbreviation CAD :: string where "CAD \<equiv> ''CAD''"

definition IsSupportedCurrency :: "string \<Rightarrow> bool" where
  "IsSupportedCurrency currency \<longleftrightarrow> currency \<in> {USD, EUR, CAD}"

definition HashPassword :: "env \<Rightarrow> string \<Rightarrow> (error + string) op" where
  "HashPassword E password = do {
     h \<leftarrow> draw (\<lambda>n. bcrypt_Generate E n password);
     case h of
       Inl err \<Rightarrow> ret (Inl (Wrapf ''failed to hash password: '' err))
     | Inr hashedPassword \<Rightarrow> ret (Inr hashedPassword)
   }"

definition CheckPassword :: "env \<Rightarrow> string \<Rightarrow> string \<Rightarrow> error option" where
  "CheckPassword E password hashedPassword = bcrypt_Compare E hashedPassword password"

lemma run_HashPassword:
  "run (HashPassword E pw) w =
     (case bcrypt_Generate E (tick w) pw of
        Inl err \<Rightarrow> Inl (Wrapf ''failed to hash password: '' err) | Inr h \<Rightarrow> Inr h,
      w\<lparr>tick := Suc (tick w)\<rparr>)"
  by (simp add: HashPassword_def run_draw split: sum.splits)

section \<open>val\<close>

text \<open>\<open>None\<close> is \<open>nil\<close>: the value is accepted.\<close>

definition ValidateString :: "string \<Rightarrow> nat \<Rightarrow> nat \<Rightarrow> error option" where
  "ValidateString v minLength maxLength =
     (let n = length v in
      if n < minLength \<or> n > maxLength then
        Some (Errorf (''must contain from '' @ show_nat minLength @ ''-'' @ show_nat maxLength
          @ '' characters''))
      else None)"

definition isValidUsername :: "string \<Rightarrow> bool" where
  "isValidUsername v \<longleftrightarrow> v \<noteq> [] \<and> (\<forall>c \<in> set v. is_lower c \<or> is_digit c \<or> c = CHR ''_'')"

definition isValidFullName :: "string \<Rightarrow> bool" where
  "isValidFullName v \<longleftrightarrow> v \<noteq> [] \<and> (\<forall>c \<in> set v. is_lower c \<or> is_upper c \<or> is_re_space c)"

definition ValidateUsername :: "string \<Rightarrow> error option" where
  "ValidateUsername v =
     (case ValidateString v 3 100 of
        Some err \<Rightarrow> Some err
      | None \<Rightarrow>
          if \<not> isValidUsername v then
            Some (Errorf ''must contain only lowercase letters, digits, or underscore'')
          else None)"

definition ValidateFullName :: "string \<Rightarrow> error option" where
  "ValidateFullName v =
     (case ValidateString v 3 100 of
        Some err \<Rightarrow> Some err
      | None \<Rightarrow>
          if \<not> isValidFullName v then Some (Errorf ''must contain only letters or spaces'')
          else None)"

definition ValidatePassword :: "string \<Rightarrow> error option" where
  "ValidatePassword v = ValidateString v 6 100"

definition ValidateEmail :: "env \<Rightarrow> string \<Rightarrow> error option" where
  "ValidateEmail E v =
     (case ValidateString v 3 200 of
        Some err \<Rightarrow> Some err
      | None \<Rightarrow>
          if \<not> mail_ParseAddress E v then Some (Errorf ''is not a valid email address'') else None)"

text \<open>The accepted values, field by field.\<close>

lemma Validate_None:
  "ValidateUsername v = None \<longleftrightarrow> 3 \<le> length v \<and> length v \<le> 100 \<and>
     (\<forall>c \<in> set v. is_lower c \<or> is_digit c \<or> c = CHR ''_'')"
  "ValidateFullName v = None \<longleftrightarrow> 3 \<le> length v \<and> length v \<le> 100 \<and>
     (\<forall>c \<in> set v. is_lower c \<or> is_upper c \<or> is_re_space c)"
  "ValidatePassword v = None \<longleftrightarrow> 6 \<le> length v \<and> length v \<le> 100"
  "ValidateEmail E v = None \<longleftrightarrow> 3 \<le> length v \<and> length v \<le> 200 \<and> mail_ParseAddress E v"
  by (auto simp: ValidateUsername_def ValidateFullName_def ValidatePassword_def ValidateEmail_def
      isValidUsername_def isValidFullName_def ValidateString_def Let_def)

end
