(* ===== verification/Http.thy ===== *)
theory Http
  imports Util
begin

text \<open>
  What the Gin handlers of package \<open>api\<close> share: responses, the binding tags of the request
  structs, \<open>errorResponse\<close>, the server, and the authorization middleware
  (\<open>api/middleware.go\<close>).
\<close>

section \<open>Responses\<close>

record userResponse =
  userResponse_Username :: string
  userResponse_FullName :: string
  userResponse_Email :: string
  userResponse_PasswordChangedAt :: time
  userResponse_CreatedAt :: time

record loginUserResponse =
  loginUserResponse_SessionID :: uuid
  loginUserResponse_AccessToken :: string
  loginUserResponse_AccessTokenExpiresAt :: time
  loginUserResponse_RefreshToken :: string
  loginUserResponse_RefreshTokenExpiresAt :: time
  loginUserResponse_User :: userResponse

record renewAccessTokenResponse =
  renewAccessTokenResponse_AccessToken :: string
  renewAccessTokenResponse_AccessTokenExpiresAt :: time

text \<open>The session id before it is written out as a string.\<close>

record logoutResponse =
  logoutResponse_SessionID :: uuid

record logoutAllResponse =
  logoutAllResponse_SessionsRevoked :: int64

text \<open>\<open>health.Response\<close>; \<open>Error\<close> is omitted from the JSON when it is empty.\<close>

record HealthResponse =
  HealthResponse_Status :: string
  HealthResponse_Error :: "error option"

text \<open>
  A body is the value given to \<open>ctx.JSON\<close>; \<open>ErrorBody err\<close> is \<open>errorResponse(err)\<close>, and
  \<open>DataBody\<close> the bytes given to \<open>ctx.Data\<close>. \<open>HealthBody\<close> is what
  package \<open>health\<close> writes.
\<close>

datatype body =
    ErrorBody error
  | UserBody userResponse
  | LoginBody loginUserResponse
  | RenewBody renewAccessTokenResponse
  | AccountBody Account
  | AccountsBody "Account list"
  | TransferBody TransferTxResult
  | DataBody string
  | LogoutBody logoutResponse
  | LogoutAllBody logoutAllResponse
  | HealthBody HealthResponse

record response =
  status :: nat
  replay_header :: bool
  resp_body :: body

definition JSON :: "nat \<Rightarrow> body \<Rightarrow> response op" where
  "JSON code b = ret \<lparr>status = code, replay_header = False, resp_body = b\<rparr>"

definition errorJSON :: "nat \<Rightarrow> error \<Rightarrow> response op" where
  "errorJSON code err = JSON code (ErrorBody err)"

lemma run_JSON [run_simps]:
  "run (JSON code b) w = (\<lparr>status = code, replay_header = False, resp_body = b\<rparr>, w)"
  "run (errorJSON code err) w =
     (\<lparr>status = code, replay_header = False, resp_body = ErrorBody err\<rparr>, w)"
  by (simp_all add: JSON_def errorJSON_def)

abbreviation StatusOK :: nat where "StatusOK \<equiv> 200"
abbreviation StatusBadRequest :: nat where "StatusBadRequest \<equiv> 400"
abbreviation StatusUnauthorized :: nat where "StatusUnauthorized \<equiv> 401"
abbreviation StatusForbidden :: nat where "StatusForbidden \<equiv> 403"
abbreviation StatusNotFound :: nat where "StatusNotFound \<equiv> 404"
abbreviation StatusConflict :: nat where "StatusConflict \<equiv> 409"
abbreviation StatusInternalServerError :: nat where "StatusInternalServerError \<equiv> 500"
abbreviation StatusServiceUnavailable :: nat where "StatusServiceUnavailable \<equiv> 503"

section \<open>Binding\<close>

text \<open>
  A request is \<open>None\<close> when it does not decode into the request struct; otherwise the
  \<open>binding\<close> tags of the struct decide. \<open>required\<close> rejects the zero value; \<open>min\<close> counts
  runes on a string.
\<close>

definition ShouldBind :: "('r \<Rightarrow> bool) \<Rightarrow> 'r option \<Rightarrow> error + 'r" where
  "ShouldBind valid r =
     (case r of
        None \<Rightarrow> Inl (OtherErr ''decoding failed'')
      | Some req \<Rightarrow> if valid req then Inr req else Inl (OtherErr ''validation failed''))"

lemma ShouldBind_simps [simp]:
  "ShouldBind valid None = Inl (OtherErr ''decoding failed'')"
  "ShouldBind valid (Some req) =
     (if valid req then Inr req else Inl (OtherErr ''validation failed''))"
  "ShouldBind valid r = Inr req \<longleftrightarrow> r = Some req \<and> valid req"
  by (auto simp: ShouldBind_def split: option.splits)

definition tag_required :: "string \<Rightarrow> bool" where
  "tag_required s \<longleftrightarrow> s \<noteq> []"

definition tag_required_int :: "'a::len word \<Rightarrow> bool" where
  "tag_required_int x \<longleftrightarrow> x \<noteq> 0"

definition tag_min :: "nat \<Rightarrow> string \<Rightarrow> bool" where
  "tag_min n s \<longleftrightarrow> n \<le> rune_count s"

definition tag_alphanum :: "string \<Rightarrow> bool" where
  "tag_alphanum s \<longleftrightarrow> s \<noteq> [] \<and> (\<forall>c \<in> set s. is_lower c \<or> is_upper c \<or> is_digit c)"

text \<open>\<open>api/validator.go\<close>: the custom \<open>currency\<close> tag.\<close>

definition validCurrency :: "string \<Rightarrow> bool" where
  "validCurrency currency = IsSupportedCurrency currency"

section \<open>The server\<close>

record Server =
  Server_config :: Config
  Server_tokenMaker :: Maker

definition NewServer :: "env \<Rightarrow> Config \<Rightarrow> error + Server" where
  "NewServer E config =
     (case NewPasetoMaker E (Config_TokenSymmetricKey config) of
        Inl err \<Rightarrow> Inl (Wrapf ''cannot create token maker: '' err)
      | Inr maker \<Rightarrow> Inr \<lparr>Server_config = config, Server_tokenMaker = maker\<rparr>)"

section \<open>Authorization middleware\<close>

text \<open>
  The handler behind the middleware receives the payload it has set in the context. An
  absent header reads as the empty string.
\<close>

definition authMiddleware :: "Maker \<Rightarrow> string \<Rightarrow> (Payload \<Rightarrow> response op) \<Rightarrow> response op" where
  "authMiddleware tokenMaker authorizationHeader next =
     (if length authorizationHeader = 0 then
        errorJSON StatusUnauthorized (Errorf ''authorization header is not provided'')
      else
        let fields = strings_Fields authorizationHeader in
        if length fields < 2 then
          errorJSON StatusUnauthorized (Errorf ''invalid authorization header format'')
        else
          let authorizationType = strings_ToLower (fields ! 0) in
          if authorizationType \<noteq> ''bearer'' then
            errorJSON StatusUnauthorized
              (Errorf (''unsupported authorization type '' @ authorizationType))
          else do {
            v \<leftarrow> VerifyToken tokenMaker (fields ! 1);
            case v of
              Inl err \<Rightarrow> errorJSON StatusUnauthorized err
            | Inr payload \<Rightarrow> next payload
          })"

text \<open>The bearer token of a header, if the header has the accepted form.\<close>

definition bearer_token :: "string \<Rightarrow> string option" where
  "bearer_token h =
     (let fields = strings_Fields h in
      if 2 \<le> length fields \<and> strings_ToLower (fields ! 0) = ''bearer'' then Some (fields ! 1) else None)"

lemma strings_Fields_Nil [simp]: "strings_Fields [] = []"
  by (simp add: strings_Fields_def fields_from_Nil)

lemma authMiddleware_bearer:
  "bearer_token h = Some tok \<Longrightarrow>
   run (authMiddleware M h next) w =
     (case run (VerifyToken M tok) w of
        (Inl err, w1) \<Rightarrow> run (errorJSON StatusUnauthorized err) w1
      | (Inr p, w1) \<Rightarrow> run (next p) w1)"
  by (cases h) (auto simp: authMiddleware_def bearer_token_def Let_def
      split: prod.splits sum.splits if_splits)

lemma authMiddleware_no_bearer:
  "bearer_token h = None \<Longrightarrow>
   \<exists>err. run (authMiddleware M h next) w = run (errorJSON StatusUnauthorized err) w"
  by (auto simp: authMiddleware_def bearer_token_def Let_def split: if_splits)

section \<open>Properties\<close>

text \<open>Words of printable ASCII characters, like the scheme and the token of a header.\<close>

definition plain :: "string \<Rightarrow> bool" where
  "plain s \<longleftrightarrow> s \<noteq> [] \<and> (\<forall>c \<in> set s. 33 \<le> byte c \<and> byte c \<le> 126)"

lemma space_len_plain: "33 \<le> byte c \<Longrightarrow> byte c \<le> 126 \<Longrightarrow> space_len (c # cs) = 0"
  by (simp add: space_len_def)

lemma fields_from_plain:
  "\<forall>c \<in> set s. 33 \<le> byte c \<and> byte c \<le> 126 \<Longrightarrow>
   fields_from cur (s @ t) = fields_from (rev s @ cur) t"
  by (induction s arbitrary: cur) (simp_all add: fields_from_char space_len_plain)

lemma space_len_space: "space_len (CHR '' '' # t) = 1"
  by (simp add: space_len_def byte_def)

lemma fields_two_words:
  assumes "plain a" and "plain b"
  shows "strings_Fields (a @ '' '' @ b) = [a, b]"
proof -
  have "strings_Fields (a @ '' '' @ b) = fields_from (rev a) (CHR '' '' # b)"
    using assms(1) by (simp add: strings_Fields_def plain_def fields_from_plain)
  also have "\<dots> = a # fields_from [] b"
    using assms(1) by (simp add: fields_from_space space_len_space plain_def)
  also have "fields_from [] b = [b]"
    using assms(2) fields_from_plain [of b "[]" "[]"] by (simp add: plain_def fields_from_Nil)
  finally show ?thesis .
qed

lemma bearer_token_two_words:
  "plain a \<Longrightarrow> plain b \<Longrightarrow>
   bearer_token (a @ '' '' @ b) = (if strings_ToLower a = ''bearer'' then Some b else None)"
  unfolding bearer_token_def by (simp only: fields_two_words) (simp add: Let_def)

text \<open>
  C35: The handler behind the middleware runs only with a payload that the token maker has
  returned for the token of a bearer header; in every other case the answer is 401 and no
  handler runs. Without a bearer token nothing at all happens.
\<close>

theorem authMiddleware_gate:
  "case bearer_token h of
     None \<Rightarrow> \<exists>err. run (authMiddleware M h handler) w =
       (\<lparr>status = StatusUnauthorized, replay_header = False, resp_body = ErrorBody err\<rparr>, w)
   | Some tok \<Rightarrow> run (authMiddleware M h handler) w =
       (case run (VerifyToken M tok) w of
          (Inl err, w1) \<Rightarrow>
            (\<lparr>status = StatusUnauthorized, replay_header = False, resp_body = ErrorBody err\<rparr>, w1)
        | (Inr p, w1) \<Rightarrow> run (handler p) w1)"
  using authMiddleware_no_bearer [of h M handler w] authMiddleware_bearer [of h _ M handler w]
  by (simp add: run_JSON split: option.split prod.split sum.split)

text \<open>
  A header of two printable words is accepted for its second word exactly when the first
  one is \<open>bearer\<close> in any mixture of upper and lower case.
\<close>

theorem authMiddleware_header:
  assumes "plain scheme" and "plain tok"
  shows "run (authMiddleware M (scheme @ '' '' @ tok) handler) w =
    (if strings_ToLower scheme = ''bearer'' then
       (case run (VerifyToken M tok) w of
          (Inl err, w1) \<Rightarrow> run (errorJSON StatusUnauthorized err) w1
        | (Inr p, w1) \<Rightarrow> run (handler p) w1)
     else run (errorJSON StatusUnauthorized
         (Errorf (''unsupported authorization type '' @ strings_ToLower scheme))) w)"
proof -
  have f: "strings_Fields (scheme @ '' '' @ tok) = [scheme, tok]"
    using assms by (rule fields_two_words)
  show ?thesis unfolding authMiddleware_def f by (simp split: prod.splits sum.splits)
qed

theorem authMiddleware_header_witness:
  "status (fst (run (authMiddleware (PasetoMaker example_env ''key'') (''Basic'' @ '' '' @ ''x'')
     (\<lambda>p. JSON StatusOK (LogoutAllBody \<lparr>logoutAllResponse_SessionsRevoked = 0\<rparr>))) start_world)) = 401"
  using authMiddleware_header [of "''Basic''" "''x''" "PasetoMaker example_env ''key''"
      "\<lambda>p. JSON StatusOK (LogoutAllBody \<lparr>logoutAllResponse_SessionsRevoked = 0\<rparr>)" start_world]
  by (simp add: plain_def byte_def strings_ToLower_def to_lower_char_def run_JSON)

end
