(* ===== verification/Api_Account.thy ===== *)
theory Api_Account
  imports Http
begin

text \<open>
  \<open>api/account.go\<close>: the account handlers. Every handler behind the middleware takes the
  payload the middleware has verified, as \<open>ctx.MustGet\<close> returns it.
\<close>

record createAccountRequest =
  createAccountRequest_Currency :: string

definition createAccountRequest_valid :: "createAccountRequest \<Rightarrow> bool" where
  "createAccountRequest_valid r \<longleftrightarrow>
     tag_required (createAccountRequest_Currency r) \<and> validCurrency (createAccountRequest_Currency r)"

definition createAccount :: "env \<Rightarrow> Payload \<Rightarrow> createAccountRequest option \<Rightarrow> response op" where
  "createAccount E authPayload body =
     (case ShouldBind createAccountRequest_valid body of
        Inl err \<Rightarrow> errorJSON StatusBadRequest err
      | Inr req \<Rightarrow> do {
          a \<leftarrow> CreateAccount E
            \<lparr>CreateAccountParams_Owner = Payload_Username authPayload,
             CreateAccountParams_Balance = 0,
             CreateAccountParams_Currency = createAccountRequest_Currency req\<rparr>;
          case a of
            Inl err \<Rightarrow>
              (case err of
                 PqError name _ \<Rightarrow>
                   if name \<in> {''foreign_key_violation'', ''unique_violation''} then
                     errorJSON StatusForbidden err
                   else errorJSON StatusInternalServerError err
               | _ \<Rightarrow> errorJSON StatusInternalServerError err)
          | Inr account \<Rightarrow> JSON StatusOK (AccountBody account)
        })"

record getAccountRequest =
  getAccountRequest_ID :: int64

definition getAccountRequest_valid :: "getAccountRequest \<Rightarrow> bool" where
  "getAccountRequest_valid r \<longleftrightarrow>
     tag_required_int (getAccountRequest_ID r) \<and> 1 \<le> sint (getAccountRequest_ID r)"

definition getAccount :: "env \<Rightarrow> Payload \<Rightarrow> getAccountRequest option \<Rightarrow> response op" where
  "getAccount E authPayload uri =
     (case ShouldBind getAccountRequest_valid uri of
        Inl err \<Rightarrow> errorJSON StatusBadRequest err
      | Inr req \<Rightarrow> do {
          a \<leftarrow> GetAccount E (getAccountRequest_ID req);
          case a of
            Inl err \<Rightarrow>
              if err = ErrNoRows then errorJSON StatusNotFound err
              else errorJSON StatusInternalServerError err
          | Inr account \<Rightarrow>
              if Account_Owner account \<noteq> Payload_Username authPayload then
                errorJSON StatusUnauthorized
                  (Errorf ''account doesn't belong to the authenticated user'')
              else JSON StatusOK (AccountBody account)
        })"

record listAccountRequest =
  listAccountRequest_PageId :: int32
  listAccountRequest_PageSize :: int32

definition listAccountRequest_valid :: "listAccountRequest \<Rightarrow> bool" where
  "listAccountRequest_valid r \<longleftrightarrow>
     tag_required_int (listAccountRequest_PageId r) \<and> 1 \<le> sint (listAccountRequest_PageId r) \<and>
     tag_required_int (listAccountRequest_PageSize r) \<and>
     5 \<le> sint (listAccountRequest_PageSize r) \<and> sint (listAccountRequest_PageSize r) \<le> 10"

definition listAccounts :: "env \<Rightarrow> Payload \<Rightarrow> listAccountRequest option \<Rightarrow> response op" where
  "listAccounts E authPayload form =
     (case ShouldBind listAccountRequest_valid form of
        Inl err \<Rightarrow> errorJSON StatusBadRequest err
      | Inr req \<Rightarrow> do {
          a \<leftarrow> ListAccounts E
            \<lparr>ListAccountsParams_Owner = Payload_Username authPayload,
             ListAccountsParams_Limit = listAccountRequest_PageSize req,
             ListAccountsParams_Offset =
               (listAccountRequest_PageId req - 1) * listAccountRequest_PageSize req\<rparr>;
          case a of
            Inl err \<Rightarrow> errorJSON StatusInternalServerError err
          | Inr account \<Rightarrow> JSON StatusOK (AccountsBody account)
        })"

section \<open>Properties\<close>

lemma run_createAccount:
  assumes "createAccountRequest_valid req" and "net E (tick w) = NoFault"
  shows "run (createAccount E p (Some req)) w =
    (case sql_CreateAccount \<lparr>CreateAccountParams_Owner = Payload_Username p,
         CreateAccountParams_Balance = 0,
         CreateAccountParams_Currency = createAccountRequest_Currency req\<rparr> (server_now E w) (db w) of
       (Inl err, d) \<Rightarrow> (\<lparr>status = (case err of PqError name _ \<Rightarrow>
              if name \<in> {''foreign_key_violation'', ''unique_violation''} then 403 else 500 | _ \<Rightarrow> 500),
            replay_header = False, resp_body = ErrorBody err\<rparr>, w\<lparr>db := d, tick := Suc (tick w)\<rparr>)
     | (Inr a, d) \<Rightarrow> (\<lparr>status = 200, replay_header = False, resp_body = AccountBody a\<rparr>,
            w\<lparr>db := d, tick := Suc (tick w)\<rparr>))"
  using assms
  by (auto simp: createAccount_def CreateAccount_def run_query_ok run_JSON
      split: prod.splits sum.splits error.splits)

text \<open>
  C23: \<open>POST /accounts\<close> with a supported currency, on a calm connection: it answers 200 and
  appends one account of the authenticated user with balance 0 exactly when the user exists
  and has no account in that currency yet; otherwise it answers 403 and changes no row.
\<close>

theorem createAccount_outcome:
  assumes net: "net E (tick w) = NoFault" and ok: "db_ok (db w)"
    and seq: "int (account_seq (db w)) < max_int64" and valid: "createAccountRequest_valid req"
  shows "\<exists>rsp w'. run (createAccount E p (Some req)) w = (rsp, w') \<and>
    (if Payload_Username p \<in> usernames (db w) \<and>
        \<not> (\<exists>r \<in> set (accounts (db w)). Account_Owner r = Payload_Username p \<and>
              Account_Currency r = createAccountRequest_Currency req)
     then \<exists>a. rsp = \<lparr>status = 200, replay_header = False, resp_body = AccountBody a\<rparr> \<and>
       accounts (db w') = accounts (db w) @ [a] \<and> Account_Owner a = Payload_Username p \<and>
       Account_Balance a = 0 \<and> Account_Currency a = createAccountRequest_Currency req \<and>
       Account_ID a \<notin> account_ids (db w)
     else status rsp = 403 \<and> same_tables (db w) (db w'))"
proof -
  define i :: int64 where "i = word_of_int (int (account_seq (db w)) + 1)"
  have nv: "nextval (account_seq (db w)) = Inr (i, account_seq (db w) + 1)"
    using nextval_ok [OF seq] by (simp only: i_def)
  then have "lookup Account_ID i (accounts (db w)) = None"
    using ok by (auto simp: db_ok_def accounts_ok_def intro: ids_within_fresh)
  then have fresh: "lookup Account_ID i (accounts (db w)) = None" "i \<notin> account_ids (db w)"
    by (auto simp: lookup_None_iff account_ids_def)
  show ?thesis
    unfolding run_createAccount [OF valid net] sql_CreateAccount_def nv
    using fresh by (auto simp: Let_def lookup_None_iff usernames_def same_tables_iff)
qed

abbreviation payload_of_bob :: Payload where
  "payload_of_bob \<equiv> \<lparr>Payload_ID = 0, Payload_Username = ''bob'', Payload_IssuedAt = 0, Payload_ExpiredAt = 9\<rparr>"

theorem createAccount_outcome_witness:
  "\<exists>a w' rsp w''. run (createAccount example_env payload_of_bob (Some \<lparr>createAccountRequest_Currency = ''EUR''\<rparr>)) example_world =
      (\<lparr>status = 200, replay_header = False, resp_body = AccountBody a\<rparr>, w') \<and>
    accounts (db w') = accounts example_db @ [a] \<and> Account_Owner a = ''bob'' \<and> Account_Balance a = 0 \<and>
    run (createAccount example_env payload_of_bob (Some \<lparr>createAccountRequest_Currency = ''USD''\<rparr>)) example_world = (rsp, w'') \<and>
    status rsp = 403 \<and> same_tables example_db (db w'')"
proof -
  have valid: "createAccountRequest_valid \<lparr>createAccountRequest_Currency = c\<rparr>" if "c = ''EUR'' \<or> c = ''USD''" for c
    using that by (auto simp: createAccountRequest_valid_def tag_required_def validCurrency_def IsSupportedCurrency_def)
  note outcome = createAccount_outcome [of example_env example_world _ payload_of_bob, OF _ _ _ valid]
  from outcome [of "''EUR''"] outcome [of "''USD''"] example_db_ok show ?thesis
    by (auto simp: example_defs usernames_def)
qed

text \<open>
  \<open>GET /accounts/:id\<close> changes nothing and shows an account to nobody but its owner: the
  answer is 200 exactly when the read succeeds, the account exists and belongs to the
  authenticated user, and then the body is that account.
\<close>

theorem getAccount_owner_only:
  "db (snd (run (getAccount E p uri) w)) = db w \<and>
   (status (fst (run (getAccount E p uri) w)) = 200 \<longleftrightarrow> net E (tick w) = NoFault \<and>
     (\<exists>req a. uri = Some req \<and> getAccountRequest_valid req \<and>
        lookup Account_ID (getAccountRequest_ID req) (accounts (db w)) = Some a \<and>
        Account_Owner a = Payload_Username p \<and>
        fst (run (getAccount E p uri) w) =
          \<lparr>status = 200, replay_header = False, resp_body = AccountBody a\<rparr>))"
  by (auto simp: getAccount_def ShouldBind_def GetAccount_def sql_GetAccount_def run_query run_JSON
      split: option.splits fault.splits sum.splits)

text \<open>The accounts of a user in the order of their ids.\<close>

definition own_accounts :: "string \<Rightarrow> database \<Rightarrow> Account list" where
  "own_accounts u d =
     sort_key (\<lambda>a. sint (Account_ID a)) (filter (\<lambda>a. Account_Owner a = u) (accounts d))"

text \<open>
  The product \<open>(page_id - 1) * page_size\<close>, and the offset the handler makes of it in 32 bits, which
  is the product if it fits an \<open>int32\<close> and wraps around otherwise.
\<close>

definition page_offset :: "listAccountRequest \<Rightarrow> int" where
  "page_offset req = (sint (listAccountRequest_PageId req) - 1) * sint (listAccountRequest_PageSize req)"

definition wrapped_int32 :: "int \<Rightarrow> int" where
  "wrapped_int32 k = (k + 2 ^ 31) mod 2 ^ 32 - 2 ^ 31"

lemma sint_wrapped: "sint (word_of_int k :: int32) = wrapped_int32 k"
  by (simp add: wrapped_int32_def int_word_sint)

lemma wrapped_int32_fits: "0 \<le> k \<Longrightarrow> wrapped_int32 k = k \<longleftrightarrow> k < 2 ^ 31"
proof
  assume k: "0 \<le> k" and "wrapped_int32 k = k"
  moreover have "(k + 2 ^ 31) mod 2 ^ 32 < (2 ^ 32 :: int)" by simp
  ultimately show "k < 2 ^ 31" by (simp add: wrapped_int32_def)
qed (simp add: wrapped_int32_def)

lemma listAccounts_offset:
  "sint ((listAccountRequest_PageId req - 1) * listAccountRequest_PageSize req) = wrapped_int32 (page_offset req)"
proof -
  have "(listAccountRequest_PageId req - 1) * listAccountRequest_PageSize req = word_of_int (page_offset req)"
    by (simp add: page_offset_def)
  then show ?thesis using sint_wrapped by metis
qed

text \<open>
  C38: \<open>GET /accounts\<close> with a valid page id and size, on a calm connection, returns page \<open>page_id\<close> of the
  user's own accounts in the order of their ids if and as long as the offset \<open>(page_id - 1) * page_size\<close> fits an \<open>int32\<close>.
  Beyond that the 32-bit product wraps around: to an offset below zero, which the database refuses, so
  that a valid request is answered with 500; or to a smaller one, and the answer is 200 with the
  accounts from there instead of an empty page. No row changes.
\<close>

theorem listAccounts_wraps:
  assumes "net E (tick w) = NoFault" and "listAccountRequest_valid req"
  shows "(wrapped_int32 (page_offset req) = page_offset req \<longleftrightarrow> page_offset req < 2 ^ 31) \<and>
    (if wrapped_int32 (page_offset req) < 0
     then \<exists>e. run (listAccounts E p (Some req)) w =
       (\<lparr>status = 500, replay_header = False, resp_body = ErrorBody e\<rparr>, w\<lparr>tick := Suc (tick w)\<rparr>)
     else run (listAccounts E p (Some req)) w =
       (\<lparr>status = 200, replay_header = False, resp_body = AccountsBody
          (take (nat (sint (listAccountRequest_PageSize req)))
            (drop (nat (wrapped_int32 (page_offset req))) (own_accounts (Payload_Username p) (db w))))\<rparr>,
        w\<lparr>tick := Suc (tick w)\<rparr>))"
proof
  have "1 \<le> sint (listAccountRequest_PageId req)" "5 \<le> sint (listAccountRequest_PageSize req)"
    using assms(2) by (simp_all add: listAccountRequest_valid_def)
  then have "0 \<le> page_offset req" and size: "\<not> sint (listAccountRequest_PageSize req) < 0"
    by (simp_all add: page_offset_def)
  then show "wrapped_int32 (page_offset req) = page_offset req \<longleftrightarrow> page_offset req < 2 ^ 31" by (intro wrapped_int32_fits)
  show "if wrapped_int32 (page_offset req) < 0
     then \<exists>e. run (listAccounts E p (Some req)) w =
       (\<lparr>status = 500, replay_header = False, resp_body = ErrorBody e\<rparr>, w\<lparr>tick := Suc (tick w)\<rparr>)
     else run (listAccounts E p (Some req)) w =
       (\<lparr>status = 200, replay_header = False, resp_body = AccountsBody
          (take (nat (sint (listAccountRequest_PageSize req)))
            (drop (nat (wrapped_int32 (page_offset req))) (own_accounts (Payload_Username p) (db w))))\<rparr>,
        w\<lparr>tick := Suc (tick w)\<rparr>)"
    using assms size
    by (simp add: listAccounts_def ListAccounts_def sql_ListAccounts_def page_def listAccounts_offset
        run_query_ok run_JSON own_accounts_def)
qed

text \<open>Page 536870913 of size 8 is page 1 again, and page 268435457 is answered with 500.\<close>

theorem listAccounts_wraps_witness:
  "resp_body (fst (run (listAccounts example_env payload_of_bob
       (Some \<lparr>listAccountRequest_PageId = 536870913, listAccountRequest_PageSize = 8\<rparr>)) example_world)) =
     AccountsBody [example_account 2 ''bob'' 5] \<and>
   status (fst (run (listAccounts example_env payload_of_bob
       (Some \<lparr>listAccountRequest_PageId = 268435457, listAccountRequest_PageSize = 8\<rparr>)) example_world)) = 500"
proof -
  have valid: "listAccountRequest_valid \<lparr>listAccountRequest_PageId = i, listAccountRequest_PageSize = 8\<rparr>"
    if "i = 536870913 \<or> i = 268435457" for i
    using that by (auto simp: listAccountRequest_valid_def tag_required_int_def)
  show ?thesis
    using listAccounts_wraps [of example_env example_world "\<lparr>listAccountRequest_PageId = 536870913, listAccountRequest_PageSize = 8\<rparr>"
        payload_of_bob] valid [of 536870913]
      listAccounts_wraps [of example_env example_world "\<lparr>listAccountRequest_PageId = 268435457, listAccountRequest_PageSize = 8\<rparr>"
        payload_of_bob] valid [of 268435457]
    by (auto simp: page_offset_def wrapped_int32_def own_accounts_def example_defs)
qed

end
