(* ===== verification/Api_Transfer.thy ===== *)
theory Api_Transfer
  imports Api_Account
begin

text \<open>\<open>api/transfer.go\<close>: \<open>POST /transfers\<close> with and without an \<open>Idempotency-Key\<close>.\<close>

record transferRequest =
  transferRequest_FromAccountID :: int64
  transferRequest_ToAccountID :: int64
  transferRequest_Amount :: int64
  transferRequest_Currency :: string

definition transferRequest_valid :: "transferRequest \<Rightarrow> bool" where
  "transferRequest_valid r \<longleftrightarrow>
     tag_required_int (transferRequest_FromAccountID r) \<and> 1 \<le> sint (transferRequest_FromAccountID r) \<and>
     tag_required_int (transferRequest_ToAccountID r) \<and> 1 \<le> sint (transferRequest_ToAccountID r) \<and>
     tag_required_int (transferRequest_Amount r) \<and> 0 < sint (transferRequest_Amount r) \<and>
     tag_required (transferRequest_Currency r) \<and> validCurrency (transferRequest_Currency r)"

text \<open>\<open>validAccount\<close> writes the response itself when it refuses: then it returns \<open>Inl\<close> of it.\<close>

definition validAccount :: "env \<Rightarrow> int64 \<Rightarrow> string \<Rightarrow> (response + Account) op" where
  "validAccount E accountID currency = do {
     a \<leftarrow> GetAccount E accountID;
     case a of
       Inl err \<Rightarrow> do {
         rsp \<leftarrow> (if err = ErrNoRows then errorJSON StatusNotFound err
                else errorJSON StatusInternalServerError err);
         ret (Inl rsp)
       }
     | Inr account \<Rightarrow>
         if Account_Currency account \<noteq> currency then do {
           rsp \<leftarrow> errorJSON StatusBadRequest
             (Errorf (''account '' @ show_int64 (Account_ID account) @ '' currency mismatch: '' @
                Account_Currency account @ '' vs '' @ currency));
           ret (Inl rsp)
         }
         else ret (Inr account)
   }"

definition maxIdempotencyKeyLen :: nat where
  "maxIdempotencyKeyLen = 128"

text \<open>The text whose digest is the fingerprint: \<open>"%d:%d:%d:%s"\<close>.\<close>

definition fingerprint_text :: "transferRequest \<Rightarrow> string" where
  "fingerprint_text req =
     show_int64 (transferRequest_FromAccountID req) @ '':'' @
     show_int64 (transferRequest_ToAccountID req) @ '':'' @
     show_int64 (transferRequest_Amount req) @ '':'' @ transferRequest_Currency req"

definition requestFingerprint :: "env \<Rightarrow> transferRequest \<Rightarrow> string" where
  "requestFingerprint E req = hex_encode (sha256_Sum E (fingerprint_text req))"

definition replayIdempotentTransfer :: "env \<Rightarrow> string \<Rightarrow> string \<Rightarrow> string \<Rightarrow> response op" where
  "replayIdempotentTransfer E owner key fingerprint = do {
     s \<leftarrow> GetIdempotencyKey E (owner, key);
     case s of
       Inl err \<Rightarrow> errorJSON StatusInternalServerError err
     | Inr stored \<Rightarrow>
         if IdempotencyKey_RequestHash stored \<noteq> fingerprint then
           errorJSON StatusConflict
             (Errorf ''Idempotency-Key was already used for a different transfer'')
         else if IdempotencyKey_ResponseBody stored = '''' then
           errorJSON StatusConflict (Errorf ''Idempotency-Key is still being processed'')
         else ret \<lparr>status = StatusOK, replay_header = True,
                    resp_body = DataBody (IdempotencyKey_ResponseBody stored)\<rparr>
   }"

definition insufficient_balance :: "int64 \<Rightarrow> error" where
  "insufficient_balance i = Errorf (''insufficient balance in account '' @ show_int64 i)"

definition createTransferIdempotent ::
    "env \<Rightarrow> transferRequest \<Rightarrow> TransferTxParams \<Rightarrow> string \<Rightarrow> string \<Rightarrow> response op" where
  "createTransferIdempotent E req arg owner key =
     (if length key > maxIdempotencyKeyLen then
        errorJSON StatusBadRequest (Errorf (''Idempotency-Key must be at most '' @
          show_nat maxIdempotencyKeyLen @ '' characters''))
      else
        let fingerprint = requestFingerprint E req in do {
          r \<leftarrow> IdempotentTransferTx E
            \<lparr>IdempotentTransferTxParams_TransferTxParams = arg,
             IdempotentTransferTxParams_Owner = owner,
             IdempotentTransferTxParams_Key = key,
             IdempotentTransferTxParams_RequestHash = fingerprint\<rparr>;
          case r of
            Inr result \<Rightarrow> JSON StatusOK (TransferBody result)
          | Inl err \<Rightarrow>
              (case err of
                 PqError name constraint \<Rightarrow>
                   if name = ''unique_violation'' then
                     replayIdempotentTransfer E owner key fingerprint
                   else if constraint = ''accounts_balance_non_negative'' then
                     errorJSON StatusBadRequest
                       (insufficient_balance (transferRequest_FromAccountID req))
                   else errorJSON StatusInternalServerError err
               | _ \<Rightarrow> errorJSON StatusInternalServerError err)
        })"

definition createTransfer ::
    "env \<Rightarrow> Payload \<Rightarrow> string \<Rightarrow> transferRequest option \<Rightarrow> response op" where
  "createTransfer E authPayload key body =
     (case ShouldBind transferRequest_valid body of
        Inl err \<Rightarrow> errorJSON StatusBadRequest err
      | Inr req \<Rightarrow>
          if transferRequest_FromAccountID req = transferRequest_ToAccountID req then
            errorJSON StatusBadRequest
              (Errorf (''from_account_id '' @ show_int64 (transferRequest_FromAccountID req) @
                 '' is the same as to_account_id '' @ show_int64 (transferRequest_ToAccountID req)))
          else do {
            f \<leftarrow> validAccount E (transferRequest_FromAccountID req) (transferRequest_Currency req);
            case f of
              Inl rsp \<Rightarrow> ret rsp
            | Inr fromAccount \<Rightarrow>
                if Account_Owner fromAccount \<noteq> Payload_Username authPayload then
                  errorJSON StatusUnauthorized
                    (Errorf (''from_account '' @ show_int64 (transferRequest_FromAccountID req) @
                       '' doesn't belong to the authenticated user '' @ Payload_Username authPayload))
                else do {
                  t \<leftarrow> validAccount E (transferRequest_ToAccountID req) (transferRequest_Currency req);
                  case t of
                    Inl rsp \<Rightarrow> ret rsp
                  | Inr _ \<Rightarrow>
                      let arg = \<lparr>TransferTxParams_FromAccountID = transferRequest_FromAccountID req,
                                 TransferTxParams_ToAccountID = transferRequest_ToAccountID req,
                                 TransferTxParams_Amount = transferRequest_Amount req\<rparr> in
                      if key \<noteq> '''' then
                        createTransferIdempotent E req arg (Payload_Username authPayload) key
                      else do {
                        r \<leftarrow> TransferTx E arg;
                        case r of
                          Inr result \<Rightarrow> JSON StatusOK (TransferBody result)
                        | Inl err \<Rightarrow>
                            (case err of
                               PqError _ constraint \<Rightarrow>
                                 if constraint = ''accounts_balance_non_negative'' then
                                   errorJSON StatusBadRequest
                                     (insufficient_balance (transferRequest_FromAccountID req))
                                 else errorJSON StatusInternalServerError err
                             | _ \<Rightarrow> errorJSON StatusInternalServerError err)
                      }
                }
          })"

section \<open>The stages of the handler\<close>

lemma validAccount_cases:
  assumes "run (validAccount E i cur) w = (res, w1)"
  shows "db w1 = db w \<and> tx_start w1 = tx_start w \<and> tick w1 = Suc (tick w) \<and>
    (case res of
       Inl rsp \<Rightarrow> status rsp \<noteq> 200
     | Inr a \<Rightarrow> lookup Account_ID i (accounts (db w)) = Some a \<and> Account_Currency a = cur)"
  using assms
  by (auto simp: validAccount_def GetAccount_def sql_GetAccount_def run_query run_JSON
      split: fault.splits if_splits sum.splits prod.splits)

text \<open>The last stage of \<open>createTransfer\<close> without a key, from the call of \<open>TransferTx\<close> on.\<close>

definition transfer_plainly :: "env \<Rightarrow> transferRequest \<Rightarrow> TransferTxParams \<Rightarrow> response op" where
  "transfer_plainly E req arg = do {
     r \<leftarrow> TransferTx E arg;
     case r of
       Inr result \<Rightarrow> JSON StatusOK (TransferBody result)
     | Inl err \<Rightarrow>
         (case err of
            PqError _ constraint \<Rightarrow>
              if constraint = ''accounts_balance_non_negative'' then
                errorJSON StatusBadRequest (insufficient_balance (transferRequest_FromAccountID req))
              else errorJSON StatusInternalServerError err
          | _ \<Rightarrow> errorJSON StatusInternalServerError err)
   }"

definition transfer_params :: "transferRequest \<Rightarrow> TransferTxParams" where
  "transfer_params req =
     \<lparr>TransferTxParams_FromAccountID = transferRequest_FromAccountID req,
      TransferTxParams_ToAccountID = transferRequest_ToAccountID req,
      TransferTxParams_Amount = transferRequest_Amount req\<rparr>"

text \<open>What a user may ask for: a transfer out of an own account, all in one currency.\<close>

definition authorized :: "Payload \<Rightarrow> transferRequest \<Rightarrow> database \<Rightarrow> bool" where
  "authorized p req d \<longleftrightarrow>
     transferRequest_valid req \<and>
     transferRequest_FromAccountID req \<noteq> transferRequest_ToAccountID req \<and>
     (\<exists>a. lookup Account_ID (transferRequest_FromAccountID req) (accounts d) = Some a \<and>
        Account_Owner a = Payload_Username p \<and> Account_Currency a = transferRequest_Currency req) \<and>
     (\<exists>b. lookup Account_ID (transferRequest_ToAccountID req) (accounts d) = Some b \<and>
        Account_Currency b = transferRequest_Currency req)"

lemma createTransfer_stages:
  assumes run: "run (createTransfer E p key body) w = (rsp, w')"
  obtains (refused) "db w' = db w" "status rsp \<noteq> 200"
  | (entered) req w1 where "body = Some req" "authorized p req (db w)" "db w1 = db w"
      "run (if key \<noteq> '''' then createTransferIdempotent E req (transfer_params req) (Payload_Username p) key
            else transfer_plainly E req (transfer_params req)) w1 = (rsp, w')"
proof (cases "\<exists>req. body = Some req \<and> transferRequest_valid req \<and>
    transferRequest_FromAccountID req \<noteq> transferRequest_ToAccountID req")
  case False
  with run show thesis
    by (intro refused) (auto simp: createTransfer_def ShouldBind_def run_JSON split: option.splits if_splits)
next
  case True
  then obtain req where req: "body = Some req" "transferRequest_valid req"
    "transferRequest_FromAccountID req \<noteq> transferRequest_ToAccountID req" by auto
  obtain f w1 where f: "run (validAccount E (transferRequest_FromAccountID req)
      (transferRequest_Currency req)) w = (f, w1)" by fastforce
  obtain t w2 where t: "run (validAccount E (transferRequest_ToAccountID req)
      (transferRequest_Currency req)) w1 = (t, w2)" by fastforce
  note vf = validAccount_cases [OF f] and vt = validAccount_cases [OF t]
  show thesis
  proof (cases f)
    case (Inl r)
    with run req f vf show thesis by (intro refused) (auto simp: createTransfer_def)
  next
    case a: (Inr a)
    show thesis
    proof (cases "Account_Owner a = Payload_Username p")
      case False
      with run req f vf a show thesis by (intro refused) (auto simp: createTransfer_def run_JSON)
    next
      case owner: True
      show thesis
      proof (cases t)
        case (Inl r)
        with run req f t vf vt a owner show thesis by (intro refused) (auto simp: createTransfer_def)
      next
        case (Inr b)
        with run req f t vf vt a owner show thesis
          by (intro entered [of req w2])
            (auto simp: createTransfer_def authorized_def transfer_plainly_def transfer_params_def Let_def)
      qed
    qed
  qed
qed

lemma transfer_plainly_cases:
  assumes "run (transfer_plainly E req arg) w = (rsp, w')"
  obtains (ok) r where "rsp = \<lparr>status = 200, replay_header = False, resp_body = TransferBody r\<rparr>"
      "run (TransferTx E arg) w = (Inr r, w')"
  | (failed) e where "status rsp \<in> {400, 500}" "run (TransferTx E arg) w = (Inl e, w')"
      "status rsp = 400 \<longleftrightarrow> (\<exists>name. e = PqError name ''accounts_balance_non_negative'')"
  using assms
  by (auto simp: transfer_plainly_def run_JSON split: prod.splits sum.splits error.splits if_splits)

lemma TransferTx_InlD:
  assumes "run (TransferTx E arg) w = (Inl e, w')"
  shows "same_tables (db w) (db w') \<or> (\<exists>r m. transferred arg r (db w) (db w') \<and> e = OtherErr m)"
  using execTx_InlD [OF assms [unfolded TransferTx_def]]
  by (auto dest!: transferTx_transferred)

section \<open>Properties\<close>

text \<open>
  C21: \<open>POST /transfers\<close> without a key, whatever the network does. An answer 200 means that
  the request was a valid one of the owner of the account to debit, with both accounts in
  its currency, and that exactly this transfer was committed and is in the body. Any other
  answer means that no row has changed, except when the answer to an executed commit of
  such a transfer was lost, which the client sees as a 500.
\<close>

theorem createTransfer_sound:
  "case run (createTransfer E p '''' body) w of (rsp, w') \<Rightarrow>
     if status rsp = 200 then
       \<exists>req r. body = Some req \<and> authorized p req (db w) \<and> resp_body rsp = TransferBody r \<and>
         transferred (transfer_params req) r (db w) (db w') \<and>
         abs_transfer (transferRequest_FromAccountID req) (transferRequest_ToAccountID req)
           (sint (transferRequest_Amount req)) (abs_ledger (db w)) = Some (abs_ledger (db w'))
     else same_tables (db w) (db w') \<or>
       status rsp = 500 \<and> (\<exists>req r. body = Some req \<and> authorized p req (db w) \<and>
         transferred (transfer_params req) r (db w) (db w'))"
proof (cases "run (createTransfer E p '''' body) w")
  case (Pair rsp w')
  then show ?thesis
  proof (cases rule: createTransfer_stages)
    case refused
    with Pair show ?thesis by simp
  next
    case (entered req w1)
    then have "run (transfer_plainly E req (transfer_params req)) w1 = (rsp, w')" by simp
    then show ?thesis
    proof (cases rule: transfer_plainly_cases)
      case (ok r)
      with TransferTx_rows [OF ok(2)] entered Pair show ?thesis
        by (auto simp: transfer_params_def authorized_def)
    next
      case (failed e)
      with TransferTx_InlD [OF failed(2)] entered Pair show ?thesis by auto
    qed
  qed
qed

lemma run_validAccount_calm:
  "net E (tick w) = NoFault \<Longrightarrow> lookup Account_ID i (accounts (db w)) = Some a \<Longrightarrow>
   Account_Currency a = cur \<Longrightarrow> run (validAccount E i cur) w = (Inr a, w\<lparr>tick := Suc (tick w)\<rparr>)"
  by (simp add: validAccount_def GetAccount_def run_query_ok sql_GetAccount_def)

lemma run_createTransfer_authorized:
  assumes "\<And>n. tick w \<le> n \<Longrightarrow> net E n = NoFault" and "authorized p req (db w)"
  shows "run (createTransfer E p key (Some req)) w =
    run (if key \<noteq> '''' then createTransferIdempotent E req (transfer_params req) (Payload_Username p) key
         else transfer_plainly E req (transfer_params req)) (w\<lparr>tick := Suc (Suc (tick w))\<rparr>)"
  using assms
  by (auto simp: createTransfer_def authorized_def run_validAccount_calm transfer_plainly_def
      transfer_params_def Let_def)

lemma run_transfer_plainly:
  assumes "run (TransferTx E arg) w = (r, w')"
  shows "run (transfer_plainly E req arg) w =
    (case r of
       Inr result \<Rightarrow> \<lparr>status = 200, replay_header = False, resp_body = TransferBody result\<rparr>
     | Inl (PqError name c) \<Rightarrow>
         if c = ''accounts_balance_non_negative''
         then \<lparr>status = 400, replay_header = False,
                resp_body = ErrorBody (insufficient_balance (transferRequest_FromAccountID req))\<rparr>
         else \<lparr>status = 500, replay_header = False, resp_body = ErrorBody (PqError name c)\<rparr>
     | Inl err \<Rightarrow> \<lparr>status = 500, replay_header = False, resp_body = ErrorBody err\<rparr>, w')"
  using assms by (auto simp: transfer_plainly_def run_JSON split: sum.splits error.splits)

text \<open>The balance check is the only one an authorized transfer that fits can violate.\<close>

lemma authorized_transfer_error:
  assumes "db_ok d" and "authorized p req d"
    and fits: "balance_of (transferRequest_ToAccountID req) d + sint (transferRequest_Amount req) \<le> max_int64"
  shows "transfer_error (transfer_params req) d =
    (if sint (transferRequest_Amount req) \<le> balance_of (transferRequest_FromAccountID req) d then None
     else Some (check_violation ''accounts_balance_non_negative''))"
proof -
  let ?x = "transferRequest_Amount req"
  from assms(2) obtain a b where ab:
    "lookup Account_ID (transferRequest_FromAccountID req) (accounts d) = Some a"
    "lookup Account_ID (transferRequest_ToAccountID req) (accounts d) = Some b"
    and x: "0 < sint ?x" by (auto simp: authorized_def transferRequest_valid_def)
  from ab assms(1) have nonneg: "0 \<le> sint (Account_Balance a)" "0 \<le> sint (Account_Balance b)"
    by (auto simp: db_ok_def accounts_ok_def dest: lookup_SomeD)
  have m: "sint (- ?x) = - sint ?x" using x by (intro sint64_minus) simp
  have "sint (Account_Balance b) + sint ?x \<le> max_int64" using fits ab by (simp add: balance_of_def)
  then have "balance_error (sint (Account_Balance b) + sint ?x) = None"
    using nonneg x by (simp add: balance_error_def in_int64_def)
  moreover have "balance_error (sint (Account_Balance a) + sint (- ?x)) =
      (if sint ?x \<le> sint (Account_Balance a) then None
       else Some (check_violation ''accounts_balance_non_negative''))"
  proof -
    have "sint (Account_Balance a) - sint ?x \<le> max_int64" "min_int64 \<le> sint (Account_Balance a) - sint ?x"
      using nonneg x sint64_bounds [of "Account_Balance a"] sint64_bounds [of ?x] by linarith+
    then show ?thesis by (simp add: balance_error_def in_int64_def m)
  qed
  ultimately show ?thesis
    using ab by (simp add: transfer_error_def update_error_def transfer_params_def balance_of_def Let_def)
qed

text \<open>
  C22: On a calm connection an authorized \<open>POST /transfers\<close> whose credit fits the other
  balance is decided by the balance alone: with enough money it is answered 200 and both
  balances have changed by the amount, without it is answered 400 with the text
  \<open>insufficient balance in account n\<close> and no row has changed.
\<close>

theorem createTransfer_decided_by_balance:
  assumes net: "\<And>n. net E n = NoFault" and ok: "db_ok (db w)" and auth: "authorized p req (db w)"
    and "int (transfer_seq (db w)) < max_int64" and "int (entry_seq (db w)) + 1 < max_int64"
    and fits: "balance_of (transferRequest_ToAccountID req) (db w) + sint (transferRequest_Amount req)
      \<le> max_int64"
  shows "case run (createTransfer E p '''' (Some req)) w of (rsp, w') \<Rightarrow>
    if sint (transferRequest_Amount req) \<le> balance_of (transferRequest_FromAccountID req) (db w) then
      status rsp = 200 \<and>
      abs_ledger (db w') = (abs_ledger (db w))
        (transferRequest_FromAccountID req \<mapsto>
           balance_of (transferRequest_FromAccountID req) (db w) - sint (transferRequest_Amount req),
         transferRequest_ToAccountID req \<mapsto>
           balance_of (transferRequest_ToAccountID req) (db w) + sint (transferRequest_Amount req))
    else rsp = \<lparr>status = 400, replay_header = False,
             resp_body = ErrorBody (insufficient_balance (transferRequest_FromAccountID req))\<rparr> \<and>
      same_tables (db w) (db w')"
proof -
  let ?w = "w\<lparr>tick := Suc (Suc (tick w))\<rparr>" and ?arg = "transfer_params req"
  have ne: "TransferTxParams_FromAccountID ?arg \<noteq> TransferTxParams_ToAccountID ?arg"
    using auth by (simp add: authorized_def transfer_params_def)
  have calm: "case abs_transfer (TransferTxParams_FromAccountID ?arg) (TransferTxParams_ToAccountID ?arg)
      (sint (TransferTxParams_Amount ?arg)) (abs_ledger (db w)) of
      Some L \<Rightarrow> \<exists>r w'. run (TransferTx E ?arg) ?w = (Inr r, w') \<and> abs_ledger (db w') = L
    | None \<Rightarrow> \<exists>e w'. run (TransferTx E ?arg) ?w = (Inl e, w') \<and> same_tables (db w) (db w') \<and>
        transfer_error ?arg (db w) = Some e"
  proof -
    have d: "db ?w = db w" by simp
    show ?thesis using TransferTx_calm [OF net _ _ _ ne, of ?w, unfolded d] assms by blast
  qed
  note err = authorized_transfer_error [OF ok auth fits] and abs = transfer_error_abs [OF ok, of ?arg]
  note handler = run_createTransfer_authorized [OF net auth, of "''''"]
  show ?thesis
  proof (cases "sint (transferRequest_Amount req) \<le> balance_of (transferRequest_FromAccountID req) (db w)")
    case True
    then obtain L where L: "abs_transfer (TransferTxParams_FromAccountID ?arg)
        (TransferTxParams_ToAccountID ?arg) (sint (TransferTxParams_Amount ?arg)) (abs_ledger (db w)) = Some L"
      using err abs by auto
    with calm obtain r w' where "run (TransferTx E ?arg) ?w = (Inr r, w')" "abs_ledger (db w') = L" by auto
    with L True handler show ?thesis
      by (auto simp: run_transfer_plainly abs_transfer_def abs_ledger_def balance_of_def transfer_params_def
          split: option.splits if_splits)
  next
    case False
    then have "abs_transfer (TransferTxParams_FromAccountID ?arg) (TransferTxParams_ToAccountID ?arg)
        (sint (TransferTxParams_Amount ?arg)) (abs_ledger (db w)) = None" using err abs by auto
    with calm err False obtain w' where
      "run (TransferTx E ?arg) ?w = (Inl (check_violation ''accounts_balance_non_negative''), w')"
      "same_tables (db w) (db w')" by auto
    with False handler show ?thesis by (simp add: run_transfer_plainly)
  qed
qed

text \<open>
  C37: The text that is hashed determines the request, so two requests have the same
  fingerprint exactly when they are equal or SHA-256 collides on their texts.
\<close>

theorem requestFingerprint_determines:
  "(fingerprint_text r1 = fingerprint_text r2 \<longleftrightarrow> r1 = r2) \<and>
   (requestFingerprint E r1 = requestFingerprint E r2 \<longleftrightarrow>
      sha256_Sum E (fingerprint_text r1) = sha256_Sum E (fingerprint_text r2))"
proof
  show "requestFingerprint E r1 = requestFingerprint E r2 \<longleftrightarrow>
      sha256_Sum E (fingerprint_text r1) = sha256_Sum E (fingerprint_text r2)"
    by (simp add: requestFingerprint_def hex_encode_inj)
  have "r1 = r2" if eq: "fingerprint_text r1 = fingerprint_text r2"
  proof -
    note cut = split_at_separator [where c = "CHR '':''", OF _ show_int64_no_colon show_int64_no_colon]
    from eq have eq1: "show_int64 (transferRequest_FromAccountID r1) @ CHR '':'' #
        (show_int64 (transferRequest_ToAccountID r1) @ CHR '':'' #
          (show_int64 (transferRequest_Amount r1) @ CHR '':'' # transferRequest_Currency r1)) =
      show_int64 (transferRequest_FromAccountID r2) @ CHR '':'' #
        (show_int64 (transferRequest_ToAccountID r2) @ CHR '':'' #
          (show_int64 (transferRequest_Amount r2) @ CHR '':'' # transferRequest_Currency r2))"
      by (simp add: fingerprint_text_def)
    from cut [OF eq1] have f: "transferRequest_FromAccountID r1 = transferRequest_FromAccountID r2"
      and eq2: "show_int64 (transferRequest_ToAccountID r1) @ CHR '':'' #
          (show_int64 (transferRequest_Amount r1) @ CHR '':'' # transferRequest_Currency r1) =
        show_int64 (transferRequest_ToAccountID r2) @ CHR '':'' #
          (show_int64 (transferRequest_Amount r2) @ CHR '':'' # transferRequest_Currency r2)"
      by (simp_all add: show_int64_inj)
    from cut [OF eq2] have t: "transferRequest_ToAccountID r1 = transferRequest_ToAccountID r2"
      and eq3: "show_int64 (transferRequest_Amount r1) @ CHR '':'' # transferRequest_Currency r1 =
        show_int64 (transferRequest_Amount r2) @ CHR '':'' # transferRequest_Currency r2"
      by (simp_all add: show_int64_inj)
    from cut [OF eq3] f t show ?thesis by (simp add: show_int64_inj)
  qed
  then show "fingerprint_text r1 = fingerprint_text r2 \<longleftrightarrow> r1 = r2" by auto
qed

definition example_payload :: "string \<Rightarrow> Payload" where
  "example_payload u = \<lparr>Payload_ID = 7, Payload_Username = u, Payload_IssuedAt = 0, Payload_ExpiredAt = 1000\<rparr>"

definition example_request :: "int64 \<Rightarrow> transferRequest" where
  "example_request x = \<lparr>transferRequest_FromAccountID = 1, transferRequest_ToAccountID = 2,
     transferRequest_Amount = x, transferRequest_Currency = ''USD''\<rparr>"

lemma example_authorized:
  "0 < sint x \<Longrightarrow> authorized (example_payload ''ann'') (example_request x) example_db"
  by (auto simp: authorized_def transferRequest_valid_def example_payload_def example_request_def
      tag_required_int_def tag_required_def validCurrency_def IsSupportedCurrency_def example_defs)

theorem createTransfer_decided_by_balance_witness:
  "status (fst (run (createTransfer example_env (example_payload ''ann'') '''' (Some (example_request 101)))
     example_world)) = 400 \<and>
   status (fst (run (createTransfer example_env (example_payload ''ann'') '''' (Some (example_request 100)))
     example_world)) = 200"
proof -
  have b: "balance_of 1 example_db = 100" "balance_of 2 example_db = 5"
    by (simp_all add: balance_of_def example_defs)
  have "0 < sint (100 :: int64)" "0 < sint (101 :: int64)" by simp_all
  note auth = this [THEN example_authorized]
  show ?thesis
    using createTransfer_decided_by_balance [of example_env example_world "example_payload ''ann''" "example_request 100"]
      createTransfer_decided_by_balance [of example_env example_world "example_payload ''ann''" "example_request 101"]
      auth example_db_ok b
    by (simp add: example_request_def split_beta)
qed

end
