(* ===== verification/Api_User.thy ===== *)
theory Api_User
  imports Api_Transfer
begin

text \<open>\<open>api/user.go\<close>, \<open>api/token.go\<close>, \<open>api/logout.go\<close>: users and their sessions.\<close>

section \<open>Users\<close>

record createUserRequest =
  createUserRequest_Username :: string
  createUserRequest_Password :: string
  createUserRequest_FullName :: string
  createUserRequest_Email :: string

definition createUserRequest_valid :: "env \<Rightarrow> createUserRequest \<Rightarrow> bool" where
  "createUserRequest_valid E r \<longleftrightarrow>
     tag_required (createUserRequest_Username r) \<and> tag_alphanum (createUserRequest_Username r) \<and>
     tag_required (createUserRequest_Password r) \<and> tag_min 6 (createUserRequest_Password r) \<and>
     tag_required (createUserRequest_FullName r) \<and>
     tag_required (createUserRequest_Email r) \<and> email_tag E (createUserRequest_Email r)"

definition newUserResponse :: "User \<Rightarrow> userResponse" where
  "newUserResponse user =
     \<lparr>userResponse_Username = User_Username user, userResponse_FullName = User_FullName user,
      userResponse_Email = User_Email user,
      userResponse_PasswordChangedAt = User_PasswordChangedAt user,
      userResponse_CreatedAt = User_CreatedAt user\<rparr>"

definition createUser :: "env \<Rightarrow> createUserRequest option \<Rightarrow> response op" where
  "createUser E body =
     (case ShouldBind (createUserRequest_valid E) body of
        Inl err \<Rightarrow> errorJSON StatusBadRequest err
      | Inr req \<Rightarrow> do {
          h \<leftarrow> HashPassword E (createUserRequest_Password req);
          case h of
            Inl err \<Rightarrow> errorJSON StatusInternalServerError err
          | Inr hashedPassword \<Rightarrow> do {
              u \<leftarrow> CreateUser E
                \<lparr>CreateUserParams_Username = createUserRequest_Username req,
                 CreateUserParams_HashedPassword = hashedPassword,
                 CreateUserParams_FullName = createUserRequest_FullName req,
                 CreateUserParams_Email = createUserRequest_Email req\<rparr>;
              case u of
                Inl err \<Rightarrow>
                  (case err of
                     PqError name _ \<Rightarrow>
                       if name = ''unique_violation'' then errorJSON StatusForbidden err
                       else errorJSON StatusInternalServerError err
                   | _ \<Rightarrow> errorJSON StatusInternalServerError err)
              | Inr user \<Rightarrow> JSON StatusOK (UserBody (newUserResponse user))
            }
        })"

record loginUserRequest =
  loginUserRequest_Username :: string
  loginUserRequest_Password :: string

definition loginUserRequest_valid :: "loginUserRequest \<Rightarrow> bool" where
  "loginUserRequest_valid r \<longleftrightarrow>
     tag_required (loginUserRequest_Username r) \<and> tag_alphanum (loginUserRequest_Username r) \<and>
     tag_required (loginUserRequest_Password r) \<and> tag_min 6 (loginUserRequest_Password r)"

text \<open>\<open>userAgent\<close> and \<open>clientIP\<close> are \<open>ctx.Request.UserAgent()\<close> and \<open>ctx.ClientIP()\<close>.\<close>

definition loginUser ::
    "env \<Rightarrow> Server \<Rightarrow> string \<Rightarrow> string \<Rightarrow> loginUserRequest option \<Rightarrow> response op" where
  "loginUser E server userAgent clientIP body =
     (case ShouldBind loginUserRequest_valid body of
        Inl err \<Rightarrow> errorJSON StatusBadRequest err
      | Inr req \<Rightarrow> do {
          u \<leftarrow> GetUser E (loginUserRequest_Username req);
          case u of
            Inl err \<Rightarrow>
              if err = ErrNoRows then errorJSON StatusNotFound err
              else errorJSON StatusInternalServerError err
          | Inr user \<Rightarrow>
              (case CheckPassword E (loginUserRequest_Password req) (User_HashedPassword user) of
                 Some err \<Rightarrow> errorJSON StatusUnauthorized err
               | None \<Rightarrow> do {
                   a \<leftarrow> CreateToken (Server_tokenMaker server) (User_Username user)
                     (Config_AccessTokenDuration (Server_config server));
                   case a of
                     Inl err \<Rightarrow> errorJSON StatusInternalServerError err
                   | Inr (accessToken, accessPayload) \<Rightarrow> do {
                       f \<leftarrow> CreateToken (Server_tokenMaker server) (User_Username user)
                         (Config_RefreshTokenDuration (Server_config server));
                       case f of
                         Inl err \<Rightarrow> errorJSON StatusInternalServerError err
                       | Inr (refreshToken, refreshPayload) \<Rightarrow> do {
                           s \<leftarrow> CreateSession E
                             \<lparr>CreateSessionParams_ID = Payload_ID refreshPayload,
                              CreateSessionParams_Username = User_Username user,
                              CreateSessionParams_RefreshToken = refreshToken,
                              CreateSessionParams_UserAgent = userAgent,
                              CreateSessionParams_ClientIp = clientIP,
                              CreateSessionParams_IsBlocked = False,
                              CreateSessionParams_ExpiresAt = Payload_ExpiredAt refreshPayload\<rparr>;
                           case s of
                             Inl err \<Rightarrow> errorJSON StatusInternalServerError err
                           | Inr session \<Rightarrow> JSON StatusOK (LoginBody
                               \<lparr>loginUserResponse_SessionID = Session_ID session,
                                loginUserResponse_AccessToken = accessToken,
                                loginUserResponse_AccessTokenExpiresAt = Payload_ExpiredAt accessPayload,
                                loginUserResponse_RefreshToken = refreshToken,
                                loginUserResponse_RefreshTokenExpiresAt = Payload_ExpiredAt refreshPayload,
                                loginUserResponse_User = newUserResponse user\<rparr>)
                         }
                     }
                 })
        })"

section \<open>Renewing an access token\<close>

record renewAccessTokenRequest =
  renewAccessTokenRequest_RefreshToken :: string

definition renewAccessTokenRequest_valid :: "renewAccessTokenRequest \<Rightarrow> bool" where
  "renewAccessTokenRequest_valid r \<longleftrightarrow> tag_required (renewAccessTokenRequest_RefreshToken r)"

definition renewAccessToken ::
    "env \<Rightarrow> Server \<Rightarrow> renewAccessTokenRequest option \<Rightarrow> response op" where
  "renewAccessToken E server body =
     (case ShouldBind renewAccessTokenRequest_valid body of
        Inl err \<Rightarrow> errorJSON StatusBadRequest err
      | Inr req \<Rightarrow> do {
          v \<leftarrow> VerifyToken (Server_tokenMaker server) (renewAccessTokenRequest_RefreshToken req);
          case v of
            Inl err \<Rightarrow> errorJSON StatusUnauthorized err
          | Inr refreshPayload \<Rightarrow> do {
              s \<leftarrow> GetSession E (Payload_ID refreshPayload);
              case s of
                Inl err \<Rightarrow>
                  if err = ErrNoRows then errorJSON StatusNotFound err
                  else errorJSON StatusInternalServerError err
              | Inr session \<Rightarrow>
                  if Session_IsBlocked session then
                    errorJSON StatusUnauthorized (Errorf ''blocked session'')
                  else if Session_Username session \<noteq> Payload_Username refreshPayload then
                    errorJSON StatusUnauthorized (Errorf ''incorrect session user'')
                  else if Session_RefreshToken session \<noteq> renewAccessTokenRequest_RefreshToken req then
                    errorJSON StatusUnauthorized (Errorf ''mismatched session token'')
                  else do {
                    now \<leftarrow> time_Now E;
                    if Session_ExpiresAt session < now then
                      errorJSON StatusUnauthorized (Errorf ''expired session'')
                    else do {
                      a \<leftarrow> CreateToken (Server_tokenMaker server) (Payload_Username refreshPayload)
                        (Config_AccessTokenDuration (Server_config server));
                      case a of
                        Inl err \<Rightarrow> errorJSON StatusInternalServerError err
                      | Inr (accessToken, accessPayload) \<Rightarrow>
                          JSON StatusOK (RenewBody
                            \<lparr>renewAccessTokenResponse_AccessToken = accessToken,
                             renewAccessTokenResponse_AccessTokenExpiresAt = Payload_ExpiredAt accessPayload\<rparr>)
                    }
                  }
            }
        })"

section \<open>Signing out\<close>

record logoutRequest =
  logoutRequest_RefreshToken :: string

definition logoutRequest_valid :: "logoutRequest \<Rightarrow> bool" where
  "logoutRequest_valid r \<longleftrightarrow> tag_required (logoutRequest_RefreshToken r)"

definition logout :: "env \<Rightarrow> Server \<Rightarrow> Payload \<Rightarrow> logoutRequest option \<Rightarrow> response op" where
  "logout E server authPayload body =
     (case ShouldBind logoutRequest_valid body of
        Inl err \<Rightarrow> errorJSON StatusBadRequest err
      | Inr req \<Rightarrow> do {
          v \<leftarrow> VerifyToken (Server_tokenMaker server) (logoutRequest_RefreshToken req);
          case v of
            Inl err \<Rightarrow> errorJSON StatusUnauthorized err
          | Inr refreshPayload \<Rightarrow> do {
              s \<leftarrow> GetSession E (Payload_ID refreshPayload);
              case s of
                Inl err \<Rightarrow>
                  if err = ErrNoRows then errorJSON StatusNotFound err
                  else errorJSON StatusInternalServerError err
              | Inr session \<Rightarrow>
                  if Session_Username session \<noteq> Payload_Username authPayload then
                    errorJSON StatusUnauthorized
                      (Errorf ''session doesn't belong to the authenticated user'')
                  else if Session_IsBlocked session then
                    JSON StatusOK (LogoutBody \<lparr>logoutResponse_SessionID = Session_ID session\<rparr>)
                  else do {
                    b \<leftarrow> BlockSession E (Session_ID session);
                    case b of
                      Inl err \<Rightarrow> errorJSON StatusInternalServerError err
                    | Inr blocked \<Rightarrow> JSON StatusOK (LogoutBody \<lparr>logoutResponse_SessionID = Session_ID blocked\<rparr>)
                  }
            }
        })"

definition logoutAll :: "env \<Rightarrow> Payload \<Rightarrow> response op" where
  "logoutAll E authPayload = do {
     r \<leftarrow> BlockUserSessions E (Payload_Username authPayload);
     case r of
       Inl err \<Rightarrow> errorJSON StatusInternalServerError err
     | Inr revoked \<Rightarrow> JSON StatusOK (LogoutAllBody \<lparr>logoutAllResponse_SessionsRevoked = revoked\<rparr>)
   }"

end
