(* ===== verification/Api_Server.thy ===== *)
theory Api_Server
  imports Api_User
begin

text \<open>
  \<open>health/health.go\<close>, \<open>api/health.go\<close> and the routes of \<open>api/server.go\<close>. \<open>serve\<close> is the
  router: a request carries its \<open>Authorization\<close> header where its route is behind the
  middleware.
\<close>

section \<open>Health\<close>

definition StatusLive :: string where
  "StatusLive = ''ok''"

definition StatusReady :: string where
  "StatusReady = ''ready''"

definition StatusUnavailable :: string where
  "StatusUnavailable = ''unavailable''"

text \<open>\<open>write\<close> of package \<open>health\<close>; the status goes to the header, the response to the body.\<close>

definition health_write :: "nat \<Rightarrow> HealthResponse \<Rightarrow> response op" where
  "health_write code rsp = JSON code (HealthBody rsp)"

text \<open>\<open>Live\<close> looks at nothing; \<open>Ready\<close> pings the database and answers 503 when it cannot.\<close>

definition health_Live :: "response op" where
  "health_Live = health_write StatusOK
     \<lparr>HealthResponse_Status = StatusLive, HealthResponse_Error = None\<rparr>"

text \<open>The interface \<open>Pinger\<close> is its one method.\<close>

type_synonym Pinger = "unit db_op"

definition health_Ready :: "Pinger \<Rightarrow> response op" where
  "health_Ready ping = do {
     p \<leftarrow> ping;
     case p of
       Inl err \<Rightarrow> health_write StatusServiceUnavailable
         \<lparr>HealthResponse_Status = StatusUnavailable, HealthResponse_Error = Some err\<rparr>
     | Inr _ \<Rightarrow> health_write StatusOK
         \<lparr>HealthResponse_Status = StatusReady, HealthResponse_Error = None\<rparr>
   }"

definition live :: "response op" where
  "live = health_Live"

definition ready :: "env \<Rightarrow> response op" where
  "ready E = health_Ready (Ping E)"

section \<open>Routes\<close>

datatype request =
    GetHealthLive
  | GetHealthReady
  | PostUsers "createUserRequest option"
  | PostUsersLogin string string "loginUserRequest option"
  | PostTokensRenewAccess "renewAccessTokenRequest option"
  | PostAccounts string "createAccountRequest option"
  | GetAccountsId string "getAccountRequest option"
  | GetAccounts string "listAccountRequest option"
  | PostTransfers string string "transferRequest option"
  | PostUsersLogout string "logoutRequest option"
  | PostUsersLogoutAll string

fun serve :: "env \<Rightarrow> Server \<Rightarrow> request \<Rightarrow> response op" where
  "serve E s GetHealthLive = live"
| "serve E s GetHealthReady = ready E"
| "serve E s (PostUsers body) = createUser E body"
| "serve E s (PostUsersLogin userAgent clientIP body) = loginUser E s userAgent clientIP body"
| "serve E s (PostTokensRenewAccess body) = renewAccessToken E s body"
| "serve E s (PostAccounts auth body) =
     authMiddleware (Server_tokenMaker s) auth (\<lambda>p. createAccount E p body)"
| "serve E s (GetAccountsId auth uri) =
     authMiddleware (Server_tokenMaker s) auth (\<lambda>p. getAccount E p uri)"
| "serve E s (GetAccounts auth form) =
     authMiddleware (Server_tokenMaker s) auth (\<lambda>p. listAccounts E p form)"
| "serve E s (PostTransfers auth key body) =
     authMiddleware (Server_tokenMaker s) auth (\<lambda>p. createTransfer E p key body)"
| "serve E s (PostUsersLogout auth body) =
     authMiddleware (Server_tokenMaker s) auth (\<lambda>p. logout E s p body)"
| "serve E s (PostUsersLogoutAll auth) =
     authMiddleware (Server_tokenMaker s) auth (\<lambda>p. logoutAll E p)"

end
