(* ===== verification/Gapi.thy ===== *)
theory Gapi
  imports Api_Server
begin

text \<open>
  Package \<open>gapi\<close>: the gRPC service \<open>Bank\<close> with its authorization, metadata, validation and
  logging. A context is what the handlers read from it: the incoming metadata (values by
  lower-case key) and the address of the peer. An RPC returns a message or a status error;
  a Go \<open>*string\<close> of a message is an option, and the generated getters read it with the
  empty string for \<open>nil\<close>.
\<close>

section \<open>Messages\<close>

record CreateUserRequest =
  CreateUserRequest_Username :: string
  CreateUserRequest_FullName :: string
  CreateUserRequest_Email :: string
  CreateUserRequest_Password :: string

record LoginUserRequest =
  LoginUserRequest_Username :: string
  LoginUserRequest_Password :: string

record UpdateUserRequest =
  UpdateUserRequest_Username :: string
  UpdateUserRequest_FullName :: "string option"
  UpdateUserRequest_Email :: "string option"
  UpdateUserRequest_Password :: "string option"

text \<open>A \<open>timestamppb.Timestamp\<close> is the instant it denotes.\<close>

record pbUser =
  pbUser_Username :: string
  pbUser_FullName :: string
  pbUser_Email :: string
  pbUser_PasswordChangedAt :: time
  pbUser_CreatedAt :: time

record LoginUserResponse =
  LoginUserResponse_SessionId :: uuid
  LoginUserResponse_AccessToken :: string
  LoginUserResponse_AccessTokenExpiresAt :: time
  LoginUserResponse_RefreshToken :: string
  LoginUserResponse_RefreshTokenExpiresAt :: time
  LoginUserResponse_User :: pbUser

definition GetFullName :: "UpdateUserRequest \<Rightarrow> string" where
  "GetFullName x = (case UpdateUserRequest_FullName x of Some s \<Rightarrow> s | None \<Rightarrow> '''')"

definition GetEmail :: "UpdateUserRequest \<Rightarrow> string" where
  "GetEmail x = (case UpdateUserRequest_Email x of Some s \<Rightarrow> s | None \<Rightarrow> '''')"

definition GetPassword :: "UpdateUserRequest \<Rightarrow> string" where
  "GetPassword x = (case UpdateUserRequest_Password x of Some s \<Rightarrow> s | None \<Rightarrow> '''')"

definition convertUser :: "User \<Rightarrow> pbUser" where
  "convertUser user =
     \<lparr>pbUser_Username = User_Username user, pbUser_FullName = User_FullName user,
      pbUser_Email = User_Email user, pbUser_PasswordChangedAt = User_PasswordChangedAt user,
      pbUser_CreatedAt = User_CreatedAt user\<rparr>"

section \<open>Status errors\<close>

datatype code =
    CodeOK
  | CodeCanceled
  | CodeUnknown
  | CodeInvalidArgument
  | CodeDeadlineExceeded
  | CodeNotFound
  | CodeAlreadyExists
  | CodePermissionDenied
  | CodeResourceExhausted
  | CodeFailedPrecondition
  | CodeAborted
  | CodeOutOfRange
  | CodeUnimplemented
  | CodeInternal
  | CodeUnavailable
  | CodeDataLoss
  | CodeUnauthenticated

text \<open>\<open>status.Errorf\<close> keeps the code and a text; \<open>details\<close> are the field violations.\<close>

record field_violation =
  violation_Field :: string
  violation_Description :: error

record status_error =
  status_code :: code
  status_cause :: error
  status_details :: "field_violation list"

definition status_Errorf :: "code \<Rightarrow> error \<Rightarrow> status_error" where
  "status_Errorf c err = \<lparr>status_code = c, status_cause = err, status_details = []\<rparr>"

definition fieldViolation :: "string \<Rightarrow> error \<Rightarrow> field_violation" where
  "fieldViolation field err = \<lparr>violation_Field = field, violation_Description = err\<rparr>"

text \<open>\<open>WithDetails\<close> only fails for the code OK, so the violations are always attached.\<close>

definition invalidArgumentError :: "field_violation list \<Rightarrow> status_error" where
  "invalidArgumentError violations =
     \<lparr>status_code = CodeInvalidArgument, status_cause = Errorf ''invalid parameters'',
      status_details = violations\<rparr>"

definition unauthenticatedError :: "error \<Rightarrow> status_error" where
  "unauthenticatedError err = status_Errorf CodeUnauthenticated (Wrapf ''unauthorized: '' err)"

section \<open>The request context\<close>

record Context =
  incoming_metadata :: "(string \<Rightarrow> string list) option"
  peer_addr :: "string option"

definition authorizeUser :: "Server \<Rightarrow> Context \<Rightarrow> (error + Payload) op" where
  "authorizeUser server ctx =
     (case incoming_metadata ctx of
        None \<Rightarrow> ret (Inl (Errorf ''missing metadata''))
      | Some md \<Rightarrow>
          let values = md ''authorization'' in
          if length values = 0 then ret (Inl (Errorf ''missing authorization header''))
          else
            let fields = strings_Fields (values ! 0) in
            if length fields < 2 then ret (Inl (Errorf ''invalid authorization header format''))
            else
              let authType = strings_ToLower (fields ! 0) in
              if authType \<noteq> ''bearer'' then
                ret (Inl (Errorf (''unsupported authorization type: '' @ authType)))
              else do {
                v \<leftarrow> VerifyToken (Server_tokenMaker server) (fields ! 1);
                case v of
                  Inl err \<Rightarrow> ret (Inl (Wrapf ''invalid access token: '' err))
                | Inr payload \<Rightarrow> ret (Inr payload)
              })"

record Metadata =
  Metadata_UserAgent :: string
  Metadata_ClientIP :: string

text \<open>The steps of \<open>extractMetadata\<close> in their order: later sources overwrite earlier ones.\<close>

definition first_value :: "string list \<Rightarrow> string \<Rightarrow> string" where
  "first_value vs old = (if length vs > 0 then vs ! 0 else old)"

definition extractMetadata :: "Context \<Rightarrow> Metadata" where
  "extractMetadata ctx =
     (let m0 = \<lparr>Metadata_UserAgent = '''', Metadata_ClientIP = ''''\<rparr>;
          m1 = (case incoming_metadata ctx of
                  None \<Rightarrow> m0
                | Some md \<Rightarrow>
                    let a = m0\<lparr>Metadata_UserAgent :=
                          first_value (md ''grpcgateway-user-agent'') (Metadata_UserAgent m0)\<rparr>;
                        b = a\<lparr>Metadata_UserAgent := first_value (md ''user-agent'') (Metadata_UserAgent a)\<rparr>
                    in b\<lparr>Metadata_ClientIP := first_value (md ''x-forwarded-for'') (Metadata_ClientIP b)\<rparr>)
      in case peer_addr ctx of
           None \<Rightarrow> m1
         | Some addr \<Rightarrow> m1\<lparr>Metadata_ClientIP := addr\<rparr>)"

section \<open>Validation\<close>

text \<open>\<open>violations = append(violations, fieldViolation(field, err))\<close> if \<open>err\<close> is not nil.\<close>

definition violation :: "string \<Rightarrow> error option \<Rightarrow> field_violation list" where
  "violation field err = (case err of None \<Rightarrow> [] | Some e \<Rightarrow> [fieldViolation field e])"

definition validateCreateUserRequest :: "env \<Rightarrow> CreateUserRequest \<Rightarrow> field_violation list" where
  "validateCreateUserRequest E req =
     violation ''username'' (ValidateUsername (CreateUserRequest_Username req)) @
     violation ''password'' (ValidatePassword (CreateUserRequest_Password req)) @
     violation ''full_name'' (ValidateFullName (CreateUserRequest_FullName req)) @
     violation ''email'' (ValidateEmail E (CreateUserRequest_Email req))"

definition validateLoginUserRequest :: "LoginUserRequest \<Rightarrow> field_violation list" where
  "validateLoginUserRequest req =
     violation ''username'' (ValidateUsername (LoginUserRequest_Username req)) @
     violation ''password'' (ValidatePassword (LoginUserRequest_Password req))"

definition validateUpdateUserRequest :: "env \<Rightarrow> UpdateUserRequest \<Rightarrow> field_violation list" where
  "validateUpdateUserRequest E req =
     violation ''username'' (ValidateUsername (UpdateUserRequest_Username req)) @
     (if UpdateUserRequest_Password req \<noteq> None
      then violation ''password'' (ValidatePassword (GetPassword req)) else []) @
     (if UpdateUserRequest_FullName req \<noteq> None
      then violation ''full_name'' (ValidateFullName (GetFullName req)) else []) @
     (if UpdateUserRequest_Email req \<noteq> None
      then violation ''email'' (ValidateEmail E (GetEmail req)) else [])"

section \<open>The RPCs\<close>

type_synonym 'a rpc = "(status_error + 'a) op"

definition fail :: "code \<Rightarrow> error \<Rightarrow> 'a rpc" where
  "fail c err = ret (Inl (status_Errorf c err))"

definition rpc_CreateUser :: "env \<Rightarrow> CreateUserRequest \<Rightarrow> pbUser rpc" where
  "rpc_CreateUser E req =
     (let violations = validateCreateUserRequest E req in
      if violations \<noteq> [] then ret (Inl (invalidArgumentError violations))
      else do {
        h \<leftarrow> HashPassword E (CreateUserRequest_Password req);
        case h of
          Inl err \<Rightarrow> fail CodeInternal (Wrapf ''failed to hash password: '' err)
        | Inr hashedPassword \<Rightarrow> do {
            u \<leftarrow> CreateUser E
              \<lparr>CreateUserParams_Username = CreateUserRequest_Username req,
               CreateUserParams_HashedPassword = hashedPassword,
               CreateUserParams_FullName = CreateUserRequest_FullName req,
               CreateUserParams_Email = CreateUserRequest_Email req\<rparr>;
            case u of
              Inl err \<Rightarrow>
                (case err of
                   PqError name _ \<Rightarrow>
                     if name = ''unique_violation'' then
                       fail CodeAlreadyExists (Wrapf ''user already exists: '' err)
                     else fail CodeInternal (Wrapf ''failed to create user: '' err)
                 | _ \<Rightarrow> fail CodeInternal (Wrapf ''failed to create user: '' err))
            | Inr user \<Rightarrow> ret (Inr (convertUser user))
          }
      })"

definition rpc_LoginUser :: "env \<Rightarrow> Server \<Rightarrow> Context \<Rightarrow> LoginUserRequest \<Rightarrow> LoginUserResponse rpc" where
  "rpc_LoginUser E server ctx req =
     (let violations = validateLoginUserRequest req in
      if violations \<noteq> [] then ret (Inl (invalidArgumentError violations))
      else do {
        u \<leftarrow> GetUser E (LoginUserRequest_Username req);
        case u of
          Inl err \<Rightarrow>
            if err = ErrNoRows then fail CodeNotFound (Wrapf ''user not found: '' err)
            else fail CodeInternal (Wrapf ''failed to get user: '' err)
        | Inr user \<Rightarrow>
            (case CheckPassword E (LoginUserRequest_Password req) (User_HashedPassword user) of
               Some err \<Rightarrow> fail CodePermissionDenied (Wrapf ''failed to check password: '' err)
             | None \<Rightarrow> do {
                 a \<leftarrow> CreateToken (Server_tokenMaker server) (LoginUserRequest_Username req)
                   (Config_AccessTokenDuration (Server_config server));
                 case a of
                   Inl err \<Rightarrow> fail CodeInternal (Wrapf ''failed to create token: '' err)
                 | Inr (accessToken, accessPayload) \<Rightarrow> do {
                     f \<leftarrow> CreateToken (Server_tokenMaker server) (LoginUserRequest_Username req)
                       (Config_RefreshTokenDuration (Server_config server));
                     case f of
                       Inl err \<Rightarrow> fail CodeInternal (Wrapf ''failed to create token: '' err)
                     | Inr (refreshToken, refreshPayload) \<Rightarrow>
                         let mtdt = extractMetadata ctx in do {
                         s \<leftarrow> CreateSession E
                           \<lparr>CreateSessionParams_ID = Payload_ID refreshPayload,
                            CreateSessionParams_Username = LoginUserRequest_Username req,
                            CreateSessionParams_RefreshToken = refreshToken,
                            CreateSessionParams_UserAgent = Metadata_UserAgent mtdt,
                            CreateSessionParams_ClientIp = Metadata_ClientIP mtdt,
                            CreateSessionParams_IsBlocked = False,
                            CreateSessionParams_ExpiresAt = Payload_ExpiredAt refreshPayload\<rparr>;
                         case s of
                           Inl err \<Rightarrow> fail CodeInternal (Wrapf ''failed to create session: '' err)
                         | Inr session \<Rightarrow> ret (Inr
                             \<lparr>LoginUserResponse_SessionId = Session_ID session,
                              LoginUserResponse_AccessToken = accessToken,
                              LoginUserResponse_AccessTokenExpiresAt = Payload_ExpiredAt accessPayload,
                              LoginUserResponse_RefreshToken = refreshToken,
                              LoginUserResponse_RefreshTokenExpiresAt = Payload_ExpiredAt refreshPayload,
                              LoginUserResponse_User = convertUser user\<rparr>)
                       }
                   }
               })
      })"

text \<open>The parameters without the password, and the two steps that add it.\<close>

definition update_params :: "UpdateUserRequest \<Rightarrow> UpdateUserParams" where
  "update_params req =
     \<lparr>UpdateUserParams_HashedPassword = None, UpdateUserParams_PasswordChangedAt = None,
      UpdateUserParams_FullName =
        (if UpdateUserRequest_FullName req \<noteq> None then Some (GetFullName req) else None),
      UpdateUserParams_Email =
        (if UpdateUserRequest_Email req \<noteq> None then Some (GetEmail req) else None),
      UpdateUserParams_Username = UpdateUserRequest_Username req\<rparr>"

definition add_password :: "env \<Rightarrow> UpdateUserRequest \<Rightarrow> UpdateUserParams rpc" where
  "add_password E req =
     (if UpdateUserRequest_Password req \<noteq> None then do {
        h \<leftarrow> HashPassword E (GetPassword req);
        case h of
          Inl err \<Rightarrow> fail CodeInternal (Wrapf ''failed to hash password: '' err)
        | Inr hashedPassword \<Rightarrow> do {
            now \<leftarrow> time_Now E;
            ret (Inr ((update_params req)\<lparr>UpdateUserParams_HashedPassword := Some hashedPassword,
              UpdateUserParams_PasswordChangedAt := Some now\<rparr>))
          }
      }
      else ret (Inr (update_params req)))"

definition rpc_UpdateUser :: "env \<Rightarrow> Server \<Rightarrow> Context \<Rightarrow> UpdateUserRequest \<Rightarrow> pbUser rpc" where
  "rpc_UpdateUser E server ctx req = do {
     auth \<leftarrow> authorizeUser server ctx;
     case auth of
       Inl err \<Rightarrow> ret (Inl (unauthenticatedError err))
     | Inr authPayload \<Rightarrow>
         let violations = validateUpdateUserRequest E req in
         if violations \<noteq> [] then ret (Inl (invalidArgumentError violations))
         else if Payload_Username authPayload \<noteq> UpdateUserRequest_Username req then
           fail CodePermissionDenied (Errorf ''cannot update other user's info'')
         else
           try_do (add_password E req) (\<lambda>arg. do {
             u \<leftarrow> UpdateUser E arg;
             case u of
               Inl err \<Rightarrow>
                 if err = ErrNoRows then fail CodeNotFound (Errorf ''user not found'')
                 else fail CodeInternal (Wrapf ''failed to update user: '' err)
             | Inr user \<Rightarrow> ret (Inr (convertUser user))
           })
   }"

section \<open>Logging\<close>

text \<open>The fields of a log line that depend on the call; an RPC without error has the code OK.\<close>

record grpc_log =
  grpc_log_method :: string
  grpc_log_status :: code
  grpc_log_is_error :: bool
  grpc_log_duration :: int

definition GrpcLogger :: "env \<Rightarrow> string \<Rightarrow> 'a rpc \<Rightarrow> ((status_error + 'a) \<times> grpc_log) op" where
  "GrpcLogger E fullMethod handler = do {
     startTime \<leftarrow> time_Now E;
     result \<leftarrow> handler;
     now \<leftarrow> time_Now E;
     let statusCode = (case result of Inl st \<Rightarrow> status_code st | Inr _ \<Rightarrow> CodeOK);
     ret (result, \<lparr>grpc_log_method = fullMethod, grpc_log_status = statusCode,
       grpc_log_is_error = (case result of Inl _ \<Rightarrow> True | Inr _ \<Rightarrow> False),
       grpc_log_duration = now - startTime\<rparr>)
   }"

text \<open>
  An HTTP handler is the sequence of its calls on the response writer. The recorder notes
  them and passes them on; \<open>forwarded\<close> are the calls that reach the real writer.
\<close>

datatype writer_call = WriteHeader nat | Write string

record ResponseRecorder =
  recorder_StatusCode :: nat
  recorder_Body :: string
  forwarded :: "writer_call list"

definition record_call :: "writer_call \<Rightarrow> ResponseRecorder \<Rightarrow> ResponseRecorder" where
  "record_call c rec =
     (case c of
        WriteHeader statusCode \<Rightarrow>
          rec\<lparr>recorder_StatusCode := statusCode, forwarded := forwarded rec @ [c]\<rparr>
      | Write body \<Rightarrow> rec\<lparr>recorder_Body := body, forwarded := forwarded rec @ [c]\<rparr>)"

text \<open>The recorder after the handler, and the body the log line shows.\<close>

definition HttpLogger :: "writer_call list \<Rightarrow> ResponseRecorder \<times> string option" where
  "HttpLogger calls =
     (let rec = fold record_call calls
        \<lparr>recorder_StatusCode = 200, recorder_Body = '''', forwarded = []\<rparr> in
      (rec, if recorder_StatusCode rec \<noteq> 200 then Some (recorder_Body rec) else None))"

section \<open>Calls to either server\<close>

text \<open>
  The program can serve the Gin routes and the gRPC service, each with a server made from
  the same configuration on the same store. \<open>handle\<close> is one call to either of them; the
  HTTP gateway makes the same calls to the gRPC service.
\<close>

datatype rpc_request =
    RpcCreateUser CreateUserRequest
  | RpcUpdateUser UpdateUserRequest
  | RpcLoginUser LoginUserRequest

datatype rpc_reply = UserReply pbUser | LoginReply LoginUserResponse

definition serve_rpc :: "env \<Rightarrow> Server \<Rightarrow> Context \<Rightarrow> rpc_request \<Rightarrow> rpc_reply rpc" where
  "serve_rpc E s ctx r =
     (case r of
        RpcCreateUser req \<Rightarrow> try_do (rpc_CreateUser E req) (\<lambda>u. ret (Inr (UserReply u)))
      | RpcUpdateUser req \<Rightarrow> try_do (rpc_UpdateUser E s ctx req) (\<lambda>u. ret (Inr (UserReply u)))
      | RpcLoginUser req \<Rightarrow> try_do (rpc_LoginUser E s ctx req) (\<lambda>l. ret (Inr (LoginReply l))))"

datatype call = Http request | Grpc Context rpc_request
datatype reply = HttpReply response | GrpcReply "status_error + rpc_reply"

fun handle :: "env \<Rightarrow> Server \<Rightarrow> call \<Rightarrow> reply op" where
  "handle E s (Http req) = do { rsp \<leftarrow> serve E s req; ret (HttpReply rsp) }"
| "handle E s (Grpc ctx req) = do { rsp \<leftarrow> serve_rpc E s ctx req; ret (GrpcReply rsp) }"

section \<open>Properties\<close>

text \<open>The values the gRPC service accepts in its fields.\<close>

definition ok_username :: "string \<Rightarrow> bool" where
  "ok_username v \<longleftrightarrow> 3 \<le> length v \<and> length v \<le> 100 \<and>
     (\<forall>c \<in> set v. is_lower c \<or> is_digit c \<or> c = CHR ''_'')"

definition ok_full_name :: "string \<Rightarrow> bool" where
  "ok_full_name v \<longleftrightarrow> 3 \<le> length v \<and> length v \<le> 100 \<and>
     (\<forall>c \<in> set v. is_lower c \<or> is_upper c \<or> is_re_space c)"

definition ok_password :: "string \<Rightarrow> bool" where
  "ok_password v \<longleftrightarrow> 6 \<le> length v \<and> length v \<le> 100"

definition ok_email :: "env \<Rightarrow> string \<Rightarrow> bool" where
  "ok_email E v \<longleftrightarrow> 3 \<le> length v \<and> length v \<le> 200 \<and> mail_ParseAddress E v"

lemma violation_field:
  "map violation_Field (violation f err) = (if err = None then [] else [f])"
  by (auto simp: violation_def fieldViolation_def split: option.split)

lemma violation_Nil: "violation f err = [] \<longleftrightarrow> err = None"
  by (auto simp: violation_def split: option.split)

lemmas ok_field_defs = ok_username_def ok_full_name_def ok_password_def ok_email_def

text \<open>
  C39: \<open>CreateUser\<close> validates completely and before anything else: it answers
  \<open>InvalidArgument\<close> exactly when some field is not acceptable, lists exactly the unacceptable
  fields in their order, and has then not even touched the database or the clock.
\<close>

theorem rpc_CreateUser_validates:
  "case run (rpc_CreateUser E req) w of (r, w') \<Rightarrow>
     if ok_username (CreateUserRequest_Username req) \<and> ok_password (CreateUserRequest_Password req) \<and>
        ok_full_name (CreateUserRequest_FullName req) \<and> ok_email E (CreateUserRequest_Email req)
     then (case r of Inl st \<Rightarrow> status_code st \<in> {CodeAlreadyExists, CodeInternal} | Inr u \<Rightarrow> True)
     else w' = w \<and> (\<exists>st. r = Inl st \<and> status_code st = CodeInvalidArgument \<and>
       map violation_Field (status_details st) =
         (if ok_username (CreateUserRequest_Username req) then [] else [''username'']) @
         (if ok_password (CreateUserRequest_Password req) then [] else [''password'']) @
         (if ok_full_name (CreateUserRequest_FullName req) then [] else [''full_name'']) @
         (if ok_email E (CreateUserRequest_Email req) then [] else [''email'']))"
proof (cases "validateCreateUserRequest E req = []")
  case True
  then have "ok_username (CreateUserRequest_Username req) \<and> ok_password (CreateUserRequest_Password req) \<and>
      ok_full_name (CreateUserRequest_FullName req) \<and> ok_email E (CreateUserRequest_Email req)"
    by (simp add: validateCreateUserRequest_def violation_Nil Validate_None ok_field_defs)
  with True show ?thesis
    by (auto simp: rpc_CreateUser_def run_HashPassword fail_def status_Errorf_def
        split: sum.splits error.splits prod.splits if_splits)
next
  case False
  then have "\<not> (ok_username (CreateUserRequest_Username req) \<and> ok_password (CreateUserRequest_Password req) \<and>
      ok_full_name (CreateUserRequest_FullName req) \<and> ok_email E (CreateUserRequest_Email req))"
    by (simp add: validateCreateUserRequest_def violation_Nil Validate_None ok_field_defs)
  moreover have "map violation_Field (validateCreateUserRequest E req) =
      (if ok_username (CreateUserRequest_Username req) then [] else [''username'']) @
      (if ok_password (CreateUserRequest_Password req) then [] else [''password'']) @
      (if ok_full_name (CreateUserRequest_FullName req) then [] else [''full_name'']) @
      (if ok_email E (CreateUserRequest_Email req) then [] else [''email''])"
    unfolding validateCreateUserRequest_def map_append violation_field Validate_None ok_field_defs ..
  ultimately show ?thesis
    using False by (simp add: rpc_CreateUser_def invalidArgumentError_def)
qed

section \<open>Updating a user\<close>

lemma authorizeUser_InrD:
  assumes "run (authorizeUser s ctx) w = (Inr p, w')" and "Server_tokenMaker s = PasetoMaker E k"
  shows "\<exists>md tok. incoming_metadata ctx = Some md \<and> md ''authorization'' \<noteq> [] \<and>
    bearer_token (md ''authorization'' ! 0) = Some tok \<and> paseto_Decrypt E tok k = Inr p \<and> db w' = db w"
  using assms
  by (auto simp: authorizeUser_def Let_def bearer_token_def PasetoMaker_def run_paseto_VerifyToken
      split: option.splits if_splits sum.splits prod.splits)

lemma add_password_InrD:
  assumes "run (add_password E req) w = (Inr arg, w')"
  shows "db w' = db w \<and> UpdateUserParams_Username arg = UpdateUserRequest_Username req \<and>
    UpdateUserParams_FullName arg = UpdateUserRequest_FullName req \<and>
    UpdateUserParams_Email arg = UpdateUserRequest_Email req \<and>
    (UpdateUserRequest_Password req = None \<longrightarrow>
       UpdateUserParams_HashedPassword arg = None \<and> UpdateUserParams_PasswordChangedAt arg = None) \<and>
    (\<forall>pw. UpdateUserRequest_Password req = Some pw \<longrightarrow>
       (\<exists>n h. bcrypt_Generate E n pw = Inr h \<and> UpdateUserParams_HashedPassword arg = Some h \<and>
          UpdateUserParams_PasswordChangedAt arg = Some (clock E (Suc n))))"
  using assms
  by (auto simp: add_password_def run_HashPassword run_time_Now fail_def update_params_def GetFullName_def
      GetEmail_def GetPassword_def split: if_splits sum.splits option.splits)

lemma rpc_UpdateUser_InrD:
  assumes run: "run (rpc_UpdateUser E s ctx req) w = (Inr u, w')"
  obtains p w1 arg w2 old where "run (authorizeUser s ctx) w = (Inr p, w1)"
    "Payload_Username p = UpdateUserRequest_Username req" "validateUpdateUserRequest E req = []"
    "run (add_password E req) w1 = (Inr arg, w2)"
    "lookup User_Username (UpdateUserParams_Username arg) (users (db w2)) = Some old"
    "u = convertUser (set_user E arg old)"
    "db w' = (db w2)\<lparr>users := update_where (\<lambda>r. User_Username r = UpdateUserParams_Username arg)
       (set_user E arg) (users (db w2))\<rparr>"
proof -
  from run obtain a w1 where a: "run (authorizeUser s ctx) w = (a, w1)" by fastforce
  with run obtain p where p: "a = Inr p"
    by (cases a) (auto simp: rpc_UpdateUser_def)
  with run a have own: "Payload_Username p = UpdateUserRequest_Username req"
    "validateUpdateUserRequest E req = []"
    by (auto simp: rpc_UpdateUser_def Let_def fail_def split: if_splits)
  with run a p obtain arg w2 where arg: "run (add_password E req) w1 = (Inr arg, w2)"
    by (auto simp: rpc_UpdateUser_def Let_def run_try_do_Inr)
  obtain q w3 where q: "run (UpdateUser E arg) w2 = (q, w3)" by fastforce
  with run a p own arg obtain new where new: "q = Inr new" "u = convertUser new" "w3 = w'"
    by (cases q) (auto simp: rpc_UpdateUser_def Let_def run_try_do fail_def split: if_splits)
  from query_InrD [OF q [unfolded new(1) UpdateUser_def]] new(3) obtain old where
    "lookup User_Username (UpdateUserParams_Username arg) (users (db w2)) = Some old"
    "new = set_user E arg old"
    "db w' = (db w2)\<lparr>users := update_where (\<lambda>r. User_Username r = UpdateUserParams_Username arg)
       (set_user E arg) (users (db w2))\<rparr>"
    by (auto simp: sql_UpdateUser_def split: option.splits if_splits)
  with a p own arg new that show thesis by blast
qed

text \<open>
  C30: A successful \<open>UpdateUser\<close> is for the user the bearer token names and changes that
  user's row alone: fields that are not given keep their value, given ones are set, and the
  password hash and its change time move together, exactly when a password is given.
\<close>

theorem rpc_UpdateUser_own_given_fields:
  assumes maker: "Server_tokenMaker s = PasetoMaker E k"
    and run: "run (rpc_UpdateUser E s ctx req) w = (Inr u, w')"
  shows "\<exists>md tok p old new. incoming_metadata ctx = Some md \<and>
    bearer_token (md ''authorization'' ! 0) = Some tok \<and> paseto_Decrypt E tok k = Inr p \<and>
    Payload_Username p = UpdateUserRequest_Username req \<and>
    lookup User_Username (UpdateUserRequest_Username req) (users (db w)) = Some old \<and>
    lookup User_Username (UpdateUserRequest_Username req) (users (db w')) = Some new \<and>
    u = convertUser new \<and>
    User_FullName new = coalesce (UpdateUserRequest_FullName req) (User_FullName old) \<and>
    User_Email new = coalesce (UpdateUserRequest_Email req) (User_Email old) \<and>
    User_CreatedAt new = User_CreatedAt old \<and>
    (case UpdateUserRequest_Password req of
       None \<Rightarrow> User_HashedPassword new = User_HashedPassword old \<and>
         User_PasswordChangedAt new = User_PasswordChangedAt old
     | Some pw \<Rightarrow> \<exists>n h. bcrypt_Generate E n pw = Inr h \<and> User_HashedPassword new = h \<and>
         User_PasswordChangedAt new = pg_timestamp E (clock E (Suc n))) \<and>
    (\<forall>v. v \<noteq> UpdateUserRequest_Username req \<longrightarrow>
       lookup User_Username v (users (db w')) = lookup User_Username v (users (db w))) \<and>
    db w' = (db w)\<lparr>users := users (db w')\<rparr>"
  using run
proof (rule rpc_UpdateUser_InrD)
  fix p w1 arg w2 old
  assume auth: "run (authorizeUser s ctx) w = (Inr p, w1)"
    and own: "Payload_Username p = UpdateUserRequest_Username req"
    and arg: "run (add_password E req) w1 = (Inr arg, w2)"
    and old: "lookup User_Username (UpdateUserParams_Username arg) (users (db w2)) = Some old"
    and u: "u = convertUser (set_user E arg old)"
    and w': "db w' = (db w2)\<lparr>users := update_where (\<lambda>r. User_Username r = UpdateUserParams_Username arg)
       (set_user E arg) (users (db w2))\<rparr>"
  from authorizeUser_InrD [OF auth maker] obtain md tok where a: "incoming_metadata ctx = Some md"
    "bearer_token (md ''authorization'' ! 0) = Some tok" "paseto_Decrypt E tok k = Inr p" "db w1 = db w"
    by blast
  note b = add_password_InrD [OF arg]
  have keep: "User_Username (set_user E arg r) = User_Username r" for r by (simp add: set_user_def)
  have look: "lookup User_Username v (users (db w')) =
      (if v = UpdateUserRequest_Username req then map_option (set_user E arg) (lookup User_Username v (users (db w)))
       else lookup User_Username v (users (db w)))" for v
    using a b w' by (simp add: lookup_update_where keep)
  show ?thesis
    by (rule exI [of _ md], rule exI [of _ tok], rule exI [of _ p], rule exI [of _ old],
        rule exI [of _ "set_user E arg old"])
      (use a b own old u w' look in \<open>(auto simp: set_user_def split: option.split), blast\<close>)
qed

definition example_context :: Context where
  "example_context = \<lparr>incoming_metadata = Some (\<lambda>key. if key = ''authorization'' then
       [''Bearer '' @ example_encrypt ''key'' (example_payload ''ann'')] else []),
     peer_addr = Some ''10.0.0.1:5000''\<rparr>"

definition example_server :: Server where
  "example_server = \<lparr>Server_config = \<lparr>Config_Environment = ''production'', Config_DbDriver = '''',
       Config_DbSource = '''', Config_MigrationURL = '''', Config_HTTPServerAddress = '''',
       Config_GRPCServerAddress = '''', Config_TokenSymmetricKey = ''key'',
       Config_AccessTokenDuration = 50, Config_RefreshTokenDuration = 500\<rparr>,
     Server_tokenMaker = PasetoMaker example_env ''key''\<rparr>"

lemma example_server_maker [simp]: "Server_tokenMaker example_server = PasetoMaker example_env ''key''"
  by (simp add: example_server_def)

definition example_update :: UpdateUserRequest where
  "example_update = \<lparr>UpdateUserRequest_Username = ''ann'', UpdateUserRequest_FullName = Some ''Ann Lee'',
     UpdateUserRequest_Email = None, UpdateUserRequest_Password = None\<rparr>"

lemma example_header_fields:
  "strings_Fields (''Bearer '' @ example_encrypt ''key'' (example_payload ''ann'')) =
     [''Bearer'', example_encrypt ''key'' (example_payload ''ann'')]"
  "strings_ToLower ''Bearer'' = ''bearer''"
proof -
  let ?tok = "example_encrypt ''key'' (example_payload ''ann'')"
  have tok: "?tok = ''3:key7:0:1000:ann''"
    by (simp add: example_payload_def example_encrypt_def example_prefix_def example_encode_def show_int_def show_nat.simps
        digit_char_def) (simp add: char_of_def bit_0)
  have "strings_Fields (''Bearer'' @ '' '' @ ?tok) = [''Bearer'', ?tok]"
    by (rule fields_two_words) (simp_all add: tok plain_def byte_def)
  then show "strings_Fields (''Bearer '' @ ?tok) = [''Bearer'', ?tok]" by simp
  show "strings_ToLower ''Bearer'' = ''bearer''"
    by (simp add: strings_ToLower_def to_lower_char_def byte_def) (simp add: char_of_def bit_0)
qed

text \<open>An update that succeeds: \<open>ann\<close> changes her full name.\<close>

lemma example_update_ok:
  "\<exists>u w'. run (rpc_UpdateUser example_env example_server example_context example_update) example_world = (Inr u, w')"
proof -
  let ?p = "example_payload ''ann''" and ?tok = "example_encrypt ''key'' (example_payload ''ann'')"
  have a: "run (authorizeUser example_server example_context) example_world = (Inr ?p, example_world\<lparr>tick := 1\<rparr>)"
    using example_header_fields
    by (simp add: authorizeUser_def example_context_def example_server_def Let_def PasetoMaker_def
        run_paseto_VerifyToken example_decrypt_encrypt) (simp add: example_payload_def)
  have v: "validateUpdateUserRequest example_env example_update = []"
    by (simp add: validateUpdateUserRequest_def violation_Nil Validate_None example_update_def GetFullName_def
        is_lower_def is_upper_def is_digit_def is_re_space_def byte_def)
  show ?thesis
    using a v
    by (simp add: rpc_UpdateUser_def example_payload_def add_password_def example_update_def run_try_do Let_def update_params_def
        UpdateUser_def run_query sql_UpdateUser_def example_db_def example_user_def set_user_def GetFullName_def)
qed

theorem rpc_UpdateUser_own_given_fields_witness:
  "\<exists>u w' new. run (rpc_UpdateUser example_env example_server example_context example_update) example_world = (Inr u, w') \<and>
     lookup User_Username ''ann'' (users (db w')) = Some new \<and> User_FullName new = ''Ann Lee''"
proof -
  obtain u w' where run: "run (rpc_UpdateUser example_env example_server example_context example_update) example_world
      = (Inr u, w')" using example_update_ok by blast
  from rpc_UpdateUser_own_given_fields [OF example_server_maker run] run show ?thesis by (auto simp: example_update_def)
qed

text \<open>
  A password of 73 to 100 bytes is acceptable to the validators of both servers, but
  bcrypt refuses it: the client's valid request is answered with \<open>Internal\<close> by the gRPC
  service and with 500 by the Gin server. The hypothesis is bcrypt's documented limit.
\<close>

theorem long_password_is_a_server_error:
  assumes limit: "\<And>n pw. 72 < length pw \<Longrightarrow> \<exists>e. bcrypt_Generate E n pw = Inl e"
    and "72 < length (CreateUserRequest_Password req)" and "validateCreateUserRequest E req = []"
    and "72 < length (createUserRequest_Password greq)" and "createUserRequest_valid E greq"
  shows "(\<exists>st w1. run (rpc_CreateUser E req) w = (Inl st, w1) \<and> status_code st = CodeInternal) \<and>
    status (fst (run (createUser E (Some greq)) w)) = 500"
proof -
  obtain e e' where "bcrypt_Generate E (tick w) (CreateUserRequest_Password req) = Inl e"
    "bcrypt_Generate E (tick w) (createUserRequest_Password greq) = Inl e'"
    using limit assms(2,4) by blast
  with assms(3,5) show ?thesis
    by (simp add: rpc_CreateUser_def run_HashPassword fail_def status_Errorf_def createUser_def run_JSON)
qed

definition long_signup :: CreateUserRequest where
  "long_signup = \<lparr>CreateUserRequest_Username = ''ann'', CreateUserRequest_FullName = ''Ann Lee'',
     CreateUserRequest_Email = ''a@b'', CreateUserRequest_Password = replicate 80 (CHR ''x'')\<rparr>"

definition long_gin_signup :: createUserRequest where
  "long_gin_signup = \<lparr>createUserRequest_Username = ''ann'', createUserRequest_Password = replicate 80 (CHR ''x''),
     createUserRequest_FullName = ''Ann Lee'', createUserRequest_Email = ''a@b''\<rparr>"

theorem long_password_is_a_server_error_witness:
  "status (fst (run (createUser example_env (Some long_gin_signup)) start_world)) = 500"
proof -
  have limit: "\<exists>e. bcrypt_Generate example_env n pw = Inl e" if "72 < length pw" for n pw
    using that by simp
  have v: "validateCreateUserRequest example_env long_signup = []"
    by (simp add: validateCreateUserRequest_def violation_Nil Validate_None long_signup_def is_lower_def
        is_upper_def is_digit_def is_re_space_def byte_def example_env_def)
  have g: "createUserRequest_valid example_env long_gin_signup"
    by (simp add: createUserRequest_valid_def long_gin_signup_def tag_required_def tag_alphanum_def tag_min_def
        rune_count_def is_lower_def byte_def example_env_def)
  show ?thesis
    using long_password_is_a_server_error [OF limit _ v _ g] by (simp add: long_signup_def long_gin_signup_def)
qed

text \<open>
  The two servers disagree on user names: nobody can sign in through Gin under a name
  with an underscore, which the gRPC service lets users create, and nobody can sign in
  through the gRPC service under a name with a capital letter, which Gin lets users create.
\<close>

theorem username_rules_differ:
  "ok_username ''a_b'' \<and> \<not> loginUserRequest_valid \<lparr>loginUserRequest_Username = ''a_b'', loginUserRequest_Password = pw\<rparr> \<and>
   tag_alphanum ''Ann'' \<and> fst (run (rpc_LoginUser E s ctx
      \<lparr>LoginUserRequest_Username = ''Ann'', LoginUserRequest_Password = pw\<rparr>) w) =
     Inl (invalidArgumentError (validateLoginUserRequest
      \<lparr>LoginUserRequest_Username = ''Ann'', LoginUserRequest_Password = pw\<rparr>))"
  by (simp add: ok_username_def loginUserRequest_valid_def tag_alphanum_def is_lower_def is_upper_def
      is_digit_def byte_def rpc_LoginUser_def validateLoginUserRequest_def violation_Nil Validate_None Let_def)

text \<open>
  The loggers are transparent: the interceptor returns the handler's result and logs
  its code, and the HTTP recorder passes every call to the real writer in order, so that
  logging never changes an answer.
\<close>

theorem loggers_are_transparent:
  "run (GrpcLogger E meth handler) w =
     (let (r, w1) = run handler (w\<lparr>tick := Suc (tick w)\<rparr>) in
      ((r, \<lparr>grpc_log_method = meth,
            grpc_log_status = (case r of Inl st \<Rightarrow> status_code st | Inr _ \<Rightarrow> CodeOK),
            grpc_log_is_error = (case r of Inl _ \<Rightarrow> True | Inr _ \<Rightarrow> False),
            grpc_log_duration = clock E (tick w1) - clock E (tick w)\<rparr>),
       w1\<lparr>tick := Suc (tick w1)\<rparr>)) \<and>
   forwarded (fst (HttpLogger calls)) = calls"
proof
  have "forwarded (fold record_call cs rec) = forwarded rec @ cs" for cs rec
    by (induction cs arbitrary: rec) (simp_all add: record_call_def split: writer_call.split)
  then show "forwarded (fst (HttpLogger calls)) = calls" by (simp add: HttpLogger_def Let_def)
qed (simp add: GrpcLogger_def run_time_Now Let_def split: prod.split)

end
