(* ===== verification/Api_Contract.thy ===== *)
theory Api_Contract
  imports Gapi
begin

text \<open>
  The interface between the handlers and the store. The locale \<open>statement_contract\<close> states what
  the handlers need of a relation between the tables before and after: that each statement
  they send outside of a transaction keeps it, with the arguments they send it with;
  \<open>store_contract\<close> adds the transactions. Inside, every handler and every route is shown to
  keep it. The interpretations discharge the contract for the
  constraints, the money, the ledger, the sessions, the history and the idempotency keys;
  each then holds over any sequence of requests.
\<close>

section \<open>The contract\<close>

locale statement_contract = db_relation Q for Q :: "database \<Rightarrow> database \<Rightarrow> bool" +
  fixes E :: env
  assumes CreateAccount_rel:
      "CreateAccountParams_Balance ca = 0 \<Longrightarrow> always (on_db Q) (CreateAccount E ca)"
    and CreateUser_rel: "always (on_db Q) (CreateUser E cu)"
    and UpdateUser_rel: "always (on_db Q) (UpdateUser E uu)"
    and CreateSession_rel: "always (on_db Q) (CreateSession E cs)"
    and BlockSession_rel: "always (on_db Q) (BlockSession E i)"
    and BlockUserSessions_rel: "always (on_db Q) (BlockUserSessions E u)"
begin

lemma JSON_rel: "always (on_db Q) (JSON code b)" "always (on_db Q) (errorJSON code err)"
  by (simp_all add: JSON_def errorJSON_def always_ret)

lemma HashPassword_rel: "always (on_db Q) (HashPassword E pw)"
  unfolding HashPassword_def by (intro always_intros draw_rel)

lemma Ping_rel: "always (on_db Q) (Ping E)"
  unfolding Ping_def by (rule query_rel) (simp add: Q_refl)

lemma pq_cases_rel:
  "(\<And>name constraint. always (on_db Q) (f name constraint)) \<Longrightarrow> always (on_db Q) g \<Longrightarrow>
   always (on_db Q) (case err of PqError name constraint \<Rightarrow> f name constraint | _ \<Rightarrow> g)"
  by (cases err) auto

lemmas statement_rel = JSON_rel HashPassword_rel Ping_rel read_only_rel time_Now_rel draw_rel
  CreateUser_rel UpdateUser_rel CreateSession_rel BlockSession_rel BlockUserSessions_rel pq_cases_rel

end

locale store_contract = statement_contract Q E for Q :: "database \<Rightarrow> database \<Rightarrow> bool" and E :: env +
  assumes TransferTx_rel: "always (on_db Q) (TransferTx E ta)"
    and IdempotentTransferTx_rel: "always (on_db Q) (IdempotentTransferTx E ia)"
begin

lemmas store_rel = statement_rel TransferTx_rel IdempotentTransferTx_rel

lemma account_handlers_rel:
  "always (on_db Q) (createAccount E p ca)" "always (on_db Q) (getAccount E p ga)"
  "always (on_db Q) (listAccounts E p la)"
  unfolding createAccount_def getAccount_def listAccounts_def
  by (intro always_intros store_rel CreateAccount_rel; simp)+

lemma createTransfer_rel: "always (on_db Q) (createTransfer E p key body)"
  unfolding createTransfer_def validAccount_def createTransferIdempotent_def
    replayIdempotentTransfer_def Let_def
  by (intro always_intros store_rel)

lemma createUser_rel: "always (on_db Q) (createUser E body)"
  unfolding createUser_def by (intro always_intros store_rel)

lemma health_rel: "always (on_db Q) live" "always (on_db Q) (ready E)"
  unfolding live_def health_Live_def ready_def health_Ready_def health_write_def
  by (intro always_intros store_rel)+

end

text \<open>A store with such a contract behind a server with any token maker.\<close>

locale statement_api = statement_contract Q E + token_maker M E
  for Q :: "database \<Rightarrow> database \<Rightarrow> bool" and M :: Maker and E :: env
begin

lemma token_rel:
  "always (on_db Q) (CreateToken M u dur)" "always (on_db Q) (VerifyToken M tok)"
  by (rule maker_rel [OF db_relation_axioms])+

lemma authorizeUser_rel:
  assumes "Server_tokenMaker s = M"
  shows "always (on_db Q) (authorizeUser s ctx)"
  unfolding authorizeUser_def Let_def assms by (intro always_intros token_rel)

end

locale api_contract = statement_api Q M E + store_contract Q E
  for Q :: "database \<Rightarrow> database \<Rightarrow> bool" and M :: Maker and E :: env
begin

lemma session_handlers_rel:
  assumes "Server_tokenMaker s = M"
  shows "always (on_db Q) (loginUser E s ua ip lu)" "always (on_db Q) (renewAccessToken E s rn)"
    "always (on_db Q) (logout E s p lo)" "always (on_db Q) (logoutAll E p)"
  unfolding loginUser_def renewAccessToken_def logout_def logoutAll_def assms
  by (intro always_intros store_rel token_rel)+

lemma authMiddleware_rel:
  "(\<And>p. always (on_db Q) (next p)) \<Longrightarrow> always (on_db Q) (authMiddleware M h next)"
  unfolding authMiddleware_def Let_def by (intro always_intros store_rel token_rel)

lemma serve_rel:
  assumes "Server_tokenMaker s = M"
  shows "always (on_db Q) (serve E s req)"
proof -
  note handlers = account_handlers_rel createTransfer_rel session_handlers_rel [OF assms]
  have "always (on_db Q) (authMiddleware M h (logoutAll E))" for h
    by (intro authMiddleware_rel handlers)
  then show ?thesis
    by (cases req) (simp_all add: assms health_rel createUser_rel authMiddleware_rel handlers)
qed

lemma rpc_methods_rel:
  assumes "Server_tokenMaker s = M"
  shows "always (on_db Q) (rpc_CreateUser E cu)" "always (on_db Q) (rpc_UpdateUser E s ctx uu)"
    "always (on_db Q) (rpc_LoginUser E s ctx lu)"
  unfolding rpc_CreateUser_def rpc_UpdateUser_def rpc_LoginUser_def add_password_def fail_def Let_def assms
  by (intro always_intros store_rel token_rel authorizeUser_rel [OF assms])+

lemma rpc_rel:
  assumes "Server_tokenMaker s = M"
  shows "always (on_db Q) (serve_rpc E s ctx r)"
  using rpc_methods_rel [OF assms]
  by (cases r) (auto simp: serve_rpc_def intro!: always_try_do always_ret)

lemma handle_rel:
  assumes "Server_tokenMaker s = M"
  shows "always (on_db Q) (handle E s c)"
  by (cases c) (simp_all add: always_bind always_ret serve_rel [OF assms] rpc_rel [OF assms])

text \<open>Any number of calls to both servers, in any order, under any failures.\<close>

lemma handle_all_rel:
  assumes "Server_tokenMaker s = M"
  shows "Q (db w) (db (snd (run_all (handle E s) calls w)))"
  using run_all_rel [of "handle E s" w calls] handle_rel [OF assms] by (simp add: on_db_def)

end

section \<open>The constraints, the money and the ledger\<close>

interpretation ok: store_contract ok_kept E for E
  by unfold_locales (intro run_intros TransferTx_ok IdempotentTransferTx_ok)+

lemma CreateAccount_money:
  assumes "CreateAccountParams_Balance ca = 0"
  shows "always (on_db money_kept) (CreateAccount E ca)" "always (on_db ledger_kept) (CreateAccount E ca)"
proof -
  have "total_balance (snd (sql_CreateAccount ca t d)) = total_balance d" for t d
    using assms by (auto simp: sql_CreateAccount_def Let_def total_balance_def split: sum.splits)
  then show "always (on_db money_kept) (CreateAccount E ca)"
    unfolding CreateAccount_def
    by (intro money.query_rel) (simp add: money_kept_def sql_CreateAccount_ok)
  have "ledger_kept d (snd (sql_CreateAccount ca t d))" for t d
    using assms
    by (auto simp: sql_CreateAccount_def Let_def ledger_kept_def drift_def balance_of_def
        entry_sum_def entry_total_def lookup_append split: sum.splits option.splits)
  then show "always (on_db ledger_kept) (CreateAccount E ca)"
    unfolding CreateAccount_def by (rule ledger.query_rel)
qed

text \<open>The statements on users and sessions leave the other tables alone.\<close>

definition ledger_frame :: "database \<Rightarrow> database \<Rightarrow> bool" where
  "ledger_frame d d' \<longleftrightarrow> accounts d' = accounts d \<and> entries d' = entries d \<and>
     transfers d' = transfers d \<and> idempotency_keys d' = idempotency_keys d"

lemma identity_statements_frame:
  "ledger_frame d (snd (sql_CreateUser cu t d))" "ledger_frame d (snd (sql_UpdateUser E uu t d))"
  "ledger_frame d (snd (sql_CreateSession E cs t d))" "ledger_frame d (snd (sql_BlockSession i t d))"
  "ledger_frame d (snd (sql_BlockUserSessions u t d))"
  by (auto simp: ledger_frame_def sql_CreateUser_def sql_UpdateUser_def sql_CreateSession_def
      sql_BlockSession_def sql_BlockUserSessions_def Let_def split: option.splits)

lemma identity_frame_rel:
  assumes "db_relation Q" and "\<And>d d'. ok_kept d d' \<Longrightarrow> ledger_frame d d' \<Longrightarrow> Q d d'"
  shows "always (on_db Q) (CreateUser E cu)" "always (on_db Q) (UpdateUser E uu)"
    "always (on_db Q) (CreateSession E cs)" "always (on_db Q) (BlockSession E i)"
    "always (on_db Q) (BlockUserSessions E u)"
  unfolding CreateUser_def UpdateUser_def CreateSession_def BlockSession_def BlockUserSessions_def
  by (intro db_relation.query_rel [OF assms(1)] assms(2) identity_statements_frame,
      simp add: ok_kept_def other_seq_le statements_ok)+

interpretation money: store_contract money_kept E for E
proof unfold_locales
  note rel = identity_frame_rel [OF money.db_relation_axioms]
  show "always (on_db money_kept) (CreateUser E cu)" "always (on_db money_kept) (UpdateUser E uu)"
    "always (on_db money_kept) (CreateSession E cs)" "always (on_db money_kept) (BlockSession E i)"
    "always (on_db money_kept) (BlockUserSessions E u)" for cu uu cs i u
    by (rule rel; simp add: money_kept_def ok_kept_def total_balance_def ledger_frame_def)+
qed (simp_all add: CreateAccount_money TransferTx_kept IdempotentTransferTx_kept)

interpretation ledger: store_contract ledger_kept E for E
proof unfold_locales
  note rel = identity_frame_rel [OF ledger.db_relation_axioms]
  show "always (on_db ledger_kept) (CreateUser E cu)" "always (on_db ledger_kept) (UpdateUser E uu)"
    "always (on_db ledger_kept) (CreateSession E cs)" "always (on_db ledger_kept) (BlockSession E i)"
    "always (on_db ledger_kept) (BlockUserSessions E u)" for cu uu cs i u
    by (rule rel; simp add: ledger_kept_def drift_def balance_of_def entry_sum_def entry_total_def
        ledger_frame_def)+
qed (simp_all add: CreateAccount_money TransferTx_kept IdempotentTransferTx_kept)

section \<open>The sessions\<close>

text \<open>A session row never changes except by being blocked, and is never unblocked or deleted.\<close>

definition sessions_kept :: "database \<Rightarrow> database \<Rightarrow> bool" where
  "sessions_kept d d' \<longleftrightarrow> (\<forall>i s. lookup Session_ID i (sessions d) = Some s \<longrightarrow>
     lookup Session_ID i (sessions d') = Some s \<or> lookup Session_ID i (sessions d') = Some (block s))"

lemma block_block [simp]: "block (block s) = block s"
  by (simp add: block_def)

interpretation sess: db_relation sessions_kept
proof unfold_locales
  show "sessions_kept d d" for d by (simp add: sessions_kept_def)
  fix d1 d2 d3
  assume 1: "sessions_kept d1 d2" and 2: "sessions_kept d2 d3"
  show "sessions_kept d1 d3"
    unfolding sessions_kept_def
  proof (intro allI impI)
    fix i s
    assume "lookup Session_ID i (sessions d1) = Some s"
    with 1 consider "lookup Session_ID i (sessions d2) = Some s"
      | "lookup Session_ID i (sessions d2) = Some (block s)" by (auto simp: sessions_kept_def)
    then show "lookup Session_ID i (sessions d3) = Some s \<or>
        lookup Session_ID i (sessions d3) = Some (block s)"
      using 2 by cases (fastforce simp: sessions_kept_def)+
  qed
qed

lemma lookup_block:
  "lookup Session_ID i (update_where p block rows) =
     map_option (\<lambda>s. if p s then block s else s) (lookup Session_ID i rows)"
  by (induction rows) auto

text \<open>Relations that only look at the sessions or only at users: transfers and new accounts keep them.\<close>

lemma transfer_frame_rel:
  assumes "db_relation Q"
    and "\<And>d d'. users d' = users d \<Longrightarrow> sessions d' = sessions d \<Longrightarrow> Q d d'"
  shows "always (on_db Q) (TransferTx E ta)" "always (on_db Q) (IdempotentTransferTx E ia)"
    "always (on_db Q) (CreateAccount E ca)"
proof -
  have "Q (db w) (db w1)" if "run (transferTx E ta) w = (Inr r, w1)" for w w1 r
    using transferTx_transferred [OF that] by (intro assms(2)) (simp_all add: transferred_def Let_def)
  then show "always (on_db Q) (TransferTx E ta)"
    unfolding TransferTx_def
    by (rule execTx_rel) (simp_all add: assms(2) rollback_to_def)
  have "Q (db w) (db w1)" if "run (claimAndTransfer E ia) w = (Inr r, w1)" for w w1 r
    using claimAndTransfer_claimed [OF that]
    by (intro assms(2)) (simp_all add: claimed_def transferred_def Let_def)
  then show "always (on_db Q) (IdempotentTransferTx E ia)"
    unfolding IdempotentTransferTx_def
    by (rule execTx_rel) (simp_all add: assms(2) rollback_to_def)
  show "always (on_db Q) (CreateAccount E ca)"
    unfolding CreateAccount_def
    by (rule db_relation.query_rel [OF assms(1)], rule assms(2))
      (auto simp: sql_CreateAccount_def Let_def split: sum.splits)
qed

interpretation sess: store_contract sessions_kept E for E
proof unfold_locales
  show "always (on_db sessions_kept) (CreateUser E cu)" for cu
    unfolding CreateUser_def
    by (rule sess.query_rel) (auto simp: sql_CreateUser_def Let_def sessions_kept_def)
  show "always (on_db sessions_kept) (UpdateUser E uu)" for uu
    unfolding UpdateUser_def
    by (rule sess.query_rel) (auto simp: sql_UpdateUser_def Let_def sessions_kept_def split: option.splits)
  show "always (on_db sessions_kept) (CreateSession E cs)" for cs
    unfolding CreateSession_def
    by (rule sess.query_rel) (auto simp: sql_CreateSession_def Let_def sessions_kept_def lookup_append)
  show "always (on_db sessions_kept) (BlockSession E i)" for i
    unfolding BlockSession_def
    by (rule sess.query_rel)
      (auto simp: sql_BlockSession_def sessions_kept_def lookup_block split: option.splits)
  show "always (on_db sessions_kept) (BlockUserSessions E u)" for u
    unfolding BlockUserSessions_def
    by (rule sess.query_rel) (auto simp: sql_BlockUserSessions_def sessions_kept_def lookup_block)
qed (rule transfer_frame_rel [OF sess.db_relation_axioms]; simp add: sessions_kept_def)+

section \<open>The history and the idempotency keys\<close>

text \<open>
  Transfers and entries are only appended, an account keeps everything but its balance, and
  an idempotency row never changes once it is there; each new row stores the response of a
  transfer that is in the table.
\<close>

definition history_kept :: "env \<Rightarrow> database \<Rightarrow> database \<Rightarrow> bool" where
  "history_kept E d d' \<longleftrightarrow>
     (\<exists>ts. transfers d' = transfers d @ ts) \<and> (\<exists>es. entries d' = entries d @ es) \<and>
     (\<forall>i a. lookup Account_ID i (accounts d) = Some a \<longrightarrow>
        (\<exists>b. lookup Account_ID i (accounts d') = Some (a\<lparr>Account_Balance := b\<rparr>))) \<and>
     (\<forall>pk k. lookup key_of pk (idempotency_keys d) = Some k \<longrightarrow>
        lookup key_of pk (idempotency_keys d') = Some k) \<and>
     (\<forall>k \<in> set (idempotency_keys d'). k \<in> set (idempotency_keys d) \<or>
        (\<exists>r. json_Marshal E r = Inr (IdempotencyKey_ResponseBody k) \<and>
             TransferTxResult_Transfer r \<in> set (transfers d')))"

interpretation hist: db_relation "history_kept E" for E
proof unfold_locales
  show "history_kept E d d" for d
    by (auto simp: history_kept_def) (metis Account.surjective Account.update_convs(3))
  fix d1 d2 d3
  assume 1: "history_kept E d1 d2" and 2: "history_kept E d2 d3"
  then obtain ts ts' es es' where
    "transfers d2 = transfers d1 @ ts" "transfers d3 = transfers d2 @ ts'"
    "entries d2 = entries d1 @ es" "entries d3 = entries d2 @ es'"
    by (auto simp: history_kept_def)
  then have app: "transfers d3 = transfers d1 @ ts @ ts'" "entries d3 = entries d1 @ es @ es'"
    "set (transfers d2) \<subseteq> set (transfers d3)" by auto
  have acc: "\<exists>b. lookup Account_ID i (accounts d3) = Some (a\<lparr>Account_Balance := b\<rparr>)"
    if "lookup Account_ID i (accounts d1) = Some a" for i a
  proof -
    from 1 that obtain b where b: "lookup Account_ID i (accounts d2) = Some (a\<lparr>Account_Balance := b\<rparr>)"
      unfolding history_kept_def by blast
    from 2 b obtain c where
      "lookup Account_ID i (accounts d3) = Some (a\<lparr>Account_Balance := b, Account_Balance := c\<rparr>)"
      unfolding history_kept_def by blast
    then show ?thesis by auto
  qed
  have keys: "k \<in> set (idempotency_keys d1) \<or> (\<exists>r. json_Marshal E r = Inr (IdempotencyKey_ResponseBody k) \<and>
      TransferTxResult_Transfer r \<in> set (transfers d3))" if "k \<in> set (idempotency_keys d3)" for k
  proof -
    from 2 that consider "k \<in> set (idempotency_keys d2)"
      | "\<exists>r. json_Marshal E r = Inr (IdempotencyKey_ResponseBody k) \<and>
          TransferTxResult_Transfer r \<in> set (transfers d3)"
      unfolding history_kept_def by blast
    then show ?thesis
      using 1 app(3) unfolding history_kept_def by cases blast+
  qed
  have old: "\<forall>pk k. lookup key_of pk (idempotency_keys d1) = Some k \<longrightarrow>
      lookup key_of pk (idempotency_keys d3) = Some k"
    using 1 2 unfolding history_kept_def by blast
  show "history_kept E d1 d3"
    unfolding history_kept_def using app(1,2) acc keys old by blast
qed


text \<open>A step that leaves accounts and keys alone, or only appends, keeps the history.\<close>

lemma history_same:
  assumes "accounts d' = accounts d" "transfers d' = transfers d" "entries d' = entries d"
    and "idempotency_keys d' = idempotency_keys d"
  shows "history_kept E d d'"
  using hist.Q_refl [of E d] assms by (simp add: history_kept_def)

lemma Account_update_self [simp]: "a\<lparr>Account_Balance := Account_Balance a\<rparr> = a"
  by simp

lemma lookup_credit:
  assumes "lookup Account_ID i rows = Some a"
  shows "\<exists>b. lookup Account_ID i (credit t x rows) = Some (a\<lparr>Account_Balance := b\<rparr>)"
  using assms
  by (induction rows) (auto simp: add_to_balance_def split: if_splits intro: exI [of _ "Account_Balance a"])

lemma transferred_accounts:
  assumes "transferred arg r d d'" and "lookup Account_ID i (accounts d) = Some a"
  shows "\<exists>b. lookup Account_ID i (accounts d') = Some (a\<lparr>Account_Balance := b\<rparr>)"
proof -
  obtain b where "lookup Account_ID i (credit (TransferTxParams_FromAccountID arg)
      (- TransferTxParams_Amount arg) (accounts d)) = Some (a\<lparr>Account_Balance := b\<rparr>)"
    using lookup_credit [OF assms(2)] by blast
  from lookup_credit [OF this] assms(1) show ?thesis by (auto simp: transferred_def Let_def)
qed

lemma transferred_history: "transferred arg r d d' \<Longrightarrow> history_kept E d d'"
  unfolding history_kept_def using transferred_accounts [of arg r d d']
  by (auto simp: transferred_def Let_def)

lemma claimed_history:
  assumes "claimed E arg r d d'"
  shows "history_kept E d d'"
proof -
  from assms have t: "transferred (IdempotentTransferTxParams_TransferTxParams arg) r d
      (d'\<lparr>idempotency_keys := idempotency_keys d\<rparr>)" by (simp add: claimed_def)
  from transferred_history [OF t, of E] show ?thesis
    using assms t by (auto simp: history_kept_def claimed_def transferred_def Let_def lookup_append)
qed

interpretation hist: store_contract "history_kept E" E for E
proof unfold_locales
  note rel = identity_frame_rel [OF hist.db_relation_axioms]
  show "always (on_db (history_kept E)) (CreateUser E cu)"
    "always (on_db (history_kept E)) (UpdateUser E uu)"
    "always (on_db (history_kept E)) (CreateSession E cs)"
    "always (on_db (history_kept E)) (BlockSession E i)"
    "always (on_db (history_kept E)) (BlockUserSessions E u)" for cu uu cs i u
    by (rule rel; simp add: history_same ledger_frame_def)+
  show "always (on_db (history_kept E)) (TransferTx E ta)" for ta
    unfolding TransferTx_def
    by (rule execTx_rel)
      (use transferred_history [OF transferTx_transferred] in
        \<open>simp_all add: history_same hist.Q_refl rollback_to_def\<close>)
  show "always (on_db (history_kept E)) (IdempotentTransferTx E ia)" for ia
    unfolding IdempotentTransferTx_def
    by (rule execTx_rel)
      (use claimed_history [OF claimAndTransfer_claimed] in
        \<open>simp_all add: history_same hist.Q_refl rollback_to_def\<close>)
  have "history_kept E d (snd (sql_CreateAccount ca t d))" for ca t d
    by (auto simp: sql_CreateAccount_def Let_def history_kept_def lookup_append split: sum.splits)
       (metis Account_update_self)+
  then show "always (on_db (history_kept E)) (CreateAccount E ca)" for ca
    unfolding CreateAccount_def by (rule hist.query_rel)
qed

section \<open>Behind the server's own token maker\<close>

text \<open>
  The server of \<open>NewServer\<close> uses the PASETO maker: over it, any sequence of requests keeps
  the five relations.
\<close>

interpretation ok_api: api_contract ok_kept "PasetoMaker E k" E for E k
  by unfold_locales

interpretation money_api: api_contract money_kept "PasetoMaker E k" E for E k
  by unfold_locales

interpretation ledger_api: api_contract ledger_kept "PasetoMaker E k" E for E k
  by unfold_locales

interpretation sess_api: api_contract sessions_kept "PasetoMaker E k" E for E k
  by unfold_locales

interpretation hist_api: api_contract "history_kept E" "PasetoMaker E k" E for E k
  by unfold_locales

end
