(* ===== verification/Api_Idempotency.thy ===== *)
theory Api_Idempotency
  imports Api_Contract
begin

text \<open>
  Retries of a transfer under an \<open>Idempotency-Key\<close>: what one attempt does when the key is
  free and when it is taken, and from that the guarantees over any list of attempts and
  over any requests in between.
\<close>

section \<open>One attempt\<close>

definition idem_params :: "env \<Rightarrow> Payload \<Rightarrow> string \<Rightarrow> transferRequest \<Rightarrow> IdempotentTransferTxParams" where
  "idem_params E p key req =
     \<lparr>IdempotentTransferTxParams_TransferTxParams = transfer_params req,
      IdempotentTransferTxParams_Owner = Payload_Username p,
      IdempotentTransferTxParams_Key = key,
      IdempotentTransferTxParams_RequestHash = requestFingerprint E req\<rparr>"

lemma idem_params_simps [simp]:
  "idem_params_key (idem_params E p key req) = (Payload_Username p, key)"
  "IdempotentTransferTxParams_TransferTxParams (idem_params E p key req) = transfer_params req"
  "IdempotentTransferTxParams_RequestHash (idem_params E p key req) = requestFingerprint E req"
  by (simp_all add: idem_params_def idem_params_key_def)

text \<open>The answer that replays a stored row, if the row allows it.\<close>

definition replays :: "IdempotencyKey \<Rightarrow> string \<Rightarrow> response \<Rightarrow> bool" where
  "replays row fingerprint rsp \<longleftrightarrow>
     IdempotencyKey_RequestHash row = fingerprint \<and> IdempotencyKey_ResponseBody row \<noteq> '''' \<and>
     rsp = \<lparr>status = 200, replay_header = True, resp_body = DataBody (IdempotencyKey_ResponseBody row)\<rparr>"

lemma replay_cases:
  assumes "run (replayIdempotentTransfer E owner key fp) w = (rsp, w')"
  shows "db w' = db w \<and> (status rsp = 200 \<longrightarrow>
    (\<exists>row. lookup key_of (owner, key) (idempotency_keys (db w)) = Some row \<and> replays row fp rsp))"
  using assms
  by (auto simp: replayIdempotentTransfer_def GetIdempotencyKey_def sql_GetIdempotencyKey_def run_query
      run_JSON replays_def split: fault.splits sum.splits if_splits prod.splits)

lemma claimed_same_tables:
  assumes "same_tables d1 d1'" and "claimed E ia r d1' d2'" and "same_tables d2' d2"
  shows "claimed E ia r d1 d2"
  using assms by (auto simp: same_tables_iff claimed_def transferred_def Let_def)

lemma IdempotentTransferTx_InrD:
  assumes "run (IdempotentTransferTx E ia) w = (Inr r, w')"
  shows "claimed E ia r (db w) (db w')"
proof -
  from assms obtain w1 where "run (claimAndTransfer E ia) (in_tx E w) = (Inr r, w1)" "db w' = db w1"
    unfolding IdempotentTransferTx_def by (rule execTx_InrD)
  with claimAndTransfer_claimed [OF this(1)] show ?thesis by simp
qed

lemma IdempotentTransferTx_InlD:
  assumes "run (IdempotentTransferTx E ia) w = (Inl e, w')"
  shows "same_tables (db w) (db w') \<or> (\<exists>r m. claimed E ia r (db w) (db w') \<and> e = OtherErr m)"
  using execTx_InlD [OF assms [unfolded IdempotentTransferTx_def]]
  by (auto dest!: claimAndTransfer_claimed)

lemma same_tables_trans: "same_tables a b \<Longrightarrow> same_tables b c \<Longrightarrow> same_tables a c"
  by (simp add: same_tables_iff)

text \<open>An attempt claims the key, or replays its row, or changes nothing.\<close>

lemma createTransferIdempotent_cases:
  assumes run: "run (createTransferIdempotent E req (transfer_params req) (Payload_Username p) key) w = (rsp, w')"
  obtains (claims) r where "claimed E (idem_params E p key req) r (db w) (db w')"
      "status rsp = 200 \<longrightarrow> rsp = \<lparr>status = 200, replay_header = False, resp_body = TransferBody r\<rparr>"
      "status rsp \<in> {200, 500}" "length key \<le> maxIdempotencyKeyLen"
  | (replayed) row where "same_tables (db w) (db w')" "replays row (requestFingerprint E req) rsp"
      "lookup key_of (Payload_Username p, key) (idempotency_keys (db w)) = Some row"
  | (failed) "same_tables (db w) (db w')" "status rsp \<noteq> 200"
proof (cases "length key > maxIdempotencyKeyLen")
  case True
  with run show thesis by (intro failed) (auto simp: createTransferIdempotent_def run_JSON)
next
  case False
  obtain res w1 where res: "run (IdempotentTransferTx E (idem_params E p key req)) w = (res, w1)" by fastforce
  have rest: "run (case res of
            Inr result \<Rightarrow> JSON StatusOK (TransferBody result)
          | Inl err \<Rightarrow>
              (case err of
                 PqError name constraint \<Rightarrow>
                   if name = ''unique_violation'' then
                     replayIdempotentTransfer E (Payload_Username p) key (requestFingerprint E req)
                   else if constraint = ''accounts_balance_non_negative'' then
                     errorJSON StatusBadRequest
                       (insufficient_balance (transferRequest_FromAccountID req))
                   else errorJSON StatusInternalServerError err
               | _ \<Rightarrow> errorJSON StatusInternalServerError err)) w1 = (rsp, w')"
    using run False res by (simp add: createTransferIdempotent_def Let_def idem_params_def)
  show thesis
  proof (cases res)
    case (Inr r)
    with res IdempotentTransferTx_InrD [of E] have "claimed E (idem_params E p key req) r (db w) (db w1)" by blast
    with rest Inr False show thesis by (intro claims) (auto simp: run_JSON)
  next
    case (Inl e)
    with res IdempotentTransferTx_InlD [of E] consider (same) "same_tables (db w) (db w1)"
      | (lost) r m where "claimed E (idem_params E p key req) r (db w) (db w1)" "e = OtherErr m" by blast
    then show thesis
    proof cases
      case lost
      with rest Inl False show thesis by (intro claims) (auto simp: run_JSON)
    next
      case same
      show thesis
      proof (cases "\<exists>constraint. e = PqError ''unique_violation'' constraint")
        case True
        with rest Inl have "run (replayIdempotentTransfer E (Payload_Username p) key
            (requestFingerprint E req)) w1 = (rsp, w')" by auto
        from replay_cases [OF this] same show thesis
          by (cases "status rsp = 200") (auto simp: same_tables_iff intro: replayed failed)
      next
        case False
        with rest Inl same show thesis
          by (intro failed) (auto simp: run_JSON split: error.splits if_splits)
      qed
    qed
  qed
qed

lemma attempt_cases:
  assumes "run (createTransfer E p key body) w = (rsp, w')" and "key \<noteq> ''''"
  obtains (claims) req r where "body = Some req" "authorized p req (db w)"
      "claimed E (idem_params E p key req) r (db w) (db w')" "length key \<le> maxIdempotencyKeyLen"
      "status rsp = 200 \<longrightarrow> rsp = \<lparr>status = 200, replay_header = False, resp_body = TransferBody r\<rparr>"
  | (replayed) req row where "body = Some req" "same_tables (db w) (db w')"
      "replays row (requestFingerprint E req) rsp"
      "lookup key_of (Payload_Username p, key) (idempotency_keys (db w)) = Some row"
  | (failed) "same_tables (db w) (db w')" "status rsp \<noteq> 200"
  using assms(1)
proof (cases rule: createTransfer_stages)
  case refused
  then show thesis by (intro failed) simp_all
next
  case (entered req w1)
  with assms(2) have "run (createTransferIdempotent E req (transfer_params req) (Payload_Username p) key) w1
      = (rsp, w')" by simp
  then show thesis
    by (cases rule: createTransferIdempotent_cases)
      (use entered in \<open>auto intro: claims replayed failed\<close>)
qed

section \<open>Any number of attempts\<close>

type_synonym attempt = "Payload \<times> transferRequest option"

definition attempt :: "env \<Rightarrow> string \<Rightarrow> attempt \<Rightarrow> response op" where
  "attempt E key = (\<lambda>(p, body). createTransfer E p key body)"

definition by_user :: "string \<Rightarrow> attempt list \<Rightarrow> bool" where
  "by_user u as \<longleftrightarrow> (\<forall>(p, body) \<in> set as. Payload_Username p = u)"

lemma by_user_Cons: "by_user u (a # as) \<longleftrightarrow> Payload_Username (fst a) = u \<and> by_user u as"
  by (auto simp: by_user_def)

lemma run_all_ConsE:
  assumes "run_all f (i # is) w = (rsps, w')"
  obtains rsp rs w1 where "run (f i) w = (rsp, w1)" "run_all f is w1 = (rs, w')" "rsps = rsp # rs"
  using assms by (auto split: prod.splits)

lemma claimed_row:
  assumes "claimed E ia r d d'"
  obtains body now where "lookup key_of (idem_params_key ia) (idempotency_keys d) = None"
    "json_Marshal E r = Inr body"
    "lookup key_of (idem_params_key ia) (idempotency_keys d') = Some (claim_row ia body now)"
  using assms by (auto simp: claimed_def lookup_append)

text \<open>Once the key is taken, attempts change nothing and repeat the stored answer.\<close>

lemma attempts_taken:
  assumes "key \<noteq> ''''"
  shows "run_all (attempt E key) as w = (rsps, w') \<Longrightarrow> by_user u as \<Longrightarrow>
    lookup key_of (u, key) (idempotency_keys (db w)) = Some row \<Longrightarrow>
    same_tables (db w) (db w') \<and>
    (\<forall>rsp \<in> set rsps. status rsp = 200 \<longrightarrow>
       replay_header rsp \<and> resp_body rsp = DataBody (IdempotencyKey_ResponseBody row))"
proof (induction as arbitrary: w rsps)
  case Nil
  then show ?case by simp
next
  case (Cons a as)
  obtain p body where a: "a = (p, body)" "Payload_Username p = u"
    using Cons.prems(2) by (cases a) (auto simp: by_user_Cons)
  from Cons.prems(1) obtain rsp rs w1 where first: "run (attempt E key a) w = (rsp, w1)"
    and rest: "run_all (attempt E key) as w1 = (rs, w')" "rsps = rsp # rs" by (rule run_all_ConsE)
  have "run (createTransfer E p key body) w = (rsp, w1)" using first a by (simp add: attempt_def)
  from attempt_cases [OF this assms] have step: "same_tables (db w) (db w1) \<and>
      (status rsp = 200 \<longrightarrow> replay_header rsp \<and> resp_body rsp = DataBody (IdempotencyKey_ResponseBody row))"
    using Cons.prems(3) a by cases (auto simp: replays_def elim: claimed_row)
  then have "lookup key_of (u, key) (idempotency_keys (db w1)) = Some row"
    using Cons.prems(3) by (simp add: same_tables_iff)
  from Cons.IH [OF rest(1) _ this] Cons.prems(2) step rest(2) show ?case
    by (auto simp: by_user_Cons intro: same_tables_trans)
qed

lemma attempts_once:
  assumes "key \<noteq> ''''"
  shows "run_all (attempt E key) as w = (rsps, w') \<Longrightarrow> by_user u as \<Longrightarrow>
    lookup key_of (u, key) (idempotency_keys (db w)) = None \<Longrightarrow>
    same_tables (db w) (db w') \<and> (\<forall>rsp \<in> set rsps. status rsp \<noteq> 200) \<or>
    (\<exists>p req r body. (p, Some req) \<in> set as \<and> authorized p req (db w) \<and>
       claimed E (idem_params E p key req) r (db w) (db w') \<and> json_Marshal E r = Inr body \<and>
       (\<forall>rsp \<in> set rsps. status rsp = 200 \<longrightarrow> resp_body rsp \<in> {TransferBody r, DataBody body}))"
proof (induction as arbitrary: w rsps)
  case Nil
  then show ?case by simp
next
  case (Cons a as)
  obtain p b where a: "a = (p, b)" "Payload_Username p = u"
    using Cons.prems(2) by (cases a) (auto simp: by_user_Cons)
  have users: "by_user u as" using Cons.prems(2) by (simp add: by_user_Cons)
  from Cons.prems(1) obtain rsp rs w1 where first: "run (attempt E key a) w = (rsp, w1)"
    and rest: "run_all (attempt E key) as w1 = (rs, w')" "rsps = rsp # rs" by (rule run_all_ConsE)
  have "run (createTransfer E p key b) w = (rsp, w1)" using first a by (simp add: attempt_def)
  from this assms show ?case
  proof (cases rule: attempt_cases)
    case (claims req r)
    from claims(3) obtain body now where row: "json_Marshal E r = Inr body"
      "lookup key_of (u, key) (idempotency_keys (db w1)) = Some (claim_row (idem_params E p key req) body now)"
      using a(2) by (auto elim: claimed_row)
    from attempts_taken [OF assms rest(1) users row(2)]
    have "same_tables (db w1) (db w')"
      "\<forall>rsp \<in> set rs. status rsp = 200 \<longrightarrow> resp_body rsp = DataBody body" by simp_all
    moreover from this have "claimed E (idem_params E p key req) r (db w) (db w')"
      using claims(3) by (blast intro: claimed_same_tables same_tables_refl)
    ultimately show ?thesis using claims row(1) a rest(2) by (auto intro!: exI)
  next
    case (replayed req row)
    with Cons.prems(3) a(2) show ?thesis by simp
  next
    case failed
    then have "lookup key_of (u, key) (idempotency_keys (db w1)) = None"
      and same: "authorized p req (db w1) = authorized p req (db w)" for p req
      using Cons.prems(3) by (simp_all add: same_tables_iff authorized_def)
    have lift: "claimed E ia r (db w) (db w')" if "claimed E ia r (db w1) (db w')" for ia r
      using failed(1) that by (rule claimed_same_tables) simp
    from Cons.IH [OF rest(1) users \<open>lookup key_of (u, key) (idempotency_keys (db w1)) = None\<close>]
    show ?thesis
    proof
      assume "same_tables (db w1) (db w') \<and> (\<forall>rsp \<in> set rs. status rsp \<noteq> 200)"
      with failed rest(2) same_tables_trans show ?thesis by auto
    next
      assume "\<exists>p req r body. (p, Some req) \<in> set as \<and> authorized p req (db w1) \<and>
         claimed E (idem_params E p key req) r (db w1) (db w') \<and> json_Marshal E r = Inr body \<and>
         (\<forall>rsp \<in> set rs. status rsp = 200 \<longrightarrow> resp_body rsp \<in> {TransferBody r, DataBody body})"
      with failed rest(2) lift show ?thesis unfolding same by (intro disjI2) fastforce
    qed
  qed
qed

section \<open>A retry of a committed attempt\<close>

text \<open>Authorization survives whatever happens: accounts keep owner and currency.\<close>

lemma authorized_kept: "history_kept E d d' \<Longrightarrow> authorized p req d \<Longrightarrow> authorized p req d'"
  unfolding history_kept_def authorized_def by fastforce

lemma run_claim_taken:
  assumes net: "\<And>n. tick w \<le> n \<Longrightarrow> net E n = NoFault"
    and row: "lookup key_of (idem_params_key ia) (idempotency_keys (db w)) = Some row"
  shows "\<exists>w'. run (IdempotentTransferTx E ia) w =
      (Inl (unique_violation ''idempotency_keys_pkey''), w') \<and> same_tables (db w) (db w') \<and>
    tick w' = Suc (Suc (Suc (tick w)))"
  using row net
  by (simp add: IdempotentTransferTx_def run_execTx in_tx_def claimAndTransfer_def run_try_do
      CreateIdempotencyKey_def run_query sql_CreateIdempotencyKey_def key_of_def idem_params_key_def
      Rollback_def Let_def)

lemma run_attempt_taken:
  assumes net: "\<And>n. tick w \<le> n \<Longrightarrow> net E n = NoFault"
    and auth: "authorized p req (db w)" and key: "key \<noteq> ''''" "length key \<le> maxIdempotencyKeyLen"
    and row: "lookup key_of (Payload_Username p, key) (idempotency_keys (db w)) = Some row"
  shows "\<exists>w'. run (createTransfer E p key (Some req)) w =
     (if IdempotencyKey_RequestHash row \<noteq> requestFingerprint E req then
        \<lparr>status = 409, replay_header = False, resp_body =
           ErrorBody (Errorf ''Idempotency-Key was already used for a different transfer'')\<rparr>
      else if IdempotencyKey_ResponseBody row = '''' then
        \<lparr>status = 409, replay_header = False, resp_body =
           ErrorBody (Errorf ''Idempotency-Key is still being processed'')\<rparr>
      else \<lparr>status = 200, replay_header = True,
             resp_body = DataBody (IdempotencyKey_ResponseBody row)\<rparr>, w') \<and>
    same_tables (db w) (db w')"
proof -
  let ?w = "w\<lparr>tick := Suc (Suc (tick w))\<rparr>"
  have net': "\<And>n. tick ?w \<le> n \<Longrightarrow> net E n = NoFault" using net by simp
  from run_claim_taken [where w = ?w and ia = "idem_params E p key req" and row = row, OF net'] row obtain w1 where
    w1: "run (IdempotentTransferTx E (idem_params E p key req)) ?w =
        (Inl (unique_violation ''idempotency_keys_pkey''), w1)"
    and same: "same_tables (db w) (db w1)" and t: "tick w \<le> tick w1" by auto
  have row1: "lookup key_of (Payload_Username p, key) (idempotency_keys (db w1)) = Some row"
    using row same by (simp add: same_tables_iff)
  have "run (createTransfer E p key (Some req)) w =
      run (replayIdempotentTransfer E (Payload_Username p) key (requestFingerprint E req)) w1"
    using key w1
    by (simp add: run_createTransfer_authorized [OF net auth] createTransferIdempotent_def Let_def
        flip: idem_params_def)
  then show ?thesis
    using row1 same net [OF t]
    by (auto simp: replayIdempotentTransfer_def GetIdempotencyKey_def sql_GetIdempotencyKey_def
        run_query run_JSON)
qed

text \<open>What a committed attempt leaves for every later one.\<close>

lemma committed_attempt:
  assumes "run (createTransfer E p key (Some req)) w0 = (rsp0, w1)" and "key \<noteq> ''''"
    and fresh: "lookup key_of (Payload_Username p, key) (idempotency_keys (db w0)) = None"
    and taken: "lookup key_of (Payload_Username p, key) (idempotency_keys (db w1)) \<noteq> None"
    and later: "history_kept E (db w1) (db w2)"
  obtains r body now where "claimed E (idem_params E p key req) r (db w0) (db w1)"
    "json_Marshal E r = Inr body" "length key \<le> maxIdempotencyKeyLen"
    "TransferTxResult_Transfer r \<in> set (transfers (db w2))"
    "lookup key_of (Payload_Username p, key) (idempotency_keys (db w2)) =
       Some (claim_row (idem_params E p key req) body now)"
    "authorized p req (db w2)"
  using assms(1,2)
proof (cases rule: attempt_cases)
  case (claims req' r)
  then have c: "claimed E (idem_params E p key req) r (db w0) (db w1)" by simp
  from c obtain body now where row: "json_Marshal E r = Inr body"
    "lookup key_of (Payload_Username p, key) (idempotency_keys (db w1)) =
       Some (claim_row (idem_params E p key req) body now)" by (auto elim: claimed_row)
  have "history_kept E (db w0) (db w2)" using claimed_history [OF c] later by (rule hist.Q_trans)
  from authorized_kept [OF this] claims have "authorized p req (db w2)" by simp
  moreover have "TransferTxResult_Transfer r \<in> set (transfers (db w2))"
    using c later by (auto simp: claimed_def transferred_def Let_def history_kept_def)
  moreover have "lookup key_of (Payload_Username p, key) (idempotency_keys (db w2)) =
       Some (claim_row (idem_params E p key req) body now)"
    using row(2) later by (auto simp: history_kept_def)
  ultimately show thesis using c row(1) claims(4) that by blast
next
  case (replayed req' row)
  with fresh show thesis by simp
next
  case failed
  with fresh taken show thesis by (simp add: same_tables_iff)
qed

section \<open>Properties\<close>

text \<open>
  C9: However often a user repeats a transfer under one fresh key, and however the network
  fails in between, at most one of the attempts moves money: either no row has changed and
  no attempt was answered 200, or exactly one authorized transfer of the list was committed
  together with its key, and every answer 200 carries the result of that one transfer.
\<close>

theorem retries_move_money_once:
  assumes "key \<noteq> ''''" and "by_user u as"
    and "lookup key_of (u, key) (idempotency_keys (db w)) = None"
  shows "case run_all (attempt E key) as w of (rsps, w') \<Rightarrow>
    same_tables (db w) (db w') \<and> (\<forall>rsp \<in> set rsps. status rsp \<noteq> 200) \<or>
    (\<exists>p req r body. (p, Some req) \<in> set as \<and> authorized p req (db w) \<and>
       claimed E (idem_params E p key req) r (db w) (db w') \<and> json_Marshal E r = Inr body \<and>
       (\<forall>rsp \<in> set rsps. status rsp = 200 \<longrightarrow> resp_body rsp \<in> {TransferBody r, DataBody body}))"
  using attempts_once [OF assms(1) _ assms(2,3), of E] by (auto split: prod.split)

theorem retries_move_money_once_witness:
  "case run_all (attempt example_env ''k1'')
      [(example_payload ''ann'', Some (example_request 30)), (example_payload ''ann'', Some (example_request 30))]
      example_world of (rsps, w') \<Rightarrow> length (transfers (db w')) \<le> 1"
  using retries_move_money_once [of "''k1''" "''ann''"
      "[(example_payload ''ann'', Some (example_request 30)), (example_payload ''ann'', Some (example_request 30))]"
      example_world example_env]
  by (auto simp: by_user_def example_payload_def same_tables_iff claimed_def transferred_def Let_def
      simp del: run_all.simps split: prod.splits)

text \<open>
  C10: Once an attempt has committed, even if its answer was lost, and after any further
  requests to the server, no later attempt of that user under that key changes any row; if
  it is answered 200, its request has the fingerprint of the first one and it gets the
  stored bytes of the transfer that was committed then.
\<close>

theorem committed_key_never_moves_again:
  assumes "run (createTransfer E p key (Some req)) w0 = (rsp0, w1)" and "key \<noteq> ''''"
    and "lookup key_of (Payload_Username p, key) (idempotency_keys (db w0)) = None"
    and "lookup key_of (Payload_Username p, key) (idempotency_keys (db w1)) \<noteq> None"
    and "Server_tokenMaker srv = PasetoMaker E k" and "w2 = snd (run_all (handle E srv) calls w1)"
    and "Payload_Username p' = Payload_Username p"
  shows "case run (createTransfer E p' key body') w2 of (rsp, w3) \<Rightarrow>
    same_tables (db w2) (db w3) \<and>
    (status rsp = 200 \<longrightarrow> (\<exists>req' r bytes. body' = Some req' \<and>
       requestFingerprint E req' = requestFingerprint E req \<and>
       claimed E (idem_params E p key req) r (db w0) (db w1) \<and>
       TransferTxResult_Transfer r \<in> set (transfers (db w2)) \<and> json_Marshal E r = Inr bytes \<and>
       rsp = \<lparr>status = 200, replay_header = True, resp_body = DataBody bytes\<rparr>))"
proof -
  have "history_kept E (db w1) (db w2)" using hist_api.handle_all_rel [OF assms(5)] assms(6) by simp
  from committed_attempt [OF assms(1-4) this] obtain r bytes now where
    c: "claimed E (idem_params E p key req) r (db w0) (db w1)" "json_Marshal E r = Inr bytes"
      "TransferTxResult_Transfer r \<in> set (transfers (db w2))"
    and row: "lookup key_of (Payload_Username p', key) (idempotency_keys (db w2)) =
       Some (claim_row (idem_params E p key req) bytes now)"
    using assms(7) by metis
  obtain rsp w3 where run: "run (createTransfer E p' key body') w2 = (rsp, w3)" by fastforce
  from run assms(2) show ?thesis
  proof (cases rule: attempt_cases)
    case (claims req' r')
    with row show ?thesis by (simp add: claimed_def)
  next
    case (replayed req' row')
    with row run c show ?thesis by (auto simp: replays_def)
  next
    case failed
    with run show ?thesis by simp
  qed
qed

lemma example_first_attempt:
  "\<exists>rsp0 w1. run (createTransfer example_env (example_payload ''ann'') ''k1'' (Some (example_request 30)))
     example_world = (rsp0, w1) \<and>
   lookup key_of (''ann'', ''k1'') (idempotency_keys (db w1)) \<noteq> None"
proof -
  have auth: "authorized (example_payload ''ann'') (example_request 30) (db example_world)"
    using example_authorized [of 30] by simp
  have h: "run (createTransfer example_env (example_payload ''ann'') ''k1'' (Some (example_request 30))) example_world =
    run (createTransferIdempotent example_env (example_request 30) (transfer_params (example_request 30)) ''ann'' ''k1'')
      (example_world\<lparr>tick := 2\<rparr>)"
    using run_createTransfer_authorized [OF _ auth, of example_env "''k1''"]
    by (simp add: example_payload_def numeral_2_eq_2)
  show ?thesis
    unfolding h
    by (simp add: createTransferIdempotent_def maxIdempotencyKeyLen_def Let_def IdempotentTransferTx_def
        run_execTx in_tx_def claimAndTransfer_def transferTx_def addMoney_def run_try_do
        CreateIdempotencyKey_def CompleteIdempotencyKey_def CreateTransfer_def CreateEntry_def
        AddAccountBalance_def run_query sql_CreateIdempotencyKey_def sql_CompleteIdempotencyKey_def
        sql_CreateTransfer_def sql_CreateEntry_def sql_AddAccountBalance_def nextval_def in_int64_def
        Commit_def key_of_def transfer_params_def example_request_def add_to_balance_def run_JSON
        lookup_def example_defs)
qed

theorem committed_key_never_moves_again_witness:
  "\<exists>w1. lookup key_of (''ann'', ''k1'') (idempotency_keys (db w1)) \<noteq> None \<and>
     (let w2 = snd (run_all (handle example_env example_server) [Http GetHealthLive] w1) in
      transfers (db (snd (run (createTransfer example_env (example_payload ''ann'') ''k1''
        (Some (example_request 31))) w2))) = transfers (db w2))"
proof -
  obtain rsp0 w1 where first: "run (createTransfer example_env (example_payload ''ann'') ''k1''
      (Some (example_request 30))) example_world = (rsp0, w1)"
    and taken: "lookup key_of (''ann'', ''k1'') (idempotency_keys (db w1)) \<noteq> None"
    using example_first_attempt by auto
  have absent: "lookup key_of (Payload_Username (example_payload ''ann''), ''k1'')
      (idempotency_keys (db example_world)) = None" by simp
  have taken': "lookup key_of (Payload_Username (example_payload ''ann''), ''k1'')
      (idempotency_keys (db w1)) \<noteq> None" using taken by (simp add: example_payload_def)
  have "case run (createTransfer example_env (example_payload ''ann'') ''k1'' (Some (example_request 31)))
      (snd (run_all (handle example_env example_server) [Http GetHealthLive] w1)) of (rsp, w3) \<Rightarrow>
      same_tables (db (snd (run_all (handle example_env example_server) [Http GetHealthLive] w1))) (db w3)"
    using committed_key_never_moves_again [OF first(1) _ absent taken' example_server_maker refl refl,
        of "[Http GetHealthLive]" "Some (example_request 31)"]
    by (auto simp del: run_all.simps split: prod.splits)
  with taken show ?thesis
    by (auto simp: same_tables_iff Let_def simp del: run_all.simps split: prod.splits)
qed


definition example_row :: IdempotencyKey where
  "example_row = \<lparr>IdempotencyKey_Owner = ''ann'', IdempotencyKey_Key = ''k1'',
     IdempotencyKey_RequestHash = requestFingerprint example_env (example_request 30),
     IdempotencyKey_ResponseBody = ''stored'', IdempotencyKey_CreatedAt = 0\<rparr>"


text \<open>
  C11: A client that repeats the same request until the network recovers gets its result:
  once an attempt has committed, and after any further requests to the server, the same
  request on a calm connection is answered 200 with the stored bytes of that transfer.
\<close>

theorem retry_gets_the_result:
  assumes "run (createTransfer E p key (Some req)) w0 = (rsp0, w1)" and "key \<noteq> ''''"
    and "lookup key_of (Payload_Username p, key) (idempotency_keys (db w0)) = None"
    and "lookup key_of (Payload_Username p, key) (idempotency_keys (db w1)) \<noteq> None"
    and "Server_tokenMaker srv = PasetoMaker E k" and "w2 = snd (run_all (handle E srv) calls w1)"
    and "\<And>n. tick w2 \<le> n \<Longrightarrow> net E n = NoFault" and "\<And>r. json_Marshal E r \<noteq> Inr ''''"
  shows "\<exists>r bytes. claimed E (idem_params E p key req) r (db w0) (db w1) \<and>
    json_Marshal E r = Inr bytes \<and>
    fst (run (createTransfer E p key (Some req)) w2) =
      \<lparr>status = 200, replay_header = True, resp_body = DataBody bytes\<rparr>"
proof -
  have "history_kept E (db w1) (db w2)" using hist_api.handle_all_rel [OF assms(5)] assms(6) by simp
  from committed_attempt [OF assms(1-4) this] obtain r bytes now where
    c: "claimed E (idem_params E p key req) r (db w0) (db w1)" "json_Marshal E r = Inr bytes"
      "length key \<le> maxIdempotencyKeyLen" "authorized p req (db w2)"
    and row: "lookup key_of (Payload_Username p, key) (idempotency_keys (db w2)) =
       Some (claim_row (idem_params E p key req) bytes now)" by metis
  from run_attempt_taken [OF assms(7) c(4) assms(2) c(3) row] c(1,2) assms(8) [of r] show ?thesis by auto
qed

theorem retry_gets_the_result_witness:
  "\<exists>w1 bytes. lookup key_of (''ann'', ''k1'') (idempotency_keys (db w1)) \<noteq> None \<and>
     fst (run (createTransfer example_env (example_payload ''ann'') ''k1'' (Some (example_request 30)))
        (snd (run_all (handle example_env example_server) [Http GetHealthReady] w1))) =
     \<lparr>status = 200, replay_header = True, resp_body = DataBody bytes\<rparr>"
proof -
  obtain rsp0 w1 where first: "run (createTransfer example_env (example_payload ''ann'') ''k1''
      (Some (example_request 30))) example_world = (rsp0, w1)"
    and taken: "lookup key_of (''ann'', ''k1'') (idempotency_keys (db w1)) \<noteq> None"
    using example_first_attempt by auto
  have absent: "lookup key_of (Payload_Username (example_payload ''ann''), ''k1'')
      (idempotency_keys (db example_world)) = None" by simp
  have taken': "lookup key_of (Payload_Username (example_payload ''ann''), ''k1'')
      (idempotency_keys (db w1)) \<noteq> None" using taken by (simp add: example_payload_def)
  show ?thesis
    using retry_gets_the_result [OF first(1) _ absent taken' example_server_maker refl, of "[Http GetHealthReady]"]
      taken by (auto simp del: run_all.simps)
qed

text \<open>
  One user's key neither collides with nor reads back another user's result: a 200 of a
  keyed attempt either reports a transfer of this attempt out of an account of the caller,
  or comes from a row that belongs to the caller, has this key and this fingerprint.
\<close>

theorem keyed_answer_is_own:
  assumes "run (createTransfer E p key body) w = (rsp, w')" and "key \<noteq> ''''" and "status rsp = 200"
  shows "\<exists>req. body = Some req \<and>
    ((\<exists>r. authorized p req (db w) \<and> claimed E (idem_params E p key req) r (db w) (db w') \<and>
        resp_body rsp = TransferBody r) \<or>
     (\<exists>row \<in> set (idempotency_keys (db w)). IdempotencyKey_Owner row = Payload_Username p \<and>
        IdempotencyKey_Key row = key \<and> IdempotencyKey_RequestHash row = requestFingerprint E req \<and>
        resp_body rsp = DataBody (IdempotencyKey_ResponseBody row)))"
  using assms(1,2)
proof (cases rule: attempt_cases)
  case (claims req r)
  with assms(3) show ?thesis by auto
next
  case (replayed req row)
  with lookup_SomeD [OF replayed(4)] show ?thesis by (auto simp: replays_def key_of_def)
next
  case failed
  with assms(3) show ?thesis by simp
qed

theorem keyed_answer_is_own_witness:
  "\<exists>rsp w' req. run (createTransfer example_env (example_payload ''ann'') ''k1'' (Some (example_request 30)))
      (example_world\<lparr>db := example_db\<lparr>idempotency_keys := [example_row]\<rparr>\<rparr>) = (rsp, w') \<and>
    status rsp = 200 \<and> Some (example_request 30) = Some req"
proof -
  let ?w = "example_world\<lparr>db := example_db\<lparr>idempotency_keys := [example_row]\<rparr>\<rparr>"
  have auth: "authorized (example_payload ''ann'') (example_request 30) (db ?w)"
    using example_authorized [of 30] by (simp add: authorized_def)
  have row: "lookup key_of (Payload_Username (example_payload ''ann''), ''k1'') (idempotency_keys (db ?w)) =
      Some example_row" by (simp add: example_row_def key_of_def example_payload_def)
  obtain rsp w' where run: "run (createTransfer example_env (example_payload ''ann'') ''k1''
      (Some (example_request 30))) ?w = (rsp, w')" and ok: "status rsp = 200"
    using run_attempt_taken [OF _ auth _ _ row, of example_env]
    by (auto simp: example_row_def maxIdempotencyKeyLen_def)
  from keyed_answer_is_own [OF run _ ok] run ok show ?thesis by auto
qed

end
