(* ===== verification/Api_Session.thy ===== *)
theory Api_Session
  imports Api_Idempotency
begin

text \<open>
  Signing in, renewing and signing out: what each handler does to the sessions, and what
  that means over any further requests.
\<close>

section \<open>Renewing\<close>

interpretation same: db_relation "(=)"
  by unfold_locales auto

lemma same_JSON: "always (on_db (=)) (JSON code b)" "always (on_db (=)) (errorJSON code err)"
  by (simp_all add: JSON_def errorJSON_def same.always_ret)

lemma renew_same_db:
  assumes "Server_tokenMaker srv = PasetoMaker E k"
  shows "always (on_db (=)) (renewAccessToken E srv body)"
  unfolding renewAccessToken_def assms
  by (intro same.always_intros same.read_only_rel same.time_Now_rel same_JSON
      paseto.maker_rel same.db_relation_axioms)

text \<open>When a refresh token is good for a new access token: the conditions of the handler.\<close>

definition renewable :: "env \<Rightarrow> string \<Rightarrow> string \<Rightarrow> Payload \<Rightarrow> Session \<Rightarrow> database \<Rightarrow> bool" where
  "renewable E k tok p s d \<longleftrightarrow>
     paseto_Decrypt E tok k = Inr p \<and> lookup Session_ID (Payload_ID p) (sessions d) = Some s \<and>
     \<not> Session_IsBlocked s \<and> Session_Username s = Payload_Username p \<and> Session_RefreshToken s = tok"

lemma renew_200:
  assumes run: "run (renewAccessToken E srv body) w = (rsp, w')" and ok: "status rsp = 200"
    and maker: "Server_tokenMaker srv = PasetoMaker E k"
  obtains req p s tok ap n where
      "body = Some req"
      "renewable E k (renewAccessTokenRequest_RefreshToken req) p s (db w)"
      "clock E (tick w) \<le> Payload_ExpiredAt p" "clock E (tick w + 2) \<le> Session_ExpiresAt s"
      "paseto_Encrypt E n k ap = Inr tok" "Payload_Username ap = Payload_Username p"
      "rsp = \<lparr>status = 200, replay_header = False, resp_body = RenewBody \<lparr>renewAccessTokenResponse_AccessToken = tok,
          renewAccessTokenResponse_AccessTokenExpiresAt = Payload_ExpiredAt ap\<rparr>\<rparr>"
proof -
  note run' = run [unfolded renewAccessToken_def maker]
  from run ok obtain req where body: "body = Some req" "renewAccessTokenRequest_valid req"
    by (auto simp: renewAccessToken_def ShouldBind_def run_JSON split: option.splits if_splits)
  let ?tok = "renewAccessTokenRequest_RefreshToken req"
  from run' body obtain v w1 where v: "run (VerifyToken (PasetoMaker E k) ?tok) w = (v, w1)" by fastforce
  from run' ok body v obtain p where p: "v = Inr p"
    by (cases v) (auto simp: run_JSON)
  with v have dec: "paseto_Decrypt E ?tok k = Inr p" "clock E (tick w) \<le> Payload_ExpiredAt p"
    and w1: "w1 = w\<lparr>tick := tick w + 1\<rparr>"
    by (auto simp: PasetoMaker_def run_paseto_VerifyToken split: sum.splits if_splits)
  obtain g w2 where g: "run (GetSession E (Payload_ID p)) w1 = (g, w2)" by fastforce
  with run' ok body v p obtain s where s: "g = Inr s" by (cases g) (auto simp: run_JSON split: if_splits)
  with g w1 have look: "lookup Session_ID (Payload_ID p) (sessions (db w)) = Some s"
    and w2: "w2 = w\<lparr>tick := tick w + 2\<rparr>"
    by (auto simp: GetSession_def sql_GetSession_def run_query split: fault.splits)
  with run' ok body v p g s dec have ren: "renewable E k ?tok p s (db w)"
    by (auto simp: renewable_def run_JSON split: if_splits)
  obtain c w4 where c: "run (CreateToken (PasetoMaker E k) (Payload_Username p)
      (Config_AccessTokenDuration (Server_config srv))) (w\<lparr>tick := tick w + 3\<rparr>) = (c, w4)" by fastforce
  from run' ok body v p g s ren w2 have exp: "clock E (tick w + 2) \<le> Session_ExpiresAt s"
    by (auto simp: renewable_def run_JSON run_time_Now split: if_splits)
  with run' body v p g s ren w2 c have last: "run (case c of
          Inl err \<Rightarrow> errorJSON StatusInternalServerError err
        | Inr (accessToken, accessPayload) \<Rightarrow>
            JSON StatusOK (RenewBody \<lparr>renewAccessTokenResponse_AccessToken = accessToken,
          renewAccessTokenResponse_AccessTokenExpiresAt = Payload_ExpiredAt accessPayload\<rparr>)) w4 = (rsp, w')"
    by (auto simp: renewable_def run_time_Now numeral_3_eq_3)
  with ok obtain tok ap where "c = Inr (tok, ap)" by (cases c) (auto simp: run_JSON)
  with c last obtain n where "paseto_Encrypt E n k ap = Inr tok" "Payload_Username ap = Payload_Username p"
      "rsp = \<lparr>status = 200, replay_header = False, resp_body = RenewBody \<lparr>renewAccessTokenResponse_AccessToken = tok,
          renewAccessTokenResponse_AccessTokenExpiresAt = Payload_ExpiredAt ap\<rparr>\<rparr>"
    by (auto simp: PasetoMaker_def run_paseto_CreateToken Let_def run_JSON split: sum.splits prod.splits)
  with body(1) ren exp dec that show thesis by blast
qed

lemma sessions_kept_blocked:
  assumes "sessions_kept d d'" and "lookup Session_ID i (sessions d) = Some s" and "Session_IsBlocked s"
  obtains s' where "lookup Session_ID i (sessions d') = Some s'" "Session_IsBlocked s'"
  using assms block_simps(8) unfolding sessions_kept_def by blast

lemma blocked_not_renewed:
  assumes maker: "Server_tokenMaker srv = PasetoMaker E k"
    and "lookup Session_ID (Payload_ID p) (sessions (db w)) = Some s" "Session_IsBlocked s"
    and "paseto_Decrypt E tok k = Inr p"
  shows "status (fst (run (renewAccessToken E srv (Some \<lparr>renewAccessTokenRequest_RefreshToken = tok\<rparr>)) w)) \<noteq> 200"
proof
  assume ok: "status (fst (run (renewAccessToken E srv (Some \<lparr>renewAccessTokenRequest_RefreshToken = tok\<rparr>)) w)) = 200"
  obtain rsp w' where run: "run (renewAccessToken E srv (Some \<lparr>renewAccessTokenRequest_RefreshToken = tok\<rparr>)) w = (rsp, w')"
    by fastforce
  from run ok have ok': "status rsp = 200" by simp
  from run ok' maker show False
  proof (rule renew_200)
    fix req p' s'
    assume "Some \<lparr>renewAccessTokenRequest_RefreshToken = tok\<rparr> = Some req"
      and "renewable E k (renewAccessTokenRequest_RefreshToken req) p' s' (db w)"
    with assms show False by (auto simp: renewable_def)
  qed
qed

section \<open>Signing out\<close>

lemma run_logoutAll:
  "run (logoutAll E p) w =
     (case net E (tick w) of
        NoFault \<Rightarrow> (\<lparr>status = 200, replay_header = False, resp_body = LogoutAllBody \<lparr>logoutAllResponse_SessionsRevoked =
            of_nat (length (filter (open_session (Payload_Username p)) (sessions (db w))))\<rparr>\<rparr>,
          w\<lparr>db := (db w)\<lparr>sessions := update_where (open_session (Payload_Username p)) block (sessions (db w))\<rparr>,
            tick := Suc (tick w)\<rparr>)
      | FaultBefore m \<Rightarrow> (\<lparr>status = 500, replay_header = False, resp_body = ErrorBody (OtherErr m)\<rparr>,
          w\<lparr>tick := Suc (tick w)\<rparr>)
      | FaultAfter m \<Rightarrow> (\<lparr>status = 500, replay_header = False, resp_body = ErrorBody (OtherErr m)\<rparr>,
          w\<lparr>db := (db w)\<lparr>sessions := update_where (open_session (Payload_Username p)) block (sessions (db w))\<rparr>,
            tick := Suc (tick w)\<rparr>))"
  by (simp add: logoutAll_def BlockUserSessions_def sql_BlockUserSessions_def run_query run_JSON
      split: fault.split)

lemma logout_cases:
  assumes run: "run (logout E srv p body) w = (rsp, w')"
    and maker: "Server_tokenMaker srv = PasetoMaker E k"
  obtains (unchanged) "db w' = db w" "status rsp \<noteq> 200"
  | (known) req q s where "body = Some req" "paseto_Decrypt E (logoutRequest_RefreshToken req) k = Inr q"
      "lookup Session_ID (Payload_ID q) (sessions (db w)) = Some s"
      "Session_Username s = Payload_Username p"
      "db w' = db w \<and> (Session_IsBlocked s \<or> status rsp \<noteq> 200) \<or>
       db w' = (db w)\<lparr>sessions := update_where (\<lambda>r. Session_ID r = Payload_ID q) block (sessions (db w))\<rparr>"
      "status rsp \<in> {200, 500}" "status rsp = 200 \<longrightarrow> resp_body rsp = LogoutBody \<lparr>logoutResponse_SessionID = Payload_ID q\<rparr>"
proof -
  note run' = run [unfolded logout_def maker]
  show thesis
  proof (cases "ShouldBind logoutRequest_valid body")
    case (Inl e)
    with run show thesis by (intro unchanged) (auto simp: logout_def run_JSON)
  next
    case body: (Inr req)
    obtain v w1 where v: "run (VerifyToken (PasetoMaker E k) (logoutRequest_RefreshToken req)) w = (v, w1)"
      by fastforce
    have w1: "db w1 = db w" using paseto.verify_db [OF v] by simp
    show thesis
    proof (cases v)
      case (Inl e)
      with run' body v w1 show thesis by (intro unchanged) (auto simp: run_JSON)
    next
      case q: (Inr q)
      with v have dec: "paseto_Decrypt E (logoutRequest_RefreshToken req) k = Inr q"
        by (auto simp: PasetoMaker_def run_paseto_VerifyToken split: sum.splits if_splits)
      obtain g w2 where g: "run (GetSession E (Payload_ID q)) w1 = (g, w2)" by fastforce
      then have w2: "db w2 = db w" using w1
        by (auto simp: GetSession_def sql_GetSession_def run_query split: fault.splits)
      show thesis
      proof (cases g)
        case (Inl e)
        with run' body v q g w2 show thesis by (intro unchanged) (auto simp: run_JSON split: if_splits)
      next
        case s: (Inr s)
        with g w1 have look: "lookup Session_ID (Payload_ID q) (sessions (db w)) = Some s"
          by (auto simp: GetSession_def sql_GetSession_def run_query split: fault.splits)
        with lookup_SomeD [OF look] have id: "Session_ID s = Payload_ID q" by simp
        from run' body v q g s have rest: "run (if Session_Username s \<noteq> Payload_Username p then
              errorJSON StatusUnauthorized (Errorf ''session doesn't belong to the authenticated user'')
            else if Session_IsBlocked s then JSON StatusOK (LogoutBody \<lparr>logoutResponse_SessionID = Session_ID s\<rparr>)
            else do {
              b \<leftarrow> BlockSession E (Session_ID s);
              case b of
                Inl err \<Rightarrow> errorJSON StatusInternalServerError err
              | Inr blocked \<Rightarrow> JSON StatusOK (LogoutBody \<lparr>logoutResponse_SessionID = Session_ID blocked\<rparr>)
            }) w2 = (rsp, w')" by simp
        show thesis
        proof (cases "Session_Username s = Payload_Username p")
          case False
          with rest w2 show thesis by (intro unchanged) (auto simp: run_JSON)
        next
          case True
          with rest w2 id look body dec show thesis
            by (intro known [of req q s])
              (auto simp: run_JSON BlockSession_def sql_BlockSession_def run_query split: fault.splits if_splits)
        qed
      qed
    qed
  qed
qed

section \<open>Properties\<close>

definition example_session :: "bool \<Rightarrow> Session" where
  "example_session b = \<lparr>Session_ID = 7, Session_Username = ''ann'',
     Session_RefreshToken = example_encrypt ''key'' (example_payload ''ann''),
     Session_UserAgent = '''', Session_ClientIp = '''', Session_IsBlocked = b,
     Session_ExpiresAt = 1000, Session_CreatedAt = 0\<rparr>"

definition session_world :: "bool \<Rightarrow> world" where
  "session_world b = example_world\<lparr>db := example_db\<lparr>sessions := [example_session b]\<rparr>\<rparr>"

lemma session_world_simps [simp]:
  "sessions (db (session_world b)) = [example_session b]" "tick (session_world b) = 0"
  "Session_ID (example_session b) = 7" "Session_Username (example_session b) = ''ann''"
  "Session_IsBlocked (example_session b) = b"
  "example_decrypt (Session_RefreshToken (example_session b)) ''key'' = Inr (example_payload ''ann'')"
  by (simp_all add: session_world_def example_session_def example_decrypt_encrypt)

text \<open>
  C25: An access token is renewed only for a refresh token that decrypts under the server's
  key and has not expired, whose session exists, is not blocked, belongs to the same user,
  holds exactly this token and has not expired either; the new token is for that user. The
  call changes nothing in the database.
\<close>

theorem renew_only_for_a_live_session:
  assumes "Server_tokenMaker srv = PasetoMaker E k"
  shows "case run (renewAccessToken E srv body) w of (rsp, w') \<Rightarrow>
    db w' = db w \<and>
    (status rsp \<noteq> 200 \<or>
     (\<exists>req p s tok ap n. body = Some req \<and>
        renewable E k (renewAccessTokenRequest_RefreshToken req) p s (db w) \<and>
        clock E (tick w) \<le> Payload_ExpiredAt p \<and> clock E (tick w + 2) \<le> Session_ExpiresAt s \<and>
        paseto_Encrypt E n k ap = Inr tok \<and> Payload_Username ap = Payload_Username p \<and>
        resp_body rsp = RenewBody \<lparr>renewAccessTokenResponse_AccessToken = tok,
          renewAccessTokenResponse_AccessTokenExpiresAt = Payload_ExpiredAt ap\<rparr>))"
proof (cases "run (renewAccessToken E srv body) w")
  case (Pair rsp w')
  from alwaysD [OF renew_same_db [OF assms] this] have "db w' = db w" by (simp add: on_db_def)
  moreover have "\<exists>req p s tok ap n. body = Some req \<and>
      renewable E k (renewAccessTokenRequest_RefreshToken req) p s (db w) \<and>
      clock E (tick w) \<le> Payload_ExpiredAt p \<and> clock E (tick w + 2) \<le> Session_ExpiresAt s \<and>
      paseto_Encrypt E n k ap = Inr tok \<and> Payload_Username ap = Payload_Username p \<and>
      resp_body rsp = RenewBody \<lparr>renewAccessTokenResponse_AccessToken = tok,
          renewAccessTokenResponse_AccessTokenExpiresAt = Payload_ExpiredAt ap\<rparr>" if ok: "status rsp = 200"
    using renew_200 [OF Pair ok assms] by (metis response.select_convs(3))
  ultimately show ?thesis using Pair by auto
qed

theorem renew_only_for_a_live_session_witness:
  "status (fst (run (renewAccessToken example_env example_server (Some
     \<lparr>renewAccessTokenRequest_RefreshToken = Session_RefreshToken (example_session True)\<rparr>))
     (session_world True))) \<noteq> 200"
  using renew_only_for_a_live_session [where body = "Some
     \<lparr>renewAccessTokenRequest_RefreshToken = Session_RefreshToken (example_session True)\<rparr>"
     and w = "session_world True", OF example_server_maker]
  by (auto simp: renewable_def split: prod.splits if_splits)

text \<open>
  A blocked session is blocked for good: after any requests to the server, no refresh
  token that decrypts to that session id is ever exchanged for an access token again.
\<close>

theorem blocked_session_never_renews:
  assumes maker: "Server_tokenMaker srv = PasetoMaker E k"
    and "lookup Session_ID i (sessions (db w)) = Some s" and "Session_IsBlocked s"
    and "paseto_Decrypt E tok k = Inr p" and "Payload_ID p = i"
  shows "status (fst (run (renewAccessToken E srv (Some \<lparr>renewAccessTokenRequest_RefreshToken = tok\<rparr>))
    (snd (run_all (handle E srv) calls w)))) \<noteq> 200"
proof -
  obtain s' where "lookup Session_ID i (sessions (db (snd (run_all (handle E srv) calls w)))) = Some s'"
    "Session_IsBlocked s'"
    using sess_api.handle_all_rel [OF maker] assms(2,3) by (rule sessions_kept_blocked)
  with assms blocked_not_renewed [OF maker] show ?thesis by blast
qed

theorem blocked_session_never_renews_witness:
  "status (fst (run (renewAccessToken example_env example_server (Some
     \<lparr>renewAccessTokenRequest_RefreshToken = Session_RefreshToken (example_session True)\<rparr>))
     (snd (run_all (handle example_env example_server) [Http GetHealthLive] (session_world True))))) \<noteq> 200"
  using blocked_session_never_renews [OF example_server_maker, of 7 "session_world True" "example_session True"
      "Session_RefreshToken (example_session True)" "example_payload ''ann''" "[Http GetHealthLive]"]
  by (simp add: example_payload_def del: run_all.simps)

text \<open>
  C29: Signing out everywhere works: when \<open>POST /users/logout_all\<close> is answered 200, every
  session the user had is blocked, the answer counts those that were open, and after any
  further requests none of them ever renews an access token again.
\<close>

theorem logoutAll_ends_every_session:
  assumes "Server_tokenMaker srv = PasetoMaker E k"
    and "run (logoutAll E p) w = (rsp, w1)" and "status rsp = 200"
    and "lookup Session_ID i (sessions (db w)) = Some s" and "Session_Username s = Payload_Username p"
    and "paseto_Decrypt E tok k = Inr q" and "Payload_ID q = i"
  shows "resp_body rsp = LogoutAllBody \<lparr>logoutAllResponse_SessionsRevoked =
      of_nat (length (filter (open_session (Payload_Username p)) (sessions (db w))))\<rparr> \<and>
    (\<forall>s \<in> set (sessions (db w1)). Session_Username s = Payload_Username p \<longrightarrow> Session_IsBlocked s) \<and>
    status (fst (run (renewAccessToken E srv (Some \<lparr>renewAccessTokenRequest_RefreshToken = tok\<rparr>))
      (snd (run_all (handle E srv) calls w1)))) \<noteq> 200"
proof -
  from assms(2,3) have w1: "sessions (db w1) = update_where (open_session (Payload_Username p)) block (sessions (db w))"
    and rsp: "resp_body rsp = LogoutAllBody \<lparr>logoutAllResponse_SessionsRevoked =
      of_nat (length (filter (open_session (Payload_Username p)) (sessions (db w))))\<rparr>"
    by (auto simp: run_logoutAll split: fault.splits)
  from assms(4,5) have "\<exists>s'. lookup Session_ID i (sessions (db w1)) = Some s' \<and> Session_IsBlocked s'"
    by (auto simp: w1 lookup_block open_session_def)
  then obtain s1 where s1: "lookup Session_ID i (sessions (db w1)) = Some s1" "Session_IsBlocked s1" by auto
  obtain s2 where "lookup Session_ID i (sessions (db (snd (run_all (handle E srv) calls w1)))) = Some s2"
    "Session_IsBlocked s2"
    using sess_api.handle_all_rel [OF assms(1)] s1 by (rule sessions_kept_blocked)
  then have "status (fst (run (renewAccessToken E srv (Some \<lparr>renewAccessTokenRequest_RefreshToken = tok\<rparr>))
      (snd (run_all (handle E srv) calls w1)))) \<noteq> 200"
    using assms blocked_not_renewed [OF assms(1)] by blast
  with rsp w1 show ?thesis by (auto simp: set_update_where open_session_def)
qed

theorem logoutAll_ends_every_session_witness:
  "\<exists>w1. run (logoutAll example_env (example_payload ''ann'')) (session_world False) =
      (\<lparr>status = 200, replay_header = False, resp_body = LogoutAllBody \<lparr>logoutAllResponse_SessionsRevoked = 1\<rparr>\<rparr>, w1) \<and>
    status (fst (run (renewAccessToken example_env example_server (Some
      \<lparr>renewAccessTokenRequest_RefreshToken = Session_RefreshToken (example_session True)\<rparr>))
      (snd (run_all (handle example_env example_server) [Http GetHealthLive] w1)))) \<noteq> 200"
proof -
  obtain w1 where run: "run (logoutAll example_env (example_payload ''ann'')) (session_world False) =
      (\<lparr>status = 200, replay_header = False, resp_body = LogoutAllBody \<lparr>logoutAllResponse_SessionsRevoked = 1\<rparr>\<rparr>, w1)"
    by (simp add: run_logoutAll open_session_def example_payload_def)
  show ?thesis
    using logoutAll_ends_every_session [OF example_server_maker run, of 7 "example_session False"
        "Session_RefreshToken (example_session True)" "example_payload ''ann''" "[Http GetHealthLive]"] run
    by (auto simp: example_payload_def simp del: run_all.simps)
qed

text \<open>
  C28: \<open>POST /users/logout\<close> touches nothing but one session of the authenticated user, and an
  answer 200 names a session of that user which the presented token decrypts to and which
  is blocked from then on.
\<close>

theorem logout_only_own_session:
  assumes "Server_tokenMaker srv = PasetoMaker E k"
  shows "case run (logout E srv p body) w of (rsp, w') \<Rightarrow>
    (db w' = db w \<or>
     (\<exists>i s. lookup Session_ID i (sessions (db w)) = Some s \<and> Session_Username s = Payload_Username p \<and>
        db w' = (db w)\<lparr>sessions := update_where (\<lambda>r. Session_ID r = i) block (sessions (db w))\<rparr>)) \<and>
    (status rsp \<noteq> 200 \<or>
     (\<exists>req q s'. body = Some req \<and> paseto_Decrypt E (logoutRequest_RefreshToken req) k = Inr q \<and>
        resp_body rsp = LogoutBody \<lparr>logoutResponse_SessionID = Payload_ID q\<rparr> \<and>
        lookup Session_ID (Payload_ID q) (sessions (db w')) = Some s' \<and> Session_IsBlocked s' \<and>
        Session_Username s' = Payload_Username p))"
proof (cases "run (logout E srv p body) w")
  case (Pair rsp w')
  from this assms show ?thesis
  proof (cases rule: logout_cases)
    case unchanged
    with Pair show ?thesis by simp
  next
    case (known req q s)
    have blocked: "lookup Session_ID (Payload_ID q)
        (update_where (\<lambda>r. Session_ID r = Payload_ID q) block (sessions (db w))) = Some (block s)"
      using known(3) by (simp add: lookup_update_where)
    from known(5) show ?thesis
    proof
      assume "db w' = db w \<and> (Session_IsBlocked s \<or> status rsp \<noteq> 200)"
      with Pair known show ?thesis by auto
    next
      assume "db w' = (db w)\<lparr>sessions := update_where (\<lambda>r. Session_ID r = Payload_ID q) block (sessions (db w))\<rparr>"
      with Pair known blocked show ?thesis by auto
    qed
  qed
qed

theorem logout_only_own_session_witness:
  "db (snd (run (logout example_env example_server (example_payload ''bob'') (Some
     \<lparr>logoutRequest_RefreshToken = Session_RefreshToken (example_session False)\<rparr>)) (session_world False))) =
   db (session_world False)"
  using logout_only_own_session [where p = "example_payload ''bob''" and w = "session_world False"
      and body = "Some \<lparr>logoutRequest_RefreshToken = Session_RefreshToken (example_session False)\<rparr>",
      OF example_server_maker]
  by (auto simp: example_payload_def split: prod.splits if_splits)

section \<open>Signing in\<close>

lemma login_200:
  assumes run: "run (loginUser E srv ua ip body) w = (rsp, w')" and ok: "status rsp = 200"
    and maker: "Server_tokenMaker srv = PasetoMaker E k"
  obtains req u ap acc rp ref n m s where
      "body = Some req" "lookup User_Username (loginUserRequest_Username req) (users (db w)) = Some u"
      "CheckPassword E (loginUserRequest_Password req) (User_HashedPassword u) = None"
      "paseto_Encrypt E n k ap = Inr acc" "Payload_Username ap = User_Username u"
      "paseto_Encrypt E m k rp = Inr ref" "Payload_Username rp = User_Username u"
      "lookup Session_ID (Payload_ID rp) (sessions (db w)) = None"
      "db w' = (db w)\<lparr>sessions := sessions (db w) @ [s]\<rparr>"
      "Session_ID s = Payload_ID rp" "Session_Username s = User_Username u" "Session_RefreshToken s = ref"
      "\<not> Session_IsBlocked s" "Session_ExpiresAt s = pg_timestamp E (Payload_ExpiredAt rp)"
      "rsp = \<lparr>status = 200, replay_header = False, resp_body = LoginBody
         \<lparr>loginUserResponse_SessionID = Session_ID s, loginUserResponse_AccessToken = acc,
          loginUserResponse_AccessTokenExpiresAt = Payload_ExpiredAt ap,
          loginUserResponse_RefreshToken = ref,
          loginUserResponse_RefreshTokenExpiresAt = Payload_ExpiredAt rp,
          loginUserResponse_User = newUserResponse u\<rparr>\<rparr>"
proof -
  note run' = run [unfolded loginUser_def maker]
  from run ok obtain req where body: "body = Some req" "loginUserRequest_valid req"
    by (auto simp: loginUser_def ShouldBind_def run_JSON split: option.splits if_splits)
  obtain g w1 where g: "run (GetUser E (loginUserRequest_Username req)) w = (g, w1)" by fastforce
  with run' ok body obtain u where u: "g = Inr u" by (cases g) (auto simp: run_JSON split: if_splits)
  with g have look: "lookup User_Username (loginUserRequest_Username req) (users (db w)) = Some u"
    and w1: "db w1 = db w"
    by (auto simp: GetUser_def sql_GetUser_def run_query split: fault.splits)
  from run' ok body g u have pw: "CheckPassword E (loginUserRequest_Password req) (User_HashedPassword u) = None"
    by (auto simp: run_JSON split: option.splits)
  obtain c w2 where c: "run (CreateToken (PasetoMaker E k) (User_Username u)
      (Config_AccessTokenDuration (Server_config srv))) w1 = (c, w2)" by fastforce
  with run' ok body g u pw obtain acc ap where ap: "c = Inr (acc, ap)"
    by (cases c) (auto simp: run_JSON)
  obtain f w3 where f: "run (CreateToken (PasetoMaker E k) (User_Username u)
      (Config_RefreshTokenDuration (Server_config srv))) w2 = (f, w3)" by fastforce
  with run' ok body g u pw c ap obtain ref rp where rp: "f = Inr (ref, rp)"
    by (cases f) (auto simp: run_JSON)
  from c ap obtain n where n: "paseto_Encrypt E n k ap = Inr acc" "Payload_Username ap = User_Username u"
    by (auto simp: PasetoMaker_def run_paseto_CreateToken Let_def split: sum.splits)
  from f rp obtain m where m: "paseto_Encrypt E m k rp = Inr ref" "Payload_Username rp = User_Username u"
    by (auto simp: PasetoMaker_def run_paseto_CreateToken Let_def split: sum.splits)
  have w3: "db w3 = db w"
    using paseto.create_db [OF c] paseto.create_db [OF f] w1 by simp
  let ?arg = "\<lparr>CreateSessionParams_ID = Payload_ID rp, CreateSessionParams_Username = User_Username u,
      CreateSessionParams_RefreshToken = ref, CreateSessionParams_UserAgent = ua,
      CreateSessionParams_ClientIp = ip, CreateSessionParams_IsBlocked = False,
      CreateSessionParams_ExpiresAt = Payload_ExpiredAt rp\<rparr>"
  obtain e w4 where e: "run (CreateSession E ?arg) w3 = (e, w4)" by fastforce
  from run' body g u pw c ap f rp e have last: "run (case e of
        Inl err \<Rightarrow> errorJSON StatusInternalServerError err
      | Inr session \<Rightarrow> JSON StatusOK (LoginBody
         \<lparr>loginUserResponse_SessionID = Session_ID session, loginUserResponse_AccessToken = acc,
          loginUserResponse_AccessTokenExpiresAt = Payload_ExpiredAt ap,
          loginUserResponse_RefreshToken = ref,
          loginUserResponse_RefreshTokenExpiresAt = Payload_ExpiredAt rp,
          loginUserResponse_User = newUserResponse u\<rparr>)) w4 = (rsp, w')"
    by simp
  with ok obtain s where s: "e = Inr s" by (cases e) (auto simp: run_JSON)
  from query_InrD [OF e [unfolded s CreateSession_def]] w3 have
    "sql_CreateSession E ?arg (server_now E w3) (db w) = (Inr s, db w4)" by simp
  then have
    "lookup Session_ID (Payload_ID rp) (sessions (db w)) = None"
    "db w4 = (db w)\<lparr>sessions := sessions (db w) @ [s]\<rparr>"
    "Session_ID s = Payload_ID rp" "Session_Username s = User_Username u" "Session_RefreshToken s = ref"
    "\<not> Session_IsBlocked s" "Session_ExpiresAt s = pg_timestamp E (Payload_ExpiredAt rp)"
    by (auto simp: sql_CreateSession_def Let_def split: if_splits)
  with last s body(1) look pw n m that show thesis by (simp add: run_JSON)
qed

section \<open>Signing in and renewing\<close>

lemma run_renew_calm:
  assumes "Server_tokenMaker srv = PasetoMaker E k" and "renewable E k tok p s (db w)" and "tok \<noteq> []"
    and "net E (Suc (tick w)) = NoFault" and "clock E (tick w) \<le> Payload_ExpiredAt p"
    and "clock E (Suc (Suc (tick w))) \<le> Session_ExpiresAt s" and "uuid_NewRandom E (tick w + 3) = Inr i"
    and "\<And>q. \<exists>c. paseto_Encrypt E (tick w + 6) k q = Inr c"
  shows "\<exists>acc exp. fst (run (renewAccessToken E srv (Some \<lparr>renewAccessTokenRequest_RefreshToken = tok\<rparr>)) w) =
    \<lparr>status = 200, replay_header = False, resp_body = RenewBody \<lparr>renewAccessTokenResponse_AccessToken = acc,
          renewAccessTokenResponse_AccessTokenExpiresAt = exp\<rparr>\<rparr>"
proof -
  let ?q = "\<lparr>Payload_ID = i, Payload_Username = Payload_Username p, Payload_IssuedAt = clock E (tick w + 4),
     Payload_ExpiredAt = clock E (tick w + 5) + sint (Config_AccessTokenDuration (Server_config srv))\<rparr>"
  let ?w1 = "w\<lparr>tick := Suc (tick w)\<rparr>" and ?w2 = "w\<lparr>tick := Suc (Suc (tick w))\<rparr>"
    and ?w3 = "w\<lparr>tick := Suc (Suc (Suc (tick w)))\<rparr>"
  obtain c where c: "paseto_Encrypt E (tick w + 6) k ?q = Inr c" using assms(8) by blast
  have verify: "run (VerifyToken (PasetoMaker E k) tok) w = (Inr p, ?w1)"
    using assms by (simp add: PasetoMaker_def run_paseto_VerifyToken renewable_def)
  have get: "run (GetSession E (Payload_ID p)) ?w1 = (Inr s, ?w2)"
    using assms by (simp add: GetSession_def sql_GetSession_def run_query renewable_def)
  have create: "run (CreateToken (PasetoMaker E k) (Payload_Username p)
      (Config_AccessTokenDuration (Server_config srv))) ?w3 = (Inr (c, ?q), w\<lparr>tick := tick w + 7\<rparr>)"
    using assms(7) c by (simp add: PasetoMaker_def run_paseto_CreateToken Let_def eval_nat_numeral)
  show ?thesis
    using assms(2,3,6) unfolding renewAccessToken_def assms(1)
    by (simp add: renewAccessTokenRequest_valid_def tag_required_def verify get create run_time_Now run_JSON
        renewable_def)
qed

text \<open>
  C26: \<open>POST /users/login\<close> answers 200 only if the user exists and the password matches the
  stored hash; then it has appended exactly one open session of that user under a fresh id,
  whose refresh token encrypts a payload of the user with that id, and it returns the id and
  the token. It changes nothing else.
\<close>

theorem login_opens_own_session:
  assumes maker: "Server_tokenMaker srv = PasetoMaker E k"
  shows "case run (loginUser E srv ua ip body) w of (rsp, w') \<Rightarrow>
    status rsp \<noteq> 200 \<or>
    (\<exists>req u s rp m l. body = Some req \<and>
       lookup User_Username (loginUserRequest_Username req) (users (db w)) = Some u \<and>
       bcrypt_Compare E (User_HashedPassword u) (loginUserRequest_Password req) = None \<and>
       lookup Session_ID (Session_ID s) (sessions (db w)) = None \<and>
       db w' = (db w)\<lparr>sessions := sessions (db w) @ [s]\<rparr> \<and>
       Session_Username s = User_Username u \<and> \<not> Session_IsBlocked s \<and>
       paseto_Encrypt E m k rp = Inr (Session_RefreshToken s) \<and> Payload_ID rp = Session_ID s \<and>
       Payload_Username rp = User_Username u \<and>
       Session_ExpiresAt s = pg_timestamp E (Payload_ExpiredAt rp) \<and>
       resp_body rsp = LoginBody l \<and> loginUserResponse_SessionID l = Session_ID s \<and>
       loginUserResponse_RefreshToken l = Session_RefreshToken s \<and>
       loginUserResponse_User l = newUserResponse u)"
proof (cases "run (loginUser E srv ua ip body) w")
  case (Pair rsp w')
  show ?thesis
  proof (cases "status rsp = 200")
    case True
    from Pair True maker show ?thesis
    proof (rule login_200)
      fix req u ap acc rp ref n m s
      assume facts: "body = Some req"
        "lookup User_Username (loginUserRequest_Username req) (users (db w)) = Some u"
        "CheckPassword E (loginUserRequest_Password req) (User_HashedPassword u) = None"
        "paseto_Encrypt E m k rp = Inr ref" "Payload_Username rp = User_Username u"
        "lookup Session_ID (Payload_ID rp) (sessions (db w)) = None"
        "db w' = (db w)\<lparr>sessions := sessions (db w) @ [s]\<rparr>"
        "Session_ID s = Payload_ID rp" "Session_Username s = User_Username u" "Session_RefreshToken s = ref"
        "\<not> Session_IsBlocked s" "Session_ExpiresAt s = pg_timestamp E (Payload_ExpiredAt rp)"
        and body: "rsp = \<lparr>status = 200, replay_header = False, resp_body = LoginBody
           \<lparr>loginUserResponse_SessionID = Session_ID s, loginUserResponse_AccessToken = acc,
            loginUserResponse_AccessTokenExpiresAt = Payload_ExpiredAt ap,
            loginUserResponse_RefreshToken = ref,
            loginUserResponse_RefreshTokenExpiresAt = Payload_ExpiredAt rp,
            loginUserResponse_User = newUserResponse u\<rparr>\<rparr>"
      let ?l = "\<lparr>loginUserResponse_SessionID = Session_ID s, loginUserResponse_AccessToken = acc,
            loginUserResponse_AccessTokenExpiresAt = Payload_ExpiredAt ap,
            loginUserResponse_RefreshToken = ref,
            loginUserResponse_RefreshTokenExpiresAt = Payload_ExpiredAt rp,
            loginUserResponse_User = newUserResponse u\<rparr>"
      show ?thesis
        unfolding Pair prod.case
        by (rule disjI2, rule exI [of _ req], rule exI [of _ u], rule exI [of _ s], rule exI [of _ rp],
            rule exI [of _ m], rule exI [of _ ?l])
          (use facts body in \<open>simp add: CheckPassword_def\<close>)
    qed
  qed (simp add: Pair)
qed

definition example_login :: "string \<Rightarrow> loginUserRequest" where
  "example_login pw = \<lparr>loginUserRequest_Username = ''ann'', loginUserRequest_Password = pw\<rparr>"

lemma example_login_ok:
  "\<exists>l w1. run (loginUser example_env example_server '''' '''' (Some (example_login ''secret''))) example_world =
      (\<lparr>status = 200, replay_header = False, resp_body = LoginBody l\<rparr>, w1) \<and>
    loginUserResponse_RefreshToken l \<noteq> [] \<and> tick w1 = 10 \<and>
    loginUserResponse_RefreshTokenExpiresAt l = 507"
  unfolding loginUser_def example_server_maker
  by (simp add: example_login_def loginUserRequest_valid_def tag_required_def tag_alphanum_def tag_min_def
      rune_count_def is_lower_def is_upper_def is_digit_def byte_def GetUser_def sql_GetUser_def run_query
      CheckPassword_def PasetoMaker_def run_paseto_CreateToken Let_def CreateSession_def
      sql_CreateSession_def run_JSON example_server_def example_user_def example_db_def empty_db_def example_encrypt_def
      example_prefix_def)

theorem login_opens_own_session_witness:
  "\<exists>l w1 s. run (loginUser example_env example_server '''' '''' (Some (example_login ''secret''))) example_world =
      (\<lparr>status = 200, replay_header = False, resp_body = LoginBody l\<rparr>, w1) \<and>
    sessions (db w1) = [s] \<and> Session_Username s = ''ann'' \<and> \<not> Session_IsBlocked s \<and>
    loginUserResponse_RefreshToken l = Session_RefreshToken s"
proof -
  obtain l w1 where login: "run (loginUser example_env example_server '''' '''' (Some (example_login ''secret'')))
      example_world = (\<lparr>status = 200, replay_header = False, resp_body = LoginBody l\<rparr>, w1)"
    using example_login_ok by blast
  from login_opens_own_session [where body = "Some (example_login ''secret'')" and w = example_world
      and ua = "''''" and ip = "''''", OF example_server_maker] login
  show ?thesis by (auto simp: example_login_def example_db_def empty_db_def example_user_def split: if_splits dest!: lookup_SomeD)
qed

text \<open>
  C27: The refresh token a login returns works: as long as its session is untouched and
  neither token nor session has expired, \<open>POST /tokens/renew_access\<close> answers 200 with a new
  access token, given a connection, a random id and an encryption that succeed and a
  decryption that inverts the encryption.
\<close>

theorem login_then_renew:
  assumes maker: "Server_tokenMaker srv = PasetoMaker E k"
    and login: "run (loginUser E srv ua ip body) w =
      (\<lparr>status = 200, replay_header = False, resp_body = LoginBody l\<rparr>, w1)"
    and inverse: "\<And>n p c. paseto_Encrypt E n k p = Inr c \<Longrightarrow> paseto_Decrypt E c k = Inr p"
    and nonempty: "loginUserResponse_RefreshToken l \<noteq> []"
    and kept: "lookup Session_ID (loginUserResponse_SessionID l) (sessions (db w2)) =
      lookup Session_ID (loginUserResponse_SessionID l) (sessions (db w1))"
    and "net E (Suc (tick w2)) = NoFault"
    and "clock E (tick w2) \<le> loginUserResponse_RefreshTokenExpiresAt l"
    and "clock E (Suc (Suc (tick w2))) \<le> pg_timestamp E (loginUserResponse_RefreshTokenExpiresAt l)"
    and "uuid_NewRandom E (tick w2 + 3) = Inr i"
    and "\<And>q. \<exists>c. paseto_Encrypt E (tick w2 + 6) k q = Inr c"
  shows "\<exists>acc exp. fst (run (renewAccessToken E srv (Some
      \<lparr>renewAccessTokenRequest_RefreshToken = loginUserResponse_RefreshToken l\<rparr>)) w2) =
    \<lparr>status = 200, replay_header = False, resp_body = RenewBody \<lparr>renewAccessTokenResponse_AccessToken = acc,
          renewAccessTokenResponse_AccessTokenExpiresAt = exp\<rparr>\<rparr>"
proof -
  have ok: "status \<lparr>status = 200, replay_header = False, resp_body = LoginBody l\<rparr> = 200" by simp
  from login ok maker show ?thesis
  proof (rule login_200)
    fix req u ap acc rp ref n m s
    assume s: "paseto_Encrypt E m k rp = Inr ref" "Payload_Username rp = User_Username u"
        "lookup Session_ID (Payload_ID rp) (sessions (db w)) = None"
        "db w1 = (db w)\<lparr>sessions := sessions (db w) @ [s]\<rparr>"
        "Session_ID s = Payload_ID rp" "Session_Username s = User_Username u" "Session_RefreshToken s = ref"
        "\<not> Session_IsBlocked s" "Session_ExpiresAt s = pg_timestamp E (Payload_ExpiredAt rp)"
      and "\<lparr>status = 200, replay_header = False, resp_body = LoginBody l\<rparr> =
         \<lparr>status = 200, replay_header = False, resp_body = LoginBody
           \<lparr>loginUserResponse_SessionID = Session_ID s, loginUserResponse_AccessToken = acc,
            loginUserResponse_AccessTokenExpiresAt = Payload_ExpiredAt ap,
            loginUserResponse_RefreshToken = ref,
            loginUserResponse_RefreshTokenExpiresAt = Payload_ExpiredAt rp,
            loginUserResponse_User = newUserResponse u\<rparr>\<rparr>"
    then have l: "loginUserResponse_SessionID l = Payload_ID rp" "loginUserResponse_RefreshToken l = ref"
      "loginUserResponse_RefreshTokenExpiresAt l = Payload_ExpiredAt rp" by simp_all
    have "renewable E k (loginUserResponse_RefreshToken l) rp s (db w2)"
      using s kept l inverse [OF s(1)] by (auto simp: renewable_def lookup_append)
    from run_renew_calm [OF maker this nonempty assms(6) _ _ assms(9,10)] assms(7,8) s(9) l(3)
    show ?thesis by simp
  qed
qed

theorem login_then_renew_witness:
  "\<exists>l w1 acc exp. run (loginUser example_env example_server '''' '''' (Some (example_login ''secret'')))
      example_world = (\<lparr>status = 200, replay_header = False, resp_body = LoginBody l\<rparr>, w1) \<and>
    fst (run (renewAccessToken example_env example_server (Some
      \<lparr>renewAccessTokenRequest_RefreshToken = loginUserResponse_RefreshToken l\<rparr>)) w1) =
    \<lparr>status = 200, replay_header = False, resp_body = RenewBody \<lparr>renewAccessTokenResponse_AccessToken = acc,
          renewAccessTokenResponse_AccessTokenExpiresAt = exp\<rparr>\<rparr>"
proof -
  obtain l w1 where login: "run (loginUser example_env example_server '''' '''' (Some (example_login ''secret'')))
      example_world = (\<lparr>status = 200, replay_header = False, resp_body = LoginBody l\<rparr>, w1)"
    and l: "loginUserResponse_RefreshToken l \<noteq> []" "tick w1 = 10"
      "loginUserResponse_RefreshTokenExpiresAt l = 507"
    using example_login_ok by blast
  have inv: "paseto_Decrypt example_env c ''key'' = Inr p"
    if "paseto_Encrypt example_env n ''key'' p = Inr c" for n p c
    using that by (auto simp: example_decrypt_encrypt)
  from login_then_renew [OF example_server_maker login inv l(1) refl] login l show ?thesis by auto
qed

section \<open>Users\<close>

text \<open>
  \<open>POST /users\<close> with a valid body and a password bcrypt accepts, on a calm connection:
  it answers 200 and stores exactly one new row with the hash bcrypt made, if neither the
  name nor the email is taken; otherwise it answers 403 and changes no row.
\<close>

theorem createUser_outcome:
  assumes "createUserRequest_valid E req" and "net E (Suc (tick w)) = NoFault"
    and "bcrypt_Generate E (tick w) (createUserRequest_Password req) = Inr h"
  shows "case run (createUser E (Some req)) w of (rsp, w') \<Rightarrow>
    if createUserRequest_Username req \<notin> usernames (db w) \<and>
       createUserRequest_Email req \<notin> User_Email ` set (users (db w))
    then \<exists>u. rsp = \<lparr>status = 200, replay_header = False, resp_body = UserBody (newUserResponse u)\<rparr> \<and>
      db w' = (db w)\<lparr>users := users (db w) @ [u]\<rparr> \<and> User_Username u = createUserRequest_Username req \<and>
      User_HashedPassword u = h \<and> User_Email u = createUserRequest_Email req \<and>
      User_FullName u = createUserRequest_FullName req
    else status rsp = 403 \<and> db w' = db w"
  using assms
  by (auto simp: createUser_def run_HashPassword CreateUser_def run_query sql_CreateUser_def Let_def
      run_JSON lookup_None_iff usernames_def)

definition example_signup :: "string \<Rightarrow> createUserRequest" where
  "example_signup u = \<lparr>createUserRequest_Username = u, createUserRequest_Password = ''secret'',
     createUserRequest_FullName = u, createUserRequest_Email = u @ ''@bank''\<rparr>"

theorem createUser_outcome_witness:
  "status (fst (run (createUser example_env (Some (example_signup ''cyd''))) example_world)) = 200 \<and>
   status (fst (run (createUser example_env (Some (example_signup ''ann''))) example_world)) = 403"
proof -
  have valid: "createUserRequest_valid example_env (example_signup ''cyd'')"
    "createUserRequest_valid example_env (example_signup ''ann'')"
    by (auto simp: createUserRequest_valid_def example_signup_def tag_required_def tag_alphanum_def
        tag_min_def rune_count_def is_lower_def byte_def example_env_def)
  have taken: "usernames example_db = {''ann'', ''bob''}"
    "User_Email ` set (users example_db) = {''ann@bank'', ''bob@bank''}"
    by (auto simp: usernames_def example_db_def example_user_def)
  show ?thesis
    using createUser_outcome [OF valid(1), of example_world "''$secret''"]
      createUser_outcome [OF valid(2), of example_world "''$secret''"] taken
    by (auto simp: example_signup_def split: prod.splits)
qed

end
