(* ===== verification/Tx_Program.thy ===== *)
theory Tx_Program
  imports Transfer_Spec "HOL-Library.Char_ord" "HOL-Library.List_Lexorder"
begin

text \<open>
  The transactions of \<open>db/sqlc/store.go\<close> as programs that pause at every SQL statement, so
  that the statements of several transactions can be interleaved (Concurrency does that).
  \<open>exec_prog\<close> runs a program without interruption: it is then the transaction function of
  Store. \<open>lock_typed\<close> is the discipline of the comments in \<open>store.go\<close>: the idempotency key
  is claimed before any account is touched, and accounts are touched in the order of their
  ids.
\<close>

section \<open>Programs\<close>

text \<open>
  A program has ended with the result of its function, or is about to execute a statement
  and continues with the answer.
\<close>

datatype 'r prog =
    Return "error + 'r"
  | Transfer_stmt CreateTransferParams "error + Transfer \<Rightarrow> 'r prog"
  | Entry_stmt CreateEntryParams "error + Entry \<Rightarrow> 'r prog"
  | Balance_stmt AddAccountBalanceParams "error + Account \<Rightarrow> 'r prog"
  | Claim_stmt CreateIdempotencyKeyParams "error + IdempotencyKey \<Rightarrow> 'r prog"
  | Complete_stmt CompleteIdempotencyKeyParams "error + IdempotencyKey \<Rightarrow> 'r prog"

text \<open>\<open>x, err := p; if err != nil { return err }; f(x)\<close>\<close>

primrec try_prog :: "'a prog \<Rightarrow> ('a \<Rightarrow> 'b prog) \<Rightarrow> 'b prog" where
  "try_prog (Return r) f = (case r of Inl e \<Rightarrow> Return (Inl e) | Inr x \<Rightarrow> f x)"
| "try_prog (Transfer_stmt arg k) f = Transfer_stmt arg (\<lambda>r. try_prog (k r) f)"
| "try_prog (Entry_stmt arg k) f = Entry_stmt arg (\<lambda>r. try_prog (k r) f)"
| "try_prog (Balance_stmt arg k) f = Balance_stmt arg (\<lambda>r. try_prog (k r) f)"
| "try_prog (Claim_stmt arg k) f = Claim_stmt arg (\<lambda>r. try_prog (k r) f)"
| "try_prog (Complete_stmt arg k) f = Complete_stmt arg (\<lambda>r. try_prog (k r) f)"

definition addMoney_prog ::
    "int64 \<Rightarrow> int64 \<Rightarrow> int64 \<Rightarrow> int64 \<Rightarrow> (Account \<times> Account) prog" where
  "addMoney_prog accountID1 amount1 accountID2 amount2 =
     try_prog (Balance_stmt
         \<lparr>AddAccountBalanceParams_Amount = amount1, AddAccountBalanceParams_ID = accountID1\<rparr> Return)
       (\<lambda>account1.
     try_prog (Balance_stmt
         \<lparr>AddAccountBalanceParams_Amount = amount2, AddAccountBalanceParams_ID = accountID2\<rparr> Return)
       (\<lambda>account2. Return (Inr (account1, account2))))"

definition transferTx_prog :: "TransferTxParams \<Rightarrow> TransferTxResult prog" where
  "transferTx_prog arg =
     (let from_id = TransferTxParams_FromAccountID arg; to_id = TransferTxParams_ToAccountID arg;
          amount = TransferTxParams_Amount arg in
      try_prog (Transfer_stmt arg Return) (\<lambda>transfer.
      try_prog (Entry_stmt
          \<lparr>CreateEntryParams_AccountID = from_id, CreateEntryParams_Amount = - amount\<rparr> Return)
        (\<lambda>fromEntry.
      try_prog (Entry_stmt
          \<lparr>CreateEntryParams_AccountID = to_id, CreateEntryParams_Amount = amount\<rparr> Return)
        (\<lambda>toEntry.
      if sint from_id < sint to_id then
        try_prog (addMoney_prog from_id (- amount) to_id amount) (\<lambda>(fromAccount, toAccount).
          Return (Inr \<lparr>TransferTxResult_Transfer = transfer, TransferTxResult_FromEntry = fromEntry,
            TransferTxResult_ToEntry = toEntry, TransferTxResult_FromAccount = fromAccount,
            TransferTxResult_ToAccount = toAccount\<rparr>))
      else
        try_prog (addMoney_prog to_id amount from_id (- amount)) (\<lambda>(toAccount, fromAccount).
          Return (Inr \<lparr>TransferTxResult_Transfer = transfer, TransferTxResult_FromEntry = fromEntry,
            TransferTxResult_ToEntry = toEntry, TransferTxResult_FromAccount = fromAccount,
            TransferTxResult_ToAccount = toAccount\<rparr>))))))"

definition claimAndTransfer_prog ::
    "env \<Rightarrow> IdempotentTransferTxParams \<Rightarrow> TransferTxResult prog" where
  "claimAndTransfer_prog E arg =
     try_prog (Claim_stmt
         \<lparr>CreateIdempotencyKeyParams_Owner = IdempotentTransferTxParams_Owner arg,
          CreateIdempotencyKeyParams_Key = IdempotentTransferTxParams_Key arg,
          CreateIdempotencyKeyParams_RequestHash = IdempotentTransferTxParams_RequestHash arg\<rparr> Return)
       (\<lambda>_.
     try_prog (transferTx_prog (IdempotentTransferTxParams_TransferTxParams arg)) (\<lambda>result.
     case json_Marshal E result of
       Inl err \<Rightarrow> Return (Inl err)
     | Inr body \<Rightarrow>
         try_prog (Complete_stmt
             \<lparr>CompleteIdempotencyKeyParams_Owner = IdempotentTransferTxParams_Owner arg,
              CompleteIdempotencyKeyParams_Key = IdempotentTransferTxParams_Key arg,
              CompleteIdempotencyKeyParams_ResponseBody = body\<rparr> Return)
           (\<lambda>_. Return (Inr result))))"

section \<open>Uninterrupted execution\<close>

primrec exec_prog :: "env \<Rightarrow> 'r prog \<Rightarrow> 'r db_op" where
  "exec_prog E (Return r) = ret r"
| "exec_prog E (Transfer_stmt arg k) = CreateTransfer E arg \<bind> (\<lambda>r. exec_prog E (k r))"
| "exec_prog E (Entry_stmt arg k) = CreateEntry E arg \<bind> (\<lambda>r. exec_prog E (k r))"
| "exec_prog E (Balance_stmt arg k) = AddAccountBalance E arg \<bind> (\<lambda>r. exec_prog E (k r))"
| "exec_prog E (Claim_stmt arg k) = CreateIdempotencyKey E arg \<bind> (\<lambda>r. exec_prog E (k r))"
| "exec_prog E (Complete_stmt arg k) = CompleteIdempotencyKey E arg \<bind> (\<lambda>r. exec_prog E (k r))"

lemma exec_try_prog:
  "exec_prog E (try_prog p f) = try_do (exec_prog E p) (\<lambda>x. exec_prog E (f x))"
  by (induction p) (simp_all add: try_do_def split: sum.split)

lemma exec_addMoney_prog: "exec_prog E (addMoney_prog i x j y) = addMoney E i x j y"
  by (simp add: addMoney_prog_def addMoney_def exec_try_prog del: try_prog.simps)

lemma exec_transferTx_prog: "exec_prog E (transferTx_prog arg) = transferTx E arg"
proof -
  have branch: "exec_prog E (case q of (x, y) \<Rightarrow> g x y) = (case q of (x, y) \<Rightarrow> exec_prog E (g x y))"
    for q :: "Account \<times> Account" and g :: "Account \<Rightarrow> Account \<Rightarrow> TransferTxResult prog"
    by (cases q) simp
  show ?thesis
    by (simp add: transferTx_prog_def transferTx_def Let_def exec_try_prog exec_addMoney_prog branch
        if_distrib [of "exec_prog E"] del: try_prog.simps cong: if_cong)
qed

lemma exec_claimAndTransfer_prog: "exec_prog E (claimAndTransfer_prog E iarg) = claimAndTransfer E iarg"
proof -
  have branch: "exec_prog E (case v of Inl err \<Rightarrow> Return (Inl err) | Inr body \<Rightarrow> g body) =
      (case v of Inl err \<Rightarrow> ret (Inl err) | Inr body \<Rightarrow> exec_prog E (g body))"
    for v :: "error + string" and g :: "string \<Rightarrow> TransferTxResult prog"
    by (cases v) simp_all
  show ?thesis
    by (simp add: claimAndTransfer_prog_def claimAndTransfer_def exec_try_prog exec_transferTx_prog branch cong: sum.case_cong
        del: try_prog.simps)
qed

section \<open>Locks\<close>

text \<open>
  What a statement may have to wait for: \<open>UPDATE accounts\<close> takes the row lock of the account,
  \<open>INSERT INTO idempotency_keys\<close> waits for another transaction that has inserted the same
  \<open>(owner, key)\<close>, and \<open>UPDATE idempotency_keys\<close> takes the lock of that row. The inserts into
  \<open>transfers\<close> and \<open>entries\<close> take only \<open>FOR KEY SHARE\<close> locks on the accounts they refer to,
  which an update of a balance (\<open>FOR NO KEY UPDATE\<close>) does not conflict with.
\<close>

datatype lock = KeyLock string string | RowLock int64

text \<open>The order in which the transactions take their locks: keys first, accounts by id.\<close>

instantiation lock :: linorder
begin

fun less_eq_lock :: "lock \<Rightarrow> lock \<Rightarrow> bool" where
  "less_eq_lock (KeyLock o1 k1) (KeyLock o2 k2) \<longleftrightarrow> o1 < o2 \<or> o1 = o2 \<and> k1 \<le> k2"
| "less_eq_lock (KeyLock _ _) (RowLock _) \<longleftrightarrow> True"
| "less_eq_lock (RowLock _) (KeyLock _ _) \<longleftrightarrow> False"
| "less_eq_lock (RowLock i) (RowLock j) \<longleftrightarrow> sint i \<le> sint j"

definition less_lock :: "lock \<Rightarrow> lock \<Rightarrow> bool" where
  "less_lock a b \<longleftrightarrow> a \<le> b \<and> \<not> b \<le> (a :: lock)"

instance
proof
  fix a b c :: lock
  show "a < b \<longleftrightarrow> a \<le> b \<and> \<not> b \<le> a" by (rule less_lock_def)
  show "a \<le> a" by (cases a) auto
  show "a \<le> b \<Longrightarrow> b \<le> c \<Longrightarrow> a \<le> c" by (cases a; cases b; cases c) auto
  show "a \<le> b \<Longrightarrow> b \<le> a \<Longrightarrow> a = b" by (cases a; cases b) (auto simp: sint64_inj)
  show "a \<le> b \<or> b \<le> a" by (cases a; cases b) auto
qed

end

primrec wants :: "'r prog \<Rightarrow> lock option" where
  "wants (Return r) = None"
| "wants (Transfer_stmt arg k) = None"
| "wants (Entry_stmt arg k) = None"
| "wants (Balance_stmt arg k) = Some (RowLock (AddAccountBalanceParams_ID arg))"
| "wants (Claim_stmt arg k) =
     Some (KeyLock (CreateIdempotencyKeyParams_Owner arg) (CreateIdempotencyKeyParams_Key arg))"
| "wants (Complete_stmt arg k) =
     Some (KeyLock (CompleteIdempotencyKeyParams_Owner arg) (CompleteIdempotencyKeyParams_Key arg))"

text \<open>
  \<open>lock_typed p H\<close>: a transaction that holds the locks \<open>H\<close> and has \<open>p\<close> left to run asks for
  a lock only if it holds it already or if it is greater than all it holds.
\<close>

definition in_order :: "lock \<Rightarrow> lock set \<Rightarrow> bool" where
  "in_order l H \<longleftrightarrow> l \<in> H \<or> (\<forall>h \<in> H. h < l)"

primrec lock_typed :: "'r prog \<Rightarrow> lock set \<Rightarrow> bool" where
  "lock_typed (Return r) H = True"
| "lock_typed (Transfer_stmt arg k) H = (\<forall>r. lock_typed (k r) H)"
| "lock_typed (Entry_stmt arg k) H = (\<forall>r. lock_typed (k r) H)"
| "lock_typed (Balance_stmt arg k) H =
     (let l = RowLock (AddAccountBalanceParams_ID arg) in
      in_order l H \<and> (\<forall>e. lock_typed (k (Inl e)) H) \<and> (\<forall>x. lock_typed (k (Inr x)) (insert l H)))"
| "lock_typed (Claim_stmt arg k) H =
     (let l = KeyLock (CreateIdempotencyKeyParams_Owner arg) (CreateIdempotencyKeyParams_Key arg) in
      in_order l H \<and> (\<forall>e. lock_typed (k (Inl e)) H) \<and> (\<forall>x. lock_typed (k (Inr x)) (insert l H)))"
| "lock_typed (Complete_stmt arg k) H =
     (let l = KeyLock (CompleteIdempotencyKeyParams_Owner arg) (CompleteIdempotencyKeyParams_Key arg) in
      in_order l H \<and> (\<forall>e. lock_typed (k (Inl e)) H) \<and> (\<forall>x. lock_typed (k (Inr x)) (insert l H)))"

lemma less_lock_simps [simp]:
  "KeyLock w k < RowLock i" "RowLock i < RowLock j \<longleftrightarrow> sint i < sint j"
  by (auto simp: less_lock_def)

lemma lock_typed_transferTx:
  assumes "\<forall>h \<in> H. \<exists>w k. h = KeyLock w k" and "\<And>r J. H \<subseteq> J \<Longrightarrow> lock_typed (f r) J"
  shows "lock_typed (try_prog (transferTx_prog arg) f) H"
proof -
  have "sint i \<noteq> sint j \<Longrightarrow> \<not> sint i < sint j \<Longrightarrow> sint j < sint i" for i j :: int64 by simp
  with assms(1) show ?thesis
    by (auto simp: transferTx_prog_def addMoney_prog_def Let_def in_order_def sint64_inj
        split: sum.split prod.split intro!: assms(2))
qed

lemma lock_typed_claim: "lock_typed (claimAndTransfer_prog E arg) {}"
  unfolding claimAndTransfer_prog_def
  by (auto simp: in_order_def Let_def split: sum.split intro!: lock_typed_transferTx)

lemma try_prog_Return [simp]: "try_prog p (\<lambda>x. Return (Inr x)) = p"
  by (induction p) (auto split: sum.split)

lemma lock_typed_transfer: "lock_typed (transferTx_prog arg) {}"
  using lock_typed_transferTx [of "{}" "\<lambda>x. Return (Inr x)" arg] by simp

end
