(* ===== verification/Concurrency.thy ===== *)
theory Concurrency
  imports Tx_Program
begin

text \<open>
  Concurrent transactions of the store, as the comments of \<open>db/sqlc/store.go\<close> discuss them:
  any number of calls of \<open>TransferTx\<close> and \<open>IdempotentTransferTx\<close>, each on a connection of
  its own, interleaved statement by statement. The database works as PostgreSQL does at its
  default level: a transaction sees the committed rows and its own writes, its writes become
  visible to the others at its commit, and locks are held until it ends. The lemmas show that
  the transactions cannot deadlock and all end, that the committed transfers are a serial
  execution, and that of concurrent retries with one key at most one is committed.
\<close>

section \<open>Row versions\<close>

text \<open>What a transaction has written and not yet committed: new rows and new versions of rows.\<close>

datatype row_write =
    NewTransfer Transfer
  | NewEntry Entry
  | AccountVersion Account
  | NewKey IdempotencyKey
  | KeyVersion IdempotencyKey

definition apply_write :: "row_write \<Rightarrow> database \<Rightarrow> database" where
  "apply_write w d =
     (case w of
        NewTransfer t \<Rightarrow> d\<lparr>transfers := transfers d @ [t]\<rparr>
      | NewEntry e \<Rightarrow> d\<lparr>entries := entries d @ [e]\<rparr>
      | AccountVersion a \<Rightarrow>
          d\<lparr>accounts := update_where (\<lambda>r. Account_ID r = Account_ID a) (\<lambda>_. a) (accounts d)\<rparr>
      | NewKey k \<Rightarrow> d\<lparr>idempotency_keys := idempotency_keys d @ [k]\<rparr>
      | KeyVersion k \<Rightarrow>
          d\<lparr>idempotency_keys := update_where (\<lambda>r. key_of r = key_of k) (\<lambda>_. k) (idempotency_keys d)\<rparr>)"

text \<open>The tables as a transaction sees them.\<close>

definition view :: "database \<Rightarrow> row_write list \<Rightarrow> database" where
  "view d ws = fold apply_write ws d"

definition wrote :: "('a \<Rightarrow> row_write) \<Rightarrow> error + 'a \<Rightarrow> row_write list" where
  "wrote f r = (case r of Inl _ \<Rightarrow> [] | Inr x \<Rightarrow> [f x])"

text \<open>
  One statement: the rest of the program, what was written, and the tables after it (of which
  the caller keeps only the sequences, which are not transactional).
\<close>

primrec perform :: "'r prog \<Rightarrow> time \<Rightarrow> database \<Rightarrow> 'r prog \<times> row_write list \<times> database" where
  "perform (Return r) now d = (Return r, [], d)"
| "perform (Transfer_stmt arg k) now d =
     (case sql_CreateTransfer arg now d of (r, d') \<Rightarrow> (k r, wrote NewTransfer r, d'))"
| "perform (Entry_stmt arg k) now d =
     (case sql_CreateEntry arg now d of (r, d') \<Rightarrow> (k r, wrote NewEntry r, d'))"
| "perform (Balance_stmt arg k) now d =
     (case sql_AddAccountBalance arg now d of (r, d') \<Rightarrow> (k r, wrote AccountVersion r, d'))"
| "perform (Claim_stmt arg k) now d =
     (case sql_CreateIdempotencyKey arg now d of (r, d') \<Rightarrow> (k r, wrote NewKey r, d'))"
| "perform (Complete_stmt arg k) now d =
     (case sql_CompleteIdempotencyKey arg now d of (r, d') \<Rightarrow> (k r, wrote KeyVersion r, d'))"

section \<open>Transactions in progress\<close>

record 'r tx =
  tx_now :: time
  tx_prog :: "'r prog"
  tx_writes :: "row_write list"
  tx_locks :: "lock set"
  tx_result :: "(error + 'r) option"

text \<open>\<open>committed_by\<close> lists the transactions that have committed, in their order.\<close>

record 'r system =
  committed :: database
  txs :: "'r tx list"
  committed_by :: "nat list"

definition at_statement :: "'r prog \<Rightarrow> bool" where
  "at_statement p = (case p of Return _ \<Rightarrow> False | _ \<Rightarrow> True)"

definition may_run :: "'r system \<Rightarrow> nat \<Rightarrow> bool" where
  "may_run S i \<longleftrightarrow> (case wants (tx_prog (txs S ! i)) of
     None \<Rightarrow> True
   | Some l \<Rightarrow> \<forall>j < length (txs S). j \<noteq> i \<longrightarrow> l \<notin> tx_locks (txs S ! j))"

definition run_statement :: "'r system \<Rightarrow> nat \<Rightarrow> 'r system" where
  "run_statement S i =
     (let T = txs S ! i in
      case perform (tx_prog T) (tx_now T) (view (committed S) (tx_writes T)) of (p, ws, d) \<Rightarrow>
        S\<lparr>committed := rollback_to (committed S) d,
          txs := (txs S)[i := T\<lparr>tx_prog := p, tx_writes := tx_writes T @ ws,
            tx_locks := (if ws = [] then tx_locks T else tx_locks T \<union> set_option (wants (tx_prog T)))\<rparr>]\<rparr>)"

text \<open>The end of a transaction, with the result its caller gets.\<close>

definition finish :: "'r system \<Rightarrow> nat \<Rightarrow> bool \<Rightarrow> error + 'r \<Rightarrow> 'r system" where
  "finish S i commit r =
     (let T = txs S ! i in
      S\<lparr>committed := (if commit then view (committed S) (tx_writes T) else committed S),
        txs := (txs S)[i := T\<lparr>tx_writes := [], tx_locks := {}, tx_result := Some r\<rparr>],
        committed_by := (if commit then committed_by S @ [i] else committed_by S)\<rparr>)"

text \<open>
  The steps that transaction \<open>i\<close> and the database take by themselves, and the failures of the network:
  a connection is lost, whereupon the server rolls its transaction back, or the answer to a
  commit is, or that to a rollback, which \<open>execTx\<close> adds to the error it is for.
\<close>

inductive tx_step :: "nat \<Rightarrow> 'r system \<Rightarrow> 'r system \<Rightarrow> bool" for i where
  statement: "i < length (txs S) \<Longrightarrow> tx_result (txs S ! i) = None \<Longrightarrow>
    at_statement (tx_prog (txs S ! i)) \<Longrightarrow> may_run S i \<Longrightarrow> tx_step i S (run_statement S i)"
| commit: "i < length (txs S) \<Longrightarrow> tx_result (txs S ! i) = None \<Longrightarrow>
    tx_prog (txs S ! i) = Return (Inr x) \<Longrightarrow> tx_step i S (finish S i True (Inr x))"
| rollback: "i < length (txs S) \<Longrightarrow> tx_result (txs S ! i) = None \<Longrightarrow>
    tx_prog (txs S ! i) = Return (Inl e) \<Longrightarrow> tx_step i S (finish S i False (Inl e))"

inductive tx_fault :: "nat \<Rightarrow> 'r system \<Rightarrow> 'r system \<Rightarrow> bool" for i where
  connection_lost: "i < length (txs S) \<Longrightarrow> tx_result (txs S ! i) = None \<Longrightarrow>
    tx_fault i S (finish S i False (Inl (OtherErr m)))"
| answer_lost: "i < length (txs S) \<Longrightarrow> tx_result (txs S ! i) = None \<Longrightarrow>
    tx_prog (txs S ! i) = Return (Inr x) \<Longrightarrow> tx_fault i S (finish S i True (Inl (OtherErr m)))"
| rollback_lost: "i < length (txs S) \<Longrightarrow> tx_result (txs S ! i) = None \<Longrightarrow>
    e = OtherErr m' \<or> tx_prog (txs S ! i) = Return (Inl e) \<Longrightarrow> tx_fault i S (finish S i False (Inl (TxErr e (OtherErr m))))"

definition step :: "'r system \<Rightarrow> 'r system \<Rightarrow> bool" where
  "step S S' \<longleftrightarrow> (\<exists>i. tx_step i S S')"

definition tx_act :: "nat \<Rightarrow> 'r system \<Rightarrow> 'r system \<Rightarrow> bool" where
  "tx_act i S S' \<longleftrightarrow> tx_step i S S' \<or> tx_fault i S S'"

definition act :: "'r system \<Rightarrow> 'r system \<Rightarrow> bool" where
  "act S S' \<longleftrightarrow> (\<exists>i. tx_act i S S')"

inductive_cases tx_stepE: "tx_step i S S'"
inductive_cases tx_faultE: "tx_fault i S S'"

lemma step_act: "step S S' \<Longrightarrow> act S S'"
  by (auto simp: step_def act_def tx_act_def)

section \<open>Calls of the store\<close>

datatype job = Plain TransferTxParams | Keyed IdempotentTransferTxParams

definition job_prog :: "env \<Rightarrow> job \<Rightarrow> TransferTxResult prog" where
  "job_prog E j = (case j of Plain arg \<Rightarrow> transferTx_prog arg | Keyed arg \<Rightarrow> claimAndTransfer_prog E arg)"

definition job_transfer :: "job \<Rightarrow> TransferTxParams" where
  "job_transfer j = (case j of Plain arg \<Rightarrow> arg | Keyed arg \<Rightarrow> IdempotentTransferTxParams_TransferTxParams arg)"

definition job_key :: "job \<Rightarrow> (string \<times> string) option" where
  "job_key j = (case j of Plain _ \<Rightarrow> None
     | Keyed arg \<Rightarrow> Some (IdempotentTransferTxParams_Owner arg, IdempotentTransferTxParams_Key arg))"

text \<open>All transactions have begun, each at its own time, and none has run a statement.\<close>

definition start :: "env \<Rightarrow> database \<Rightarrow> (time \<times> job) list \<Rightarrow> TransferTxResult system" where
  "start E d jobs =
     \<lparr>committed = d,
      txs = map (\<lambda>tj. \<lparr>tx_now = fst tj, tx_prog = job_prog E (snd tj), tx_writes = [],
        tx_locks = {}, tx_result = None\<rparr>) jobs,
      committed_by = []\<rparr>"

definition all_ended :: "'r system \<Rightarrow> bool" where
  "all_ended S \<longleftrightarrow> (\<forall>T \<in> set (txs S). tx_result T \<noteq> None)"

section \<open>Invariants of the running system\<close>

text \<open>
  A step or failure either executes one statement of one transaction or ends one. An
  invariant of both holds in whatever state the system gets to.
\<close>

lemma tx_act_cases:
  assumes "tx_act i S S'"
  obtains (statement) "i < length (txs S)" "tx_result (txs S ! i) = None"
      "at_statement (tx_prog (txs S ! i))" "may_run S i" "S' = run_statement S i"
  | (finish) commit r where "i < length (txs S)" "tx_result (txs S ! i) = None"
      "S' = finish S i commit r" "commit \<Longrightarrow> \<exists>x. tx_prog (txs S ! i) = Return (Inr x)"
      "\<And>x. r = Inr x \<Longrightarrow> commit"
  using assms unfolding tx_act_def by (auto elim!: tx_stepE tx_faultE)

lemma act_cases:
  assumes "act S S'"
  obtains (statement) i where "i < length (txs S)" "tx_result (txs S ! i) = None"
      "at_statement (tx_prog (txs S ! i))" "may_run S i" "S' = run_statement S i"
  | (finish) i commit r where "i < length (txs S)" "tx_result (txs S ! i) = None"
      "S' = finish S i commit r" "commit \<Longrightarrow> \<exists>x. tx_prog (txs S ! i) = Return (Inr x)"
      "\<And>x. r = Inr x \<Longrightarrow> commit"
proof -
  from assms obtain i where "tx_act i S S'" by (auto simp: act_def)
  then show thesis by (cases rule: tx_act_cases) (rule statement finish; assumption; blast)+
qed

locale system_invariant =
  fixes I :: "'r system \<Rightarrow> bool"
  assumes statement_kept: "I S \<Longrightarrow> i < length (txs S) \<Longrightarrow> tx_result (txs S ! i) = None \<Longrightarrow>
      at_statement (tx_prog (txs S ! i)) \<Longrightarrow> may_run S i \<Longrightarrow> I (run_statement S i)"
    and finish_kept: "I S \<Longrightarrow> i < length (txs S) \<Longrightarrow> tx_result (txs S ! i) = None \<Longrightarrow>
      (commit \<Longrightarrow> \<exists>x. tx_prog (txs S ! i) = Return (Inr x)) \<Longrightarrow> (\<And>x. r = Inr x \<Longrightarrow> commit) \<Longrightarrow>
      I (finish S i commit r)"
begin

lemma act_kept: "act S S' \<Longrightarrow> I S \<Longrightarrow> I S'"
  by (erule act_cases) (simp_all add: statement_kept finish_kept)

lemma reached: "act\<^sup>*\<^sup>* S S' \<Longrightarrow> I S \<Longrightarrow> I S'"
  by (induction rule: rtranclp_induct) (auto intro: act_kept)

end

lemma txs_finish [simp]:
  "txs (finish S i commit r) =
     (txs S)[i := (txs S ! i)\<lparr>tx_writes := [], tx_locks := {}, tx_result := Some r\<rparr>]"
  by (simp add: finish_def Let_def)

lemma run_statement_sel:
  assumes "perform (tx_prog (txs S ! i)) (tx_now (txs S ! i))
      (view (committed S) (tx_writes (txs S ! i))) = (p, ws, d)"
  shows "txs (run_statement S i) = (txs S)[i := (txs S ! i)\<lparr>tx_prog := p,
      tx_writes := tx_writes (txs S ! i) @ ws,
      tx_locks := (if ws = [] then tx_locks (txs S ! i)
        else tx_locks (txs S ! i) \<union> set_option (wants (tx_prog (txs S ! i))))\<rparr>]"
    and "committed (run_statement S i) = rollback_to (committed S) d"
    and "committed_by (run_statement S i) = committed_by S"
  by (simp_all add: run_statement_def assms Let_def)

section \<open>Lock order\<close>

text \<open>
  Locks are exclusive, an ended transaction holds none, and one in progress is typed for the
  locks it holds.
\<close>

definition well_locked :: "'r system \<Rightarrow> bool" where
  "well_locked S \<longleftrightarrow>
     (\<forall>i < length (txs S). \<forall>j < length (txs S). i \<noteq> j \<longrightarrow>
        tx_locks (txs S ! i) \<inter> tx_locks (txs S ! j) = {}) \<and>
     (\<forall>T \<in> set (txs S). if tx_result T = None then lock_typed (tx_prog T) (tx_locks T) else tx_locks T = {})"

text \<open>A program stays typed when its statement is executed.\<close>

lemma perform_typed:
  assumes "lock_typed q H" and "perform q now d = (p, ws, d')"
  shows "lock_typed p (if ws = [] then H else H \<union> set_option (wants q))"
  using assms by (cases q) (auto simp: Let_def wrote_def split: prod.splits sum.splits)

lemma well_locked_disjoint:
  "well_locked S \<Longrightarrow> i < length (txs S) \<Longrightarrow> k < length (txs S) \<Longrightarrow> k \<noteq> i \<Longrightarrow>
   l \<in> tx_locks (txs S ! k) \<Longrightarrow> l \<notin> tx_locks (txs S ! i)"
  unfolding well_locked_def by blast

lemma well_locked_update:
  assumes "well_locked S" and "i < length (txs S)" and S': "txs S' = (txs S)[i := T]"
    and free: "\<And>j. j < length (txs S) \<Longrightarrow> j \<noteq> i \<Longrightarrow> tx_locks T \<inter> tx_locks (txs S ! j) = {}"
    and typed: "if tx_result T = None then lock_typed (tx_prog T) (tx_locks T) else tx_locks T = {}"
  shows "well_locked S'"
proof -
  have "tx_locks (txs S' ! j) \<inter> tx_locks (txs S' ! k) = {}"
    if "j < length (txs S')" "k < length (txs S')" "j \<noteq> k" for j k
    using that assms(1,2) free unfolding S' well_locked_def by (auto simp: nth_list_update)
  moreover have "if tx_result U = None then lock_typed (tx_prog U) (tx_locks U) else tx_locks U = {}"
    if "U \<in> set (txs S')" for U
    using that assms(1) typed set_update_subset_insert [of "txs S" i T] unfolding S' well_locked_def
    by blast
  ultimately show ?thesis unfolding well_locked_def by blast
qed

lemma well_locked_statement:
  assumes "well_locked S" and i: "i < length (txs S)" "tx_result (txs S ! i) = None" and run: "may_run S i"
  shows "well_locked (run_statement S i)"
proof -
  obtain p ws d where perf: "perform (tx_prog (txs S ! i)) (tx_now (txs S ! i))
      (view (committed S) (tx_writes (txs S ! i))) = (p, ws, d)"
    by (metis prod_cases3)
  have "\<forall>T \<in> set (txs S). if tx_result T = None then lock_typed (tx_prog T) (tx_locks T) else tx_locks T = {}"
    using assms(1) unfolding well_locked_def by blast
  then have "lock_typed (tx_prog (txs S ! i)) (tx_locks (txs S ! i))"
    using i nth_mem by fastforce
  note typed = perform_typed [OF this perf]
  show ?thesis
    by (rule well_locked_update [OF assms(1) i(1) run_statement_sel(1) [OF perf]])
      (use assms(1) run i typed in
        \<open>auto simp: well_locked_def may_run_def split: option.splits\<close>)
qed

lemma well_locked_finish:
  assumes "well_locked S" and "i < length (txs S)"
  shows "well_locked (finish S i commit r)"
  by (rule well_locked_update [OF assms txs_finish]) simp_all

interpretation locks: system_invariant well_locked
  by unfold_locales (rule well_locked_statement well_locked_finish; assumption)+

lemma well_locked_start: "well_locked (start E d jobs)"
  by (auto simp: well_locked_def start_def job_prog_def lock_typed_transfer lock_typed_claim
      split: job.split)

section \<open>Progress\<close>

text \<open>
  No deadlock: of the locks that are waited for, take the greatest. Its holder does not wait,
  since it could only wait for a greater one.
\<close>

lemma progress_among:
  assumes "well_locked S" and i: "i \<in> A" "i < length (txs S)" "tx_result (txs S ! i) = None"
    and outside: "\<And>j. j < length (txs S) \<Longrightarrow> j \<notin> A \<Longrightarrow> tx_locks (txs S ! j) = {}"
  obtains j S' where "j \<in> A" "tx_step j S S'"
proof (rule ccontr)
  assume "\<not> thesis"
  with that have stuck: "\<not> tx_step j S S'" if "j \<in> A" for j S' using that by blast
  let ?run = "\<lambda>i. i \<in> A \<and> i < length (txs S) \<and> tx_result (txs S ! i) = None"
  have blocked: "\<exists>l j. wants (tx_prog (txs S ! i)) = Some l \<and> j < length (txs S) \<and> j \<noteq> i \<and>
      l \<in> tx_locks (txs S ! j)" if "?run i" for i
  proof -
    have "at_statement (tx_prog (txs S ! i))"
    proof (cases "tx_prog (txs S ! i)")
      case (Return r)
      then show ?thesis using stuck that by (cases r) (blast intro: tx_step.intros)+
    qed (simp_all add: at_statement_def)
    then have "\<not> may_run S i" using stuck that tx_step.statement by blast
    then show ?thesis by (auto simp: may_run_def split: option.splits)
  qed
  define W where "W = {l. \<exists>i. ?run i \<and> wants (tx_prog (txs S ! i)) = Some l}"
  have "W \<subseteq> (\<lambda>i. the (wants (tx_prog (txs S ! i)))) ` {..<length (txs S)}"
    by (force simp: W_def)
  then have "finite W" by (rule finite_subset) simp
  have "W \<noteq> {}" using blocked i by (fastforce simp: W_def)
  with \<open>finite W\<close> have "Max W \<in> W" by (rule Max_in)
  then obtain i where i: "?run i" "wants (tx_prog (txs S ! i)) = Some (Max W)" by (auto simp: W_def)
  with blocked obtain j where j: "j < length (txs S)" "j \<noteq> i" "Max W \<in> tx_locks (txs S ! j)" by force
  have ok: "if tx_result (txs S ! j) = None then lock_typed (tx_prog (txs S ! j)) (tx_locks (txs S ! j))
      else tx_locks (txs S ! j) = {}"
    using assms(1) j(1) nth_mem unfolding well_locked_def by blast
  with j outside have run_j: "?run j" by (fastforce split: if_splits)
  from blocked [OF this] obtain l k where l: "wants (tx_prog (txs S ! j)) = Some l"
    and k: "k < length (txs S)" "k \<noteq> j" "l \<in> tx_locks (txs S ! k)" by blast
  have "l \<notin> tx_locks (txs S ! j)"
    using assms(1) j(1) k unfolding well_locked_def by blast
  moreover have "in_order l (tx_locks (txs S ! j))"
    using ok run_j l by (cases "tx_prog (txs S ! j)") (auto simp: Let_def)
  ultimately have "Max W < l" using j(3) by (auto simp: in_order_def)
  moreover have "l \<in> W" using run_j l by (auto simp: W_def)
  ultimately show False using \<open>finite W\<close> by (meson Max_ge not_le)
qed

lemma progress:
  assumes "well_locked S" and "\<not> all_ended S"
  obtains S' where "step S S'"
proof -
  obtain i where "i < length (txs S)" "tx_result (txs S ! i) = None"
    using assms(2) by (auto simp: all_ended_def in_set_conv_nth)
  with progress_among [OF assms(1), of i UNIV] that show thesis by (auto simp: step_def)
qed

section \<open>Termination\<close>

text \<open>Every step makes the program of one transaction shorter, or ends a transaction.\<close>

inductive after_stmt :: "'r prog \<Rightarrow> 'r prog \<Rightarrow> bool" where
  "after_stmt (k r) (Transfer_stmt a1 k)"
| "after_stmt (k' r') (Entry_stmt a2 k')"
| "after_stmt (k'' r'') (Balance_stmt a3 k'')"
| "after_stmt (m s) (Claim_stmt a4 m)"
| "after_stmt (m' s') (Complete_stmt a5 m')"

inductive_cases after_stmtE [elim!]:
  "after_stmt p (Return r)" "after_stmt p (Transfer_stmt arg1 k1)" "after_stmt p (Entry_stmt arg2 k2)"
  "after_stmt p (Balance_stmt arg3 k3)" "after_stmt p (Claim_stmt arg4 k4)"
  "after_stmt p (Complete_stmt arg5 k5)"

lemma wf_after_stmt: "wf {(p, q). after_stmt p q}"
proof -
  have "p \<in> Wellfounded.acc {(p, q). after_stmt p q}" for p :: "'r prog"
    by (induction p) (rule accI, auto)+
  then show ?thesis by (intro acc_wfI allI)
qed

lemma perform_after: "perform q now d = (p, ws, d') \<Longrightarrow> at_statement q \<Longrightarrow> after_stmt p q"
  by (cases q) (auto simp: at_statement_def split: prod.splits intro: after_stmt.intros)

definition tx_rel :: "('r tx \<times> 'r tx) set" where
  "tx_rel = inv_image (less_than <*lex*> {(p, q). after_stmt p q})
     (\<lambda>T. (if tx_result T = None then 1 else 0, tx_prog T))"

lemma wf_tx_rel: "wf tx_rel"
  unfolding tx_rel_def by (intro wf_inv_image wf_lex_prod wf_less_than wf_after_stmt)

lemma list_update_listrel1: "i < length xs \<Longrightarrow> (y, xs ! i) \<in> R \<Longrightarrow> (xs[i := y], xs) \<in> listrel1 R"
  by (rule listrel1I [of y "xs ! i" R _ "take i xs" "drop (Suc i) xs"])
    (simp_all add: id_take_nth_drop upd_conv_take_nth_drop)

lemma act_decreases:
  assumes "act S S'" shows "(txs S', txs S) \<in> listrel1 tx_rel"
  using assms
proof (cases rule: act_cases)
  case (statement i)
  obtain p ws d where perf: "perform (tx_prog (txs S ! i)) (tx_now (txs S ! i))
      (view (committed S) (tx_writes (txs S ! i))) = (p, ws, d)"
    by (metis prod_cases3)
  show ?thesis
    unfolding statement(5) run_statement_sel [OF perf]
    by (rule list_update_listrel1 [OF statement(1)])
      (use statement perform_after [OF perf] in \<open>auto simp: tx_rel_def\<close>)
next
  case (finish i commit r)
  show ?thesis
    unfolding finish(3) txs_finish
    by (rule list_update_listrel1 [OF finish(1)]) (use finish in \<open>simp add: tx_rel_def\<close>)
qed

lemma wf_act: "wf {(S', S). act S S'}"
proof (rule wf_subset)
  show "wf (inv_image (listrel1 tx_rel) (txs :: 'r system \<Rightarrow> 'r tx list))"
    by (simp add: wf_listrel1_iff wf_tx_rel wf_inv_image)
qed (auto dest: act_decreases)

lemma can_end:
  assumes "well_locked S"
  shows "\<exists>S'. step\<^sup>*\<^sup>* S S' \<and> all_ended S'"
  using wf_act assms
proof (induction S rule: wf_induct_rule)
  case (less S)
  show ?case
  proof (cases "all_ended S")
    case False
    with less.prems obtain S' where S': "step S S'" by (rule progress)
    then have act: "act S S'" by (rule step_act)
    with less.prems have "well_locked S'" by (blast intro: locks.act_kept)
    with less.IH [of S'] act obtain T where "step\<^sup>*\<^sup>* S' T" "all_ended T" by auto
    with S' show ?thesis by (blast intro: converse_rtranclp_into_rtranclp)
  qed auto
qed

lemma step_runs: "step\<^sup>*\<^sup>* S S' \<Longrightarrow> act\<^sup>*\<^sup>* S S'"
  by (rule rtranclp_mono [THEN predicate2D, of step]) (auto intro: step_act)

lemma complete_run: "\<exists>S. act\<^sup>*\<^sup>* (start E d jobs) S \<and> all_ended S"
  using can_end [OF well_locked_start, of E d jobs] step_runs by blast

text \<open>
  C14: Every transaction of the store is typed for the lock order, whatever answers its
  statements get, and stays so in every concurrent run: at any moment, the lock a transaction
  asks for next is one it holds already or greater than all it holds. A transfer claims its
  key before it touches an account and updates the account with the lower id first.
\<close>

theorem locks_taken_in_order:
  "lock_typed (job_prog E j) {} \<and>
   (act\<^sup>*\<^sup>* (start E d jobs) S \<longrightarrow> (\<forall>T \<in> set (txs S). tx_result T = None \<longrightarrow>
      lock_typed (tx_prog T) (tx_locks T) \<and>
      (\<forall>l. wants (tx_prog T) = Some l \<longrightarrow> l \<in> tx_locks T \<or> (\<forall>h \<in> tx_locks T. h < l))))"
proof -
  have "lock_typed p H \<Longrightarrow> wants p = Some l \<Longrightarrow> in_order l H" for p :: "TransferTxResult prog" and l H
    by (cases p) (auto simp: Let_def)
  moreover have "well_locked S" if "act\<^sup>*\<^sup>* (start E d jobs) S"
    using that well_locked_start by (rule locks.reached)
  moreover have "lock_typed (job_prog E j) {}"
    by (simp add: job_prog_def lock_typed_transfer lock_typed_claim split: job.split)
  ultimately show ?thesis by (fastforce simp: well_locked_def in_order_def)
qed

text \<open>Two opposite transfers and a retried one, concurrently.\<close>

definition example_keyed :: IdempotentTransferTxParams where
  "example_keyed = \<lparr>IdempotentTransferTxParams_TransferTxParams = example_transfer 30,
     IdempotentTransferTxParams_Owner = ''ann'', IdempotentTransferTxParams_Key = ''k'',
     IdempotentTransferTxParams_RequestHash = ''h''\<rparr>"

definition example_jobs :: "(time \<times> job) list" where
  "example_jobs = [(0, Keyed example_keyed), (1, Keyed example_keyed), (2, Plain (example_transfer 30)),
     (3, Plain \<lparr>TransferTxParams_FromAccountID = 2, TransferTxParams_ToAccountID = 1,
       TransferTxParams_Amount = 5\<rparr>)]"

theorem locks_taken_in_order_witness:
  "lock_typed (claimAndTransfer_prog example_env example_keyed) {} \<and>
   list_all (\<lambda>T. lock_typed (tx_prog T) (tx_locks T)) (txs (start example_env example_db example_jobs))"
  using locks_taken_in_order [of example_env "Keyed example_keyed" example_db example_jobs
      "start example_env example_db example_jobs"]
  by (auto simp: job_prog_def start_def list_all_iff)

text \<open>
  C13: Concurrent transfers always end. Whatever calls run concurrently and however their
  statements have been interleaved so far, there is no deadlock: while some call has not
  returned, one of them can take its next step; and no interleaving goes on for ever.
\<close>

theorem concurrent_transfers_end:
  assumes "act\<^sup>*\<^sup>* (start E d jobs) S"
  shows "(\<not> all_ended S \<longrightarrow> (\<exists>S'. step S S')) \<and> (\<exists>S'. step\<^sup>*\<^sup>* S S' \<and> all_ended S') \<and>
    \<not> (\<exists>f. f 0 = S \<and> (\<forall>n. act (f n) (f (Suc n))))"
proof -
  have ok: "well_locked S" using assms well_locked_start by (rule locks.reached)
  have "\<not> (\<exists>f. \<forall>n. act (f n) (f (Suc n)))"
    using wf_act by (auto simp: wf_iff_no_infinite_down_chain)
  with ok show ?thesis using progress can_end by blast
qed

text \<open>The same, of a state in which the first attempt has claimed the key.\<close>

theorem concurrent_transfers_end_witness:
  "\<exists>S S'. step (start example_env example_db example_jobs) S \<and>
     KeyLock ''ann'' ''k'' \<in> tx_locks (txs S ! 0) \<and> step\<^sup>*\<^sup>* S S' \<and> all_ended S'"
proof -
  let ?S = "start example_env example_db example_jobs"
  have "step ?S (run_statement ?S 0)"
    unfolding step_def
    by (rule exI, rule tx_step.statement)
      (simp_all add: start_def example_jobs_def job_prog_def claimAndTransfer_prog_def at_statement_def
        may_run_def less_Suc_eq)
  moreover from this have "act\<^sup>*\<^sup>* ?S (run_statement ?S 0)" by (blast intro: step_act)
  from concurrent_transfers_end [OF this]
  obtain S' where "step\<^sup>*\<^sup>* (run_statement ?S 0) S'" "all_ended S'" by blast
  moreover have "KeyLock ''ann'' ''k'' \<in> tx_locks (txs (run_statement ?S 0) ! 0)"
    by (simp add: run_statement_def start_def example_jobs_def job_prog_def claimAndTransfer_prog_def
        example_keyed_def view_def sql_CreateIdempotencyKey_def wrote_def Let_def)
  ultimately show ?thesis by blast
qed

lemma committed_finish: "committed (finish S i commit r) =
    (if commit then view (committed S) (tx_writes (txs S ! i)) else committed S)"
  by (simp add: finish_def Let_def)

text \<open>A transaction that goes on changes itself only.\<close>

lemma tx_act_only:
  assumes "tx_act i S S'"
  shows "length (txs S') = length (txs S)" "k \<noteq> i \<Longrightarrow> txs S' ! k = txs S ! k" "act S S'"
    "tx_result (txs S ! i) = None"
proof -
  obtain p vs d where perf: "perform (tx_prog (txs S ! i)) (tx_now (txs S ! i))
      (view (committed S) (tx_writes (txs S ! i))) = (p, vs, d)"
    by (metis prod_cases3)
  from assms show "length (txs S') = length (txs S)" "k \<noteq> i \<Longrightarrow> txs S' ! k = txs S ! k"
    "tx_result (txs S ! i) = None"
    by (cases rule: tx_act_cases; simp add: run_statement_sel [OF perf])+
  from assms show "act S S'" by (auto simp: act_def)
qed

text \<open>The step of a transaction without failures, or \<open>None\<close> if it has to wait for a lock.\<close>

definition tx_next :: "nat \<Rightarrow> TransferTxResult system \<Rightarrow> TransferTxResult system option" where
  "tx_next i S = (case tx_prog (txs S ! i) of
       Return (Inr x) \<Rightarrow> Some (finish S i True (Inr x))
     | Return (Inl e) \<Rightarrow> Some (finish S i False (Inl e))
     | _ \<Rightarrow> if may_run S i then Some (run_statement S i) else None)"

lemma tx_next_step:
  assumes "tx_next i S = Some S'" and "i < length (txs S)" "tx_result (txs S ! i) = None"
  shows "tx_step i S S'"
  using assms by (auto simp: tx_next_def at_statement_def split: prog.splits sum.splits if_splits
      intro!: tx_step.intros)

end
