(* ===== verification/Serial.thy ===== *)
theory Serial
  imports Concurrency
begin

text \<open>
  What concurrent transfers add up to. The specification is a serial ledger: the committed
  transfers executed one after another, each with the two balance changes of \<open>addMoney\<close> in
  their order. The proof follows every transaction through its own row versions: the accounts
  it has changed are locked, so nobody else changes them before it commits.
\<close>

section \<open>The serial ledger\<close>

type_synonym ledger = "int64 \<Rightarrow> int option"

text \<open>One balance change: the account must exist and its new balance be an \<open>int64\<close> from 0 up.\<close>

definition post :: "int64 \<times> int64 \<Rightarrow> ledger \<Rightarrow> ledger option" where
  "post m L =
     (case L (fst m) of
        None \<Rightarrow> None
      | Some b \<Rightarrow>
          if balance_error (b + sint (snd m)) = None then Some (L(fst m \<mapsto> b + sint (snd m))) else None)"

fun posts :: "(int64 \<times> int64) list \<Rightarrow> ledger \<Rightarrow> ledger option" where
  "posts [] L = Some L"
| "posts (m # ms) L = (case post m L of None \<Rightarrow> None | Some M \<Rightarrow> posts ms M)"

text \<open>The balance changes of a transfer in the order in which they are made, and its entries.\<close>

definition moves :: "TransferTxParams \<Rightarrow> (int64 \<times> int64) list" where
  "moves arg =
     (if sint (TransferTxParams_FromAccountID arg) < sint (TransferTxParams_ToAccountID arg)
      then [(TransferTxParams_FromAccountID arg, - TransferTxParams_Amount arg),
            (TransferTxParams_ToAccountID arg, TransferTxParams_Amount arg)]
      else [(TransferTxParams_ToAccountID arg, TransferTxParams_Amount arg),
            (TransferTxParams_FromAccountID arg, - TransferTxParams_Amount arg)])"

definition bookings :: "TransferTxParams \<Rightarrow> (int64 \<times> int64) list" where
  "bookings arg = [(TransferTxParams_FromAccountID arg, - TransferTxParams_Amount arg),
     (TransferTxParams_ToAccountID arg, TransferTxParams_Amount arg)]"

fun serial :: "TransferTxParams list \<Rightarrow> ledger \<Rightarrow> ledger option" where
  "serial [] L = Some L"
| "serial (arg # args) L = (case posts (moves arg) L of None \<Rightarrow> None | Some M \<Rightarrow> serial args M)"

text \<open>Between different accounts this is the abstract transfer of Transfer_Spec.\<close>

lemma posts_abs_transfer:
  assumes "TransferTxParams_FromAccountID arg \<noteq> TransferTxParams_ToAccountID arg"
    and "\<And>i b. L i = Some b \<Longrightarrow> 0 \<le> b \<and> b \<le> max_int64"
  shows "posts (moves arg) L = abs_transfer (TransferTxParams_FromAccountID arg)
    (TransferTxParams_ToAccountID arg) (sint (TransferTxParams_Amount arg)) L"
proof -
  let ?x = "TransferTxParams_Amount arg"
  have from_ok: "balance_error (b + sint (- ?x)) = None \<longleftrightarrow> 0 \<le> b - sint ?x \<and> b - sint ?x \<le> max_int64"
    if "L i = Some b" for i b
    using minus_in_range assms(2) [OF that] by blast
  have to_ok: "balance_error (c + sint ?x) = None \<longleftrightarrow> 0 \<le> c + sint ?x \<and> c + sint ?x \<le> max_int64" for c
    by (auto simp: balance_error_def in_int64_def)
  have minus: "sint (- ?x) = - sint ?x" if "balance_error (b + sint (- ?x)) = None"
    "balance_error (c + sint ?x) = None" "L i = Some b" "L j = Some c" for b c i j
    using rows_amount [OF that(1,2)] assms(2) that(3,4) by blast
  show ?thesis
    using assms(1) from_ok to_ok minus
    by (cases "L (TransferTxParams_FromAccountID arg)"; cases "L (TransferTxParams_ToAccountID arg)")
      (auto simp: moves_def post_def abs_transfer_def fun_upd_twist split: option.splits)
qed

lemma posts_append: "posts (ms @ ns) L = (case posts ms L of None \<Rightarrow> None | Some M \<Rightarrow> posts ns M)"
  by (induction ms arbitrary: L) (auto split: option.split)

lemma serial_append: "serial (as @ bs) L = (case serial as L of None \<Rightarrow> None | Some M \<Rightarrow> serial bs M)"
  by (induction as arbitrary: L) (auto split: option.split)

text \<open>Changes look at and touch only the accounts they name.\<close>

lemma posts_local:
  "posts ms L = Some M \<Longrightarrow> fst ` set ms \<subseteq> A \<Longrightarrow> \<forall>i \<in> A. L' i = L i \<Longrightarrow>
   posts ms L' = Some (\<lambda>i. if i \<in> A then M i else L' i)"
proof (induction ms arbitrary: L L')
  case (Cons m ms)
  from Cons.prems obtain b where b: "L (fst m) = Some b" "balance_error (b + sint (snd m)) = None"
    "posts ms (L(fst m \<mapsto> b + sint (snd m))) = Some M"
    by (auto simp: post_def split: option.splits if_splits)
  have "posts ms (L'(fst m \<mapsto> b + sint (snd m))) =
      Some (\<lambda>i. if i \<in> A then M i else (L'(fst m \<mapsto> b + sint (snd m))) i)"
    by (rule Cons.IH [OF b(3)]) (use Cons.prems in auto)
  moreover have "(\<lambda>i. if i \<in> A then M i else (L'(fst m \<mapsto> b + sint (snd m))) i) =
      (\<lambda>i. if i \<in> A then M i else L' i)"
    using Cons.prems(2) by (auto simp: fun_eq_iff)
  ultimately show ?case using b Cons.prems by (simp add: post_def)
qed (auto simp: fun_eq_iff)

section \<open>Row versions and the ledger\<close>

definition write_ledger :: "row_write \<Rightarrow> ledger \<Rightarrow> ledger" where
  "write_ledger w L =
     (case w of
        AccountVersion a \<Rightarrow>
          if L (Account_ID a) = None then L else L(Account_ID a \<mapsto> sint (Account_Balance a))
      | _ \<Rightarrow> L)"

definition touched :: "row_write list \<Rightarrow> int64 set" where
  "touched ws = {Account_ID a | a. AccountVersion a \<in> set ws}"

lemma touched_simps [simp]: "touched [] = {}" "touched (ws @ vs) = touched ws \<union> touched vs"
  "touched (w # ws) = (case w of AccountVersion a \<Rightarrow> {Account_ID a} | _ \<Rightarrow> {}) \<union> touched ws"
  by (auto simp: touched_def split: row_write.splits)

lemma lookup_version:
  "lookup key i (update_where (\<lambda>r. key r = key a) (\<lambda>_. a) rows) =
     (if i = key a then map_option (\<lambda>_. a) (lookup key i rows) else lookup key i rows)"
  by (induction rows) auto

lemma abs_ledger_apply_write: "abs_ledger (apply_write w d) = write_ledger w (abs_ledger d)"
  by (cases w) (auto simp: apply_write_def write_ledger_def abs_ledger_def lookup_version fun_eq_iff)

lemma abs_ledger_view: "abs_ledger (view d ws) = fold write_ledger ws (abs_ledger d)"
  by (induction ws arbitrary: d) (simp_all add: view_def abs_ledger_apply_write)

lemma write_ledger_local:
  "touched ws \<subseteq> A \<Longrightarrow> \<forall>i \<in> A. L' i = L i \<Longrightarrow>
   fold write_ledger ws L' = (\<lambda>i. if i \<in> A then fold write_ledger ws L i else L' i)"
proof (induction ws arbitrary: L L')
  case (Cons w ws)
  have "fold write_ledger ws (write_ledger w L') =
      (\<lambda>i. if i \<in> A then fold write_ledger ws (write_ledger w L) i else write_ledger w L' i)"
    by (rule Cons.IH) (use Cons.prems in \<open>auto simp: write_ledger_def split: row_write.splits\<close>)
  moreover have "write_ledger w L' i = L' i" if "i \<notin> A" for i
    using Cons.prems(1) that by (auto simp: write_ledger_def split: row_write.splits)
  ultimately show ?case by (simp add: fun_eq_iff)
qed (auto simp: fun_eq_iff)

lemma abs_ledger_rollback_to [simp]: "abs_ledger (rollback_to d d') = abs_ledger d"
  by (rule abs_ledger_accounts) (simp add: rollback_to_def)

text \<open>The transfer and entry rows, without ids and times.\<close>

definition transfer_data :: "Transfer \<Rightarrow> TransferTxParams" where
  "transfer_data t = \<lparr>TransferTxParams_FromAccountID = Transfer_FromAccountID t,
     TransferTxParams_ToAccountID = Transfer_ToAccountID t, TransferTxParams_Amount = Transfer_Amount t\<rparr>"

definition entry_data :: "Entry \<Rightarrow> int64 \<times> int64" where
  "entry_data e = (Entry_AccountID e, Entry_Amount e)"

definition new_transfers :: "row_write list \<Rightarrow> TransferTxParams list" where
  "new_transfers ws = concat (map (\<lambda>w. case w of NewTransfer t \<Rightarrow> [transfer_data t] | _ \<Rightarrow> []) ws)"

definition new_entries :: "row_write list \<Rightarrow> (int64 \<times> int64) list" where
  "new_entries ws = concat (map (\<lambda>w. case w of NewEntry e \<Rightarrow> [entry_data e] | _ \<Rightarrow> []) ws)"

lemma new_rows_simps [simp]:
  "new_transfers [] = []" "new_transfers (ws @ vs) = new_transfers ws @ new_transfers vs"
  "new_entries [] = []" "new_entries (ws @ vs) = new_entries ws @ new_entries vs"
  "new_transfers (w # ws) = (case w of NewTransfer t \<Rightarrow> [transfer_data t] | _ \<Rightarrow> []) @ new_transfers ws"
  "new_entries (w # ws) = (case w of NewEntry e \<Rightarrow> [entry_data e] | _ \<Rightarrow> []) @ new_entries ws"
  by (simp_all add: new_transfers_def new_entries_def)

lemma view_rows:
  "map transfer_data (transfers (view d ws)) = map transfer_data (transfers d) @ new_transfers ws"
  "map entry_data (entries (view d ws)) = map entry_data (entries d) @ new_entries ws"
  by (induction ws arbitrary: d) (auto simp: view_def apply_write_def split: row_write.split)

section \<open>What a program still has to write\<close>

text \<open>
  \<open>expects p ts es bs\<close>: if the rest \<open>p\<close> of a transaction ends without an error, it has
  inserted the transfers \<open>ts\<close>, the entries \<open>es\<close> and made the balance changes \<open>bs\<close>. A program
  whose statement has failed ends with an error, so it is expected to do anything.
\<close>

primrec expects :: "'r prog \<Rightarrow> TransferTxParams list \<Rightarrow> (int64 \<times> int64) list \<Rightarrow> (int64 \<times> int64) list \<Rightarrow> bool"
where
  "expects (Return r) ts es bs = (case r of Inl _ \<Rightarrow> True | Inr _ \<Rightarrow> ts = [] \<and> es = [] \<and> bs = [])"
| "expects (Transfer_stmt arg k) ts es bs =
     ((\<exists>ts'. ts = arg # ts' \<and> (\<forall>x. expects (k (Inr x)) ts' es bs)) \<and>
      (\<forall>e us vs ws. expects (k (Inl e)) us vs ws))"
| "expects (Entry_stmt arg k) ts es bs =
     ((\<exists>es'. es = (CreateEntryParams_AccountID arg, CreateEntryParams_Amount arg) # es' \<and>
        (\<forall>x. expects (k (Inr x)) ts es' bs)) \<and>
      (\<forall>e us vs ws. expects (k (Inl e)) us vs ws))"
| "expects (Balance_stmt arg k) ts es bs =
     ((\<exists>bs'. bs = (AddAccountBalanceParams_ID arg, AddAccountBalanceParams_Amount arg) # bs' \<and>
        (\<forall>x. expects (k (Inr x)) ts es bs')) \<and>
      (\<forall>e us vs ws. expects (k (Inl e)) us vs ws))"
| "expects (Claim_stmt arg k) ts es bs =
     ((\<forall>x. expects (k (Inr x)) ts es bs) \<and> (\<forall>e us vs ws. expects (k (Inl e)) us vs ws))"
| "expects (Complete_stmt arg k) ts es bs =
     ((\<forall>x. expects (k (Inr x)) ts es bs) \<and> (\<forall>e us vs ws. expects (k (Inl e)) us vs ws))"

lemma expects_transferTx:
  "(\<And>r. expects (f r) [] [] []) \<Longrightarrow>
   expects (try_prog (transferTx_prog arg) f) [arg] (bookings arg) (moves arg)"
  by (simp add: transferTx_prog_def addMoney_prog_def Let_def bookings_def moves_def)

lemma expects_job: "expects (job_prog E j) [job_transfer j] (bookings (job_transfer j)) (moves (job_transfer j))"
proof (cases j)
  case (Plain arg)
  then show ?thesis
    using expects_transferTx [of "\<lambda>x. Return (Inr x)" arg] by (simp add: job_prog_def job_transfer_def)
next
  case (Keyed arg)
  then show ?thesis
    by (auto simp: job_prog_def job_transfer_def claimAndTransfer_prog_def split: sum.split
        intro!: expects_transferTx)
qed

text \<open>One statement takes what it has written off what is expected.\<close>

lemma perform_expects:
  assumes "expects q ts es bs" and "perform q now v = (p, ws, d)"
  obtains ts' es' b bs' where "expects p ts' es' bs'" "ts = new_transfers ws @ ts'"
    "es = new_entries ws @ es'" "bs = b @ bs'"
    "posts b (abs_ledger v) = Some (fold write_ledger ws (abs_ledger v))"
    "touched ws \<subseteq> fst ` set b" "RowLock ` fst ` set b \<subseteq> (if ws = [] then {} else set_option (wants q))"
proof (cases q)
  case (Balance_stmt arg k)
  obtain r d' where r: "sql_AddAccountBalance arg now v = (r, d')" by fastforce
  show thesis
  proof (cases r)
    case (Inr a)
    with r obtain old where old: "lookup Account_ID (AddAccountBalanceParams_ID arg) (accounts v) = Some old"
      "a = add_to_balance (AddAccountBalanceParams_Amount arg) old"
      "balance_error (sint (Account_Balance old) + sint (AddAccountBalanceParams_Amount arg)) = None"
      by (auto simp: sql_AddAccountBalance_def balance_error_def Let_def split: option.splits if_splits)
    then have id: "Account_ID a = AddAccountBalanceParams_ID arg" by (auto dest: lookup_SomeD)
    with old have "post (AddAccountBalanceParams_ID arg, AddAccountBalanceParams_Amount arg) (abs_ledger v) =
        Some (write_ledger (AccountVersion a) (abs_ledger v))"
      by (auto simp: post_def abs_ledger_def write_ledger_def balance_error_def sint64_add split: if_splits)
    from assms(1) Balance_stmt obtain bs' where "expects (k (Inr a)) ts es bs'"
      "bs = (AddAccountBalanceParams_ID arg, AddAccountBalanceParams_Amount arg) # bs'"
      by (simp, blast)
    with assms(2) r Inr Balance_stmt id \<open>post _ _ = _\<close> that
        [of ts es bs' "[(AddAccountBalanceParams_ID arg, AddAccountBalanceParams_Amount arg)]"]
    show thesis by (auto simp: wrote_def)
  qed (use assms r Balance_stmt that [of ts es bs "[]"] in \<open>auto simp: wrote_def\<close>)
next
  case (Transfer_stmt arg k)
  obtain r d' where r: "sql_CreateTransfer arg now v = (r, d')" by fastforce
  show thesis
  proof (cases r)
    case (Inr t)
    with r have "transfer_data t = arg"
      by (auto simp: sql_CreateTransfer_def transfer_data_def Let_def split: sum.splits if_splits)
    moreover from assms(1) Transfer_stmt obtain ts' where "expects (k (Inr t)) ts' es bs" "ts = arg # ts'"
      by (simp, blast)
    ultimately show thesis
      using assms(2) r Inr Transfer_stmt that [of ts' es bs "[]"] by (auto simp: wrote_def write_ledger_def)
  qed (use assms r Transfer_stmt that [of ts es bs "[]"] in \<open>auto simp: wrote_def\<close>)
next
  case (Entry_stmt arg k)
  obtain r d' where r: "sql_CreateEntry arg now v = (r, d')" by fastforce
  show thesis
  proof (cases r)
    case (Inr e)
    with r have "entry_data e = (CreateEntryParams_AccountID arg, CreateEntryParams_Amount arg)"
      by (auto simp: sql_CreateEntry_def entry_data_def Let_def split: sum.splits if_splits)
    moreover from assms(1) Entry_stmt obtain es' where "expects (k (Inr e)) ts es' bs"
      "es = (CreateEntryParams_AccountID arg, CreateEntryParams_Amount arg) # es'"
      by (simp, blast)
    ultimately show thesis
      using assms(2) r Inr Entry_stmt that [of ts es' bs "[]"] by (auto simp: wrote_def write_ledger_def)
  qed (use assms r Entry_stmt that [of ts es bs "[]"] in \<open>auto simp: wrote_def\<close>)
next
  case (Claim_stmt arg k)
  with assms that [of ts es bs "[]"] show thesis
    by (auto simp: wrote_def write_ledger_def split: prod.splits sum.splits)
next
  case (Complete_stmt arg k)
  with assms that [of ts es bs "[]"] show thesis
    by (auto simp: wrote_def write_ledger_def split: prod.splits sum.splits)
qed (use assms that [of ts es bs "[]"] in auto)

section \<open>The invariant\<close>

text \<open>
  A transaction in progress: what it has written and what it still expects to write are
  together its transfer; the balance changes made so far, applied to the committed ledger,
  give the ledger it sees; and it holds the lock of every account it has changed.
\<close>

definition on_course ::
    "TransferTxParams \<Rightarrow> ledger \<Rightarrow> 'r prog \<Rightarrow> row_write list \<Rightarrow> lock set \<Rightarrow> bool" where
  "on_course arg L p written H \<longleftrightarrow> (\<exists>ts es done bs. expects p ts es bs \<and>
     [arg] = new_transfers written @ ts \<and> bookings arg = new_entries written @ es \<and>
     moves arg = done @ bs \<and> posts done L = Some (fold write_ledger written L) \<and>
     touched written \<subseteq> fst ` set done \<and> RowLock ` fst ` set done \<subseteq> H)"

definition committed_args :: "(time \<times> job) list \<Rightarrow> 'r system \<Rightarrow> TransferTxParams list" where
  "committed_args jobs S = map (\<lambda>i. job_transfer (snd (jobs ! i))) (committed_by S)"

definition serialized :: "database \<Rightarrow> (time \<times> job) list \<Rightarrow> 'r system \<Rightarrow> bool" where
  "serialized d jobs S \<longleftrightarrow> well_locked S \<and> length (txs S) = length jobs \<and>
     (\<forall>i < length jobs. tx_result (txs S ! i) = None \<longrightarrow>
        on_course (job_transfer (snd (jobs ! i))) (abs_ledger (committed S))
          (tx_prog (txs S ! i)) (tx_writes (txs S ! i)) (tx_locks (txs S ! i))) \<and>
     serial (committed_args jobs S) (abs_ledger d) = Some (abs_ledger (committed S)) \<and>
     map transfer_data (transfers (committed S)) =
       map transfer_data (transfers d) @ committed_args jobs S \<and>
     map entry_data (entries (committed S)) =
       map entry_data (entries d) @ concat (map bookings (committed_args jobs S))"

lemma on_courseI:
  "expects p ts es bs \<Longrightarrow> [arg] = new_transfers written @ ts \<Longrightarrow>
   bookings arg = new_entries written @ es \<Longrightarrow> moves arg = done @ bs \<Longrightarrow>
   posts done L = Some (fold write_ledger written L) \<Longrightarrow> touched written \<subseteq> fst ` set done \<Longrightarrow>
   RowLock ` fst ` set done \<subseteq> H \<Longrightarrow> on_course arg L p written H"
  unfolding on_course_def by blast

lemma on_courseE:
  assumes "on_course arg L p written H"
  obtains ts es "done" bs where "expects p ts es bs" "[arg] = new_transfers written @ ts"
    "bookings arg = new_entries written @ es" "moves arg = done @ bs"
    "posts done L = Some (fold write_ledger written L)" "touched written \<subseteq> fst ` set done"
    "RowLock ` fst ` set done \<subseteq> H"
  using assms unfolding on_course_def by blast

lemma on_course_statement:
  assumes "on_course arg (abs_ledger C) q written H" and "perform q now (view C written) = (p, ws, d)"
  shows "on_course arg (abs_ledger C) p (written @ ws) (if ws = [] then H else H \<union> set_option (wants q))"
proof -
  let ?L = "abs_ledger C"
  from assms(1) obtain ts es "done" bs where T: "expects q ts es bs"
    "[arg] = new_transfers written @ ts" "bookings arg = new_entries written @ es"
    "moves arg = done @ bs" "posts done ?L = Some (fold write_ledger written ?L)"
    "touched written \<subseteq> fst ` set done" "RowLock ` fst ` set done \<subseteq> H"
    by (rule on_courseE)
  obtain ts' es' b bs' where P: "expects p ts' es' bs'" "ts = new_transfers ws @ ts'"
    "es = new_entries ws @ es'" "bs = b @ bs'"
    "posts b (abs_ledger (view C written)) = Some (fold write_ledger ws (abs_ledger (view C written)))"
    "touched ws \<subseteq> fst ` set b" "RowLock ` fst ` set b \<subseteq> (if ws = [] then {} else set_option (wants q))"
    by (rule perform_expects [OF T(1) assms(2)])
  show ?thesis
  proof (rule on_courseI [OF P(1)])
    show "posts (done @ b) ?L = Some (fold write_ledger (written @ ws) ?L)"
      using P(5) T(5) by (simp add: posts_append abs_ledger_view)
    show "touched (written @ ws) \<subseteq> fst ` set (done @ b)" using T(6) P(6) by auto
    show "RowLock ` fst ` set (done @ b) \<subseteq> (if ws = [] then H else H \<union> set_option (wants q))"
      using T(7) P(7) by (cases "ws = []") (simp_all add: image_Un, blast)
  qed (use T P in simp_all)
qed

text \<open>A transaction stays on course when others commit: they have changed other accounts.\<close>

lemma on_course_other:
  assumes "on_course arg L p written H" and "\<And>i. RowLock i \<in> H \<Longrightarrow> L' i = L i"
  shows "on_course arg L' p written H"
proof -
  from assms(1) obtain ts es "done" bs where T: "expects p ts es bs"
    "[arg] = new_transfers written @ ts" "bookings arg = new_entries written @ es"
    "moves arg = done @ bs" "posts done L = Some (fold write_ledger written L)"
    "touched written \<subseteq> fst ` set done" "RowLock ` fst ` set done \<subseteq> H"
    by (rule on_courseE)
  from T(7) assms(2) have same: "\<forall>i \<in> fst ` set done. L' i = L i" by auto
  have "posts done L' = Some (fold write_ledger written L')"
    using posts_local [OF T(5) order_refl same] write_ledger_local [OF T(6) same] by simp
  with T show ?thesis by (intro on_courseI)
qed

text \<open>A transaction that may commit has made all its changes.\<close>

lemma on_course_done:
  assumes "on_course arg L (Return (Inr x)) written H"
  shows "new_transfers written = [arg]" "new_entries written = bookings arg"
    "posts (moves arg) L = Some (fold write_ledger written L)" "RowLock ` touched written \<subseteq> H"
  using assms by (auto simp: on_course_def)

lemma serialized_statement:
  assumes "serialized d jobs S" and i: "i < length (txs S)" "tx_result (txs S ! i) = None"
    and "may_run S i"
  shows "serialized d jobs (run_statement S i)"
proof -
  obtain p ws d' where perf: "perform (tx_prog (txs S ! i)) (tx_now (txs S ! i))
      (view (committed S) (tx_writes (txs S ! i))) = (p, ws, d')"
    by (metis prod_cases3)
  note sel = run_statement_sel [OF perf]
  have "well_locked (run_statement S i)"
    using assms by (auto simp: serialized_def intro: well_locked_statement)
  moreover have "committed_args jobs (run_statement S i) = committed_args jobs S"
    by (simp add: committed_args_def sel)
  moreover have "transfers (committed (run_statement S i)) = transfers (committed S)"
    "entries (committed (run_statement S i)) = entries (committed S)"
    by (simp_all add: sel rollback_to_def)
  moreover have "abs_ledger (committed (run_statement S i)) = abs_ledger (committed S)"
    by (simp add: sel)
  moreover have "on_course (job_transfer (snd (jobs ! k))) (abs_ledger (committed S))
      (tx_prog (txs (run_statement S i) ! k)) (tx_writes (txs (run_statement S i) ! k))
      (tx_locks (txs (run_statement S i) ! k))"
    if "k < length jobs" "tx_result (txs (run_statement S i) ! k) = None" for k
    using that assms(1) i on_course_statement [OF _ perf]
    unfolding serialized_def sel(1) by (cases "k = i") (auto simp: nth_list_update)
  ultimately show ?thesis
    using assms(1) unfolding serialized_def by (simp add: sel(1))
qed

lemma serialized_finish:
  assumes ser: "serialized d jobs S" and i: "i < length (txs S)" "tx_result (txs S ! i) = None"
    and commit: "commit \<Longrightarrow> \<exists>x. tx_prog (txs S ! i) = Return (Inr x)"
  shows "serialized d jobs (finish S i commit r)"
proof (cases commit)
  case False
  with assms show ?thesis
    by (auto simp: serialized_def finish_def Let_def nth_list_update committed_args_def
        dest: well_locked_finish [of _ _ False r])
next
  case True
  let ?T = "txs S ! i" and ?L = "abs_ledger (committed S)"
  let ?M = "fold write_ledger (tx_writes ?T) ?L"
  from commit True obtain x where x: "tx_prog ?T = Return (Inr x)" by blast
  have "on_course (job_transfer (snd (jobs ! i))) ?L (Return (Inr x)) (tx_writes ?T) (tx_locks ?T)"
    using ser i unfolding x [symmetric] by (simp add: serialized_def)
  note fin = on_course_done [OF this]
  have same: "?M j = ?L j" if "k < length (txs S)" "k \<noteq> i" "RowLock j \<in> tx_locks (txs S ! k)" for k j
  proof -
    have "RowLock j \<notin> tx_locks ?T"
      by (rule well_locked_disjoint [OF _ i(1) that]) (use ser in \<open>simp add: serialized_def\<close>)
    with fin(4) have "j \<notin> touched (tx_writes ?T)" by auto
    moreover have "?M = (\<lambda>j. if j \<in> touched (tx_writes ?T) then ?M j else ?L j)"
      by (rule write_ledger_local [OF order_refl]) simp
    from fun_cong [OF this, of j] have "?M j = (if j \<in> touched (tx_writes ?T) then ?M j else ?L j)" .
    ultimately show ?thesis by simp
  qed
  have "on_course (job_transfer (snd (jobs ! k))) ?M (tx_prog (txs S ! k)) (tx_writes (txs S ! k))
      (tx_locks (txs S ! k))"
    if "k < length jobs" "k \<noteq> i" "tx_result (txs S ! k) = None" for k
    by (rule on_course_other [of _ ?L]) (use ser that same in \<open>auto simp: serialized_def\<close>)
  moreover have "well_locked (finish S i True r)"
    using ser i by (simp add: serialized_def well_locked_finish)
  ultimately show ?thesis
    using ser True fin(1,2,3) i
    by (simp add: serialized_def finish_def Let_def nth_list_update committed_args_def
        abs_ledger_view view_rows serial_append)
qed

interpretation serialization: system_invariant "serialized d jobs"
  by unfold_locales (rule serialized_statement serialized_finish; assumption)+

lemma serialized_start: "serialized d jobs (start E d jobs)"
proof -
  have "on_course (job_transfer j) L (job_prog E j) [] {}" for j L
    unfolding on_course_def
    by (rule exI [of _ "[job_transfer j]"], rule exI [of _ "bookings (job_transfer j)"],
        rule exI [of _ "[]"], rule exI [of _ "moves (job_transfer j)"]) (simp add: expects_job)
  then show ?thesis
    using well_locked_start [of E d jobs]
    by (simp add: serialized_def start_def committed_args_def)
qed

text \<open>
  C12: Concurrent transfers are serialisable. Whatever statements of whatever calls have been
  interleaved and whatever connections were lost, the committed tables are those of the
  committed transfers executed one after another, in the order of their commits: their
  balance changes were possible in this order and give the balances, and each has left one
  transfer row and its two entries, in this order. No update is lost or made twice.
\<close>

theorem concurrent_transfers_serial:
  assumes "act\<^sup>*\<^sup>* (start E d jobs) S"
  shows "serial (committed_args jobs S) (abs_ledger d) = Some (abs_ledger (committed S)) \<and>
    map transfer_data (transfers (committed S)) = map transfer_data (transfers d) @ committed_args jobs S \<and>
    map entry_data (entries (committed S)) =
      map entry_data (entries d) @ concat (map bookings (committed_args jobs S))"
  using serialization.reached [OF assms serialized_start] by (simp add: serialized_def)

theorem concurrent_transfers_serial_witness:
  "\<exists>S. act\<^sup>*\<^sup>* (start example_env example_db example_jobs) S \<and> all_ended S \<and>
     serial (committed_args example_jobs S) (abs_ledger example_db) = Some (abs_ledger (committed S))"
proof -
  obtain S where run: "act\<^sup>*\<^sup>* (start example_env example_db example_jobs) S" "all_ended S"
    using complete_run by blast
  with concurrent_transfers_serial [OF run(1)] show ?thesis by blast
qed

end
