(* ===== verification/Retries.thy ===== *)
theory Retries
  imports Serial
begin

text \<open>
  Concurrent retries: any number of calls of \<open>IdempotentTransferTx\<close> with the same key, racing
  each other and other calls. The invariant follows the keys inserted and not yet committed:
  nobody else can insert the same key meanwhile, so at most one of the retries commits.
\<close>

section \<open>Keys\<close>

definition keys :: "database \<Rightarrow> (string \<times> string) set" where
  "keys d = key_of ` set (idempotency_keys d)"

definition new_keys :: "row_write list \<Rightarrow> (string \<times> string) set" where
  "new_keys ws = {key_of k | k. NewKey k \<in> set ws}"

lemma new_keys_simps [simp]: "new_keys [] = {}" "new_keys (ws @ vs) = new_keys ws \<union> new_keys vs"
  "new_keys (w # ws) = (case w of NewKey k \<Rightarrow> {key_of k} | _ \<Rightarrow> {}) \<union> new_keys ws"
  by (auto simp: new_keys_def split: row_write.splits)

lemma key_of_version:
  "map key_of (update_where (\<lambda>r. key_of r = key_of k) (\<lambda>_. k) rows) = map key_of rows"
  by (induction rows) auto

lemma keys_apply_write: "keys (apply_write w d) = keys d \<union> new_keys [w]"
  by (cases w) (auto simp: keys_def apply_write_def key_of_version simp flip: set_map)

lemma keys_view: "keys (view d ws) = keys d \<union> new_keys ws"
  by (induction ws arbitrary: d) (auto simp: view_def keys_apply_write)

lemma keys_rollback_to [simp]: "keys (rollback_to d d') = keys d"
  by (simp add: keys_def rollback_to_def)

text \<open>\<open>claims p pk\<close>: the program \<open>p\<close> cannot succeed without inserting the key \<open>pk\<close>.\<close>

primrec claims :: "'r prog \<Rightarrow> string \<times> string \<Rightarrow> bool" where
  "claims (Return r) pk = (case r of Inl _ \<Rightarrow> True | Inr _ \<Rightarrow> False)"
| "claims (Transfer_stmt arg k) pk = (\<forall>r. claims (k r) pk)"
| "claims (Entry_stmt arg k) pk = (\<forall>r. claims (k r) pk)"
| "claims (Balance_stmt arg k) pk = (\<forall>r. claims (k r) pk)"
| "claims (Claim_stmt arg k) pk =
     (pk = (CreateIdempotencyKeyParams_Owner arg, CreateIdempotencyKeyParams_Key arg) \<and>
      (\<forall>e. claims (k (Inl e)) pk))"
| "claims (Complete_stmt arg k) pk = (\<forall>r. claims (k r) pk)"

lemma claims_job: "job_key j = Some pk \<Longrightarrow> claims (job_prog E j) pk"
  by (auto simp: job_key_def job_prog_def claimAndTransfer_prog_def split: job.splits)

lemma perform_claims:
  assumes "perform q now v = (p, ws, d)" and "claims q pk"
  shows "claims p pk \<or> pk \<in> new_keys ws"
  using assms
  by (cases q) (auto simp: wrote_def sql_CreateIdempotencyKey_def Let_def key_of_def split: prod.splits sum.splits if_splits)

text \<open>A key is inserted only if it is not there, and under its lock.\<close>

lemma new_keys_wrote:
  "new_keys (wrote NewTransfer r) = {}" "new_keys (wrote NewEntry r') = {}"
  "new_keys (wrote AccountVersion a) = {}" "new_keys (wrote KeyVersion k) = {}"
  "new_keys (wrote NewKey k) = key_of ` {x. k = Inr x}"
  by (cases r; cases r'; cases a; cases k; simp add: wrote_def)+

lemma perform_new_key:
  assumes "perform q now v = (p, ws, d)" and "pk \<in> new_keys ws"
  shows "pk \<notin> keys v \<and> wants q = Some (KeyLock (fst pk) (snd pk)) \<and> ws \<noteq> []"
proof (cases q)
  case (Claim_stmt arg k)
  with assms show ?thesis
    by (auto simp: wrote_def sql_CreateIdempotencyKey_def Let_def key_of_def keys_def lookup_None_iff
        image_iff split: prod.splits sum.splits if_splits)
qed (use assms in \<open>auto simp: new_keys_wrote split: prod.splits\<close>)

section \<open>The invariant\<close>

definition committed_keys :: "(time \<times> job) list \<Rightarrow> 'r system \<Rightarrow> (string \<times> string) list" where
  "committed_keys jobs S = List.map_filter (\<lambda>i. job_key (snd (jobs ! i))) (committed_by S)"

definition claim_ok :: "job \<Rightarrow> database \<Rightarrow> 'r prog \<Rightarrow> row_write list \<Rightarrow> lock set \<Rightarrow> bool" where
  "claim_ok j d p written H \<longleftrightarrow>
     (\<forall>pk \<in> new_keys written. pk \<notin> keys d \<and> KeyLock (fst pk) (snd pk) \<in> H) \<and>
     (\<forall>pk. job_key j = Some pk \<longrightarrow> claims p pk \<or> pk \<in> new_keys written)"

definition once :: "database \<Rightarrow> (time \<times> job) list \<Rightarrow> 'r system \<Rightarrow> bool" where
  "once d jobs S \<longleftrightarrow> well_locked S \<and> length (txs S) = length jobs \<and>
     (\<forall>i < length jobs. tx_result (txs S ! i) = None \<longrightarrow>
        claim_ok (snd (jobs ! i)) (committed S) (tx_prog (txs S ! i)) (tx_writes (txs S ! i))
          (tx_locks (txs S ! i))) \<and>
     keys d \<subseteq> keys (committed S) \<and> distinct (committed_keys jobs S) \<and>
     set (committed_keys jobs S) \<subseteq> keys (committed S) - keys d \<and>
     distinct (committed_by S) \<and>
     (\<forall>i \<in> set (committed_by S). i < length jobs \<and> tx_result (txs S ! i) \<noteq> None) \<and>
     (\<forall>i < length jobs. \<forall>x. tx_result (txs S ! i) = Some (Inr x) \<longrightarrow> i \<in> set (committed_by S))"

lemma claim_ok_statement:
  assumes "claim_ok j C q written H" and perf: "perform q now (view C written) = (p, ws, d)"
  shows "claim_ok j C p (written @ ws) (if ws = [] then H else H \<union> set_option (wants q))"
  unfolding claim_ok_def
proof (intro conjI ballI allI impI)
  fix pk assume "pk \<in> new_keys (written @ ws)"
  then consider "pk \<in> new_keys written" | "pk \<in> new_keys ws" by auto
  note new = this
  show "pk \<notin> keys C"
    using new by cases (use assms(1) perform_new_key [OF perf] in \<open>auto simp: claim_ok_def keys_view\<close>)
  show "KeyLock (fst pk) (snd pk) \<in> (if ws = [] then H else H \<union> set_option (wants q))"
    using new by cases (use assms(1) perform_new_key [OF perf] in \<open>auto simp: claim_ok_def\<close>)
next
  fix pk assume "job_key j = Some pk"
  with assms(1) have "claims q pk \<or> pk \<in> new_keys written" by (simp add: claim_ok_def)
  with perform_claims [OF perf, of pk] show "claims p pk \<or> pk \<in> new_keys (written @ ws)" by auto
qed

lemma claim_ok_other:
  assumes "claim_ok j C p written H" and "\<And>pk. pk \<in> K \<Longrightarrow> KeyLock (fst pk) (snd pk) \<notin> H"
    and "keys C' = keys C \<union> K"
  shows "claim_ok j C' p written H"
  using assms by (auto simp: claim_ok_def)

lemma once_statement:
  assumes ok: "once d jobs S" and i: "i < length (txs S)" "tx_result (txs S ! i) = None"
    and "may_run S i"
  shows "once d jobs (run_statement S i)"
proof -
  obtain p ws d' where perf: "perform (tx_prog (txs S ! i)) (tx_now (txs S ! i))
      (view (committed S) (tx_writes (txs S ! i))) = (p, ws, d')"
    by (metis prod_cases3)
  note sel = run_statement_sel [OF perf]
  have "well_locked (run_statement S i)"
    using assms by (auto simp: once_def intro: well_locked_statement)
  moreover have "claim_ok (snd (jobs ! k)) (committed (run_statement S i))
      (tx_prog (txs (run_statement S i) ! k)) (tx_writes (txs (run_statement S i) ! k))
      (tx_locks (txs (run_statement S i) ! k))"
    if "k < length jobs" "tx_result (txs (run_statement S i) ! k) = None" for k
  proof -
    have "claim_ok (snd (jobs ! k)) (committed S) (tx_prog (txs (run_statement S i) ! k))
      (tx_writes (txs (run_statement S i) ! k)) (tx_locks (txs (run_statement S i) ! k))"
      using that ok i claim_ok_statement [OF _ perf]
      unfolding once_def sel(1) by (cases "k = i") (auto simp: nth_list_update)
    then show ?thesis by (simp add: claim_ok_def sel)
  qed
  moreover have "tx_result (txs (run_statement S i) ! k) = tx_result (txs S ! k)" for k
    using i by (cases "k = i") (simp_all add: sel)
  ultimately show ?thesis
    using ok unfolding once_def committed_keys_def by (simp add: sel)
qed

lemma once_finish:
  assumes ok: "once d jobs S" and i: "i < length (txs S)" "tx_result (txs S ! i) = None"
    and commit: "commit \<Longrightarrow> \<exists>x. tx_prog (txs S ! i) = Return (Inr x)" and "\<And>x. r = Inr x \<Longrightarrow> commit"
  shows "once d jobs (finish S i commit r)"
proof -
  let ?T = "txs S ! i"
  define K where "K = (if commit then new_keys (tx_writes ?T) else {})"
  have wl: "well_locked S" and len: "length (txs S) = length jobs" using ok by (simp_all add: once_def)
  have own: "claim_ok (snd (jobs ! i)) (committed S) (tx_prog ?T) (tx_writes ?T) (tx_locks ?T)"
    using ok i by (simp add: once_def)
  have keys: "keys (committed (finish S i commit r)) = keys (committed S) \<union> K"
    by (simp add: finish_def Let_def K_def keys_view)
  have "claim_ok (snd (jobs ! k)) (committed (finish S i commit r)) (tx_prog (txs S ! k))
      (tx_writes (txs S ! k)) (tx_locks (txs S ! k))"
    if "k < length jobs" "k \<noteq> i" "tx_result (txs S ! k) = None" for k
  proof (rule claim_ok_other [OF _ _ keys])
    show "KeyLock (fst pk) (snd pk) \<notin> tx_locks (txs S ! k)" if "pk \<in> K" for pk
      by (rule well_locked_disjoint [OF wl, of _ i])
        (use own that i len \<open>k < length jobs\<close> \<open>k \<noteq> i\<close> in \<open>auto simp: claim_ok_def K_def split: if_splits\<close>)
  qed (use ok that in \<open>simp add: once_def\<close>)
  moreover have new: "pk \<in> K \<and> pk \<notin> keys (committed S)" if "commit" "job_key (snd (jobs ! i)) = Some pk" for pk
    using own commit that by (auto simp: claim_ok_def K_def)
  moreover have "distinct (committed_keys jobs (finish S i commit r)) \<and>
      set (committed_keys jobs (finish S i commit r)) \<subseteq> keys (committed (finish S i commit r)) - keys d"
  proof (cases "commit \<and> job_key (snd (jobs ! i)) \<noteq> None")
    case True
    then obtain pk where pk: "job_key (snd (jobs ! i)) = Some pk" "pk \<in> K" "pk \<notin> keys (committed S)"
      using new by auto
    then have "committed_keys jobs (finish S i commit r) = committed_keys jobs S @ [pk]"
      using True by (simp add: committed_keys_def finish_def Let_def map_filter_def)
    with pk ok show ?thesis by (auto simp: once_def keys)
  next
    case False
    then have "committed_keys jobs (finish S i commit r) = committed_keys jobs S"
      by (auto simp: committed_keys_def finish_def Let_def map_filter_def)
    with ok show ?thesis by (auto simp: once_def keys)
  qed
  moreover have "keys d \<subseteq> keys (committed (finish S i commit r))"
    using ok by (auto simp: once_def keys)
  moreover have "i \<notin> set (committed_by S)" using ok i by (auto simp: once_def)
  moreover have "committed_by (finish S i commit r) = committed_by S @ (if commit then [i] else [])"
    by (simp add: finish_def Let_def)
  ultimately show ?thesis
    using ok i assms(5) wl unfolding once_def
    by (auto simp: nth_list_update well_locked_finish)
qed

interpretation retries: system_invariant "once d jobs"
  by unfold_locales (rule once_statement once_finish; assumption)+

end
