(* ===== verification/Concurrent_Constraints.thy ===== *)
theory Concurrent_Constraints
  imports Retries
begin

text \<open>
  The integrity constraints of the schema under concurrency. A statement is checked against
  what its transaction sees, which is not what will be there when the transaction commits.
  The invariant says of the row versions written and not yet committed why they fit any
  committed tables they may meet: new ids come from the sequences, which are shared and never
  go back; new keys and new versions of accounts are locked; and a version of an account
  changes nothing but its balance.
\<close>

section \<open>Rows written by a transaction\<close>

definition transfer_rows :: "row_write list \<Rightarrow> Transfer list" where
  "transfer_rows ws = concat (map (\<lambda>w. case w of NewTransfer t \<Rightarrow> [t] | _ \<Rightarrow> []) ws)"

definition entry_rows :: "row_write list \<Rightarrow> Entry list" where
  "entry_rows ws = concat (map (\<lambda>w. case w of NewEntry e \<Rightarrow> [e] | _ \<Rightarrow> []) ws)"

definition key_rows :: "row_write list \<Rightarrow> IdempotencyKey list" where
  "key_rows ws = concat (map (\<lambda>w. case w of NewKey k \<Rightarrow> [k] | _ \<Rightarrow> []) ws)"

lemma rows_simps [simp]:
  "transfer_rows [] = []" "transfer_rows (ws @ vs) = transfer_rows ws @ transfer_rows vs"
  "entry_rows [] = []" "entry_rows (ws @ vs) = entry_rows ws @ entry_rows vs"
  "key_rows [] = []" "key_rows (ws @ vs) = key_rows ws @ key_rows vs"
  "transfer_rows (w # ws) = (case w of NewTransfer t \<Rightarrow> [t] | _ \<Rightarrow> []) @ transfer_rows ws"
  "entry_rows (w # ws) = (case w of NewEntry e \<Rightarrow> [e] | _ \<Rightarrow> []) @ entry_rows ws"
  "key_rows (w # ws) = (case w of NewKey k \<Rightarrow> [k] | _ \<Rightarrow> []) @ key_rows ws"
  by (simp_all add: transfer_rows_def entry_rows_def key_rows_def)

lemma view_inserted:
  "transfers (view d ws) = transfers d @ transfer_rows ws"
  "entries (view d ws) = entries d @ entry_rows ws"
  "map key_of (idempotency_keys (view d ws)) = map key_of (idempotency_keys d) @ map key_of (key_rows ws)"
  by (induction ws arbitrary: d)
    (auto simp: view_def apply_write_def key_of_version split: row_write.split)

lemma view_other [simp]:
  "users (view d ws) = users d" "sessions (view d ws) = sessions d"
  "account_seq (view d ws) = account_seq d" "entry_seq (view d ws) = entry_seq d"
  "transfer_seq (view d ws) = transfer_seq d"
  by (induction ws arbitrary: d) (simp_all add: view_def apply_write_def split: row_write.split)

lemma key_rows_new_keys: "key_of ` set (key_rows ws) = new_keys ws"
  by (induction ws) (auto split: row_write.splits)

text \<open>What never changes of an account.\<close>

definition identity :: "Account \<Rightarrow> Account" where
  "identity a = a\<lparr>Account_Balance := 0\<rparr>"

lemma identity_eqD: "identity a = identity b \<Longrightarrow>
    Account_ID a = Account_ID b \<and> Account_Owner a = Account_Owner b \<and> Account_Currency a = Account_Currency b"
  by (cases a; cases b) (simp add: identity_def)

lemma identity_version:
  assumes "distinct (map Account_ID rows)" and "identity a \<in> identity ` set rows"
  shows "map identity (update_where (\<lambda>r. Account_ID r = Account_ID a) (\<lambda>_. a) rows) = map identity rows"
proof -
  from assms(2) obtain b where b: "b \<in> set rows" "identity a = identity b" by auto
  have "identity r = identity a" if "r \<in> set rows" "Account_ID r = Account_ID a" for r
    using that b identity_eqD [OF b(2)] assms(1) by (metis lookup_Some_iff option.inject)
  then show ?thesis by (auto simp: update_where_def)
qed

section \<open>Writes that fit the committed tables\<close>

definition write_ok :: "database \<Rightarrow> row_write \<Rightarrow> bool" where
  "write_ok C w \<longleftrightarrow> (case w of
     NewTransfer t \<Rightarrow> 1 \<le> sint (Transfer_ID t) \<and> sint (Transfer_ID t) \<le> int (transfer_seq C) \<and>
       Transfer_FromAccountID t \<in> account_ids C \<and> Transfer_ToAccountID t \<in> account_ids C
   | NewEntry e \<Rightarrow> 1 \<le> sint (Entry_ID e) \<and> sint (Entry_ID e) \<le> int (entry_seq C) \<and>
       Entry_AccountID e \<in> account_ids C
   | AccountVersion a \<Rightarrow> identity a \<in> identity ` set (accounts C) \<and> 0 \<le> sint (Account_Balance a)
   | _ \<Rightarrow> True)"

definition writes_ok :: "database \<Rightarrow> row_write list \<Rightarrow> bool" where
  "writes_ok C ws \<longleftrightarrow> (\<forall>w \<in> set ws. write_ok C w) \<and>
     distinct (map Transfer_ID (transfers (view C ws))) \<and> distinct (map Entry_ID (entries (view C ws))) \<and>
     distinct (map key_of (idempotency_keys (view C ws)))"

lemma account_ids_identity: "map identity rows = map identity rows' \<Longrightarrow> map Account_ID rows = map Account_ID rows'"
  by (induction rows rows' rule: list_induct2') (auto dest: identity_eqD)

lemma pair_identity: "map identity rows = map identity rows' \<Longrightarrow>
    map (\<lambda>a. (Account_Owner a, Account_Currency a)) rows = map (\<lambda>a. (Account_Owner a, Account_Currency a)) rows'"
  by (induction rows rows' rule: list_induct2') (auto dest: identity_eqD)

lemma view_identity:
  assumes "\<forall>w \<in> set ws. write_ok C w" and "distinct (map Account_ID (accounts C))"
    and "map identity (accounts d) = map identity (accounts C)"
  shows "map identity (accounts (view d ws)) = map identity (accounts C)"
  using assms(1,3)
proof (induction ws arbitrary: d)
  case (Cons w ws)
  have "map identity (accounts (apply_write w d)) = map identity (accounts d)"
  proof (cases w)
    case (AccountVersion a)
    have "distinct (map Account_ID (accounts d))"
      using assms(2) account_ids_identity [OF Cons.prems(2)] by simp
    moreover have "identity a \<in> identity ` set (accounts d)"
      using Cons.prems AccountVersion by (simp add: write_ok_def flip: set_map)
    ultimately show ?thesis using AccountVersion by (simp add: apply_write_def identity_version)
  qed (simp_all add: apply_write_def)
  with Cons show ?case by (simp add: view_def)
qed (simp add: view_def)

lemma view_balances:
  assumes "\<forall>w \<in> set ws. write_ok C w" and "\<forall>a \<in> set (accounts d). 0 \<le> sint (Account_Balance a)"
  shows "\<forall>a \<in> set (accounts (view d ws)). 0 \<le> sint (Account_Balance a)"
  using assms
proof (induction ws arbitrary: d)
  case (Cons w ws)
  have "\<forall>a \<in> set (accounts (apply_write w d)). 0 \<le> sint (Account_Balance a)"
    using Cons.prems by (cases w) (auto simp: apply_write_def set_update_where write_ok_def)
  with Cons show ?case by (simp add: view_def)
qed (simp add: view_def)

lemma account_ids_set: "account_ids d = set (map Account_ID (accounts d))"
  by (simp add: account_ids_def)

lemma usernames_view [simp]: "usernames (view d ws) = usernames d"
  by (simp add: usernames_def)

text \<open>The tables with such writes satisfy the constraints.\<close>

lemma db_ok_view:
  assumes "db_ok C" and "writes_ok C ws"
  shows "db_ok (view C ws)"
proof -
  have ids: "distinct (map Account_ID (accounts C))"
    using assms(1) by (simp add: db_ok_def accounts_ok_def ids_within_def)
  have same: "map identity (accounts (view C ws)) = map identity (accounts C)"
    using assms(2) by (intro view_identity ids) (simp_all add: writes_ok_def)
  note maps = account_ids_identity [OF same] pair_identity [OF same]
  have range: "account_ids (view C ws) = account_ids C" by (simp add: account_ids_set maps)
  have bal: "\<forall>a \<in> set (accounts (view C ws)). 0 \<le> sint (Account_Balance a)"
    using assms by (intro view_balances [of ws C]) (auto simp: writes_ok_def db_ok_def accounts_ok_def)
  have owners: "Account_Owner ` set (accounts (view C ws)) = Account_Owner ` set (accounts C)"
    using arg_cong [OF maps(2), of "\<lambda>l. fst ` set l"] by (simp add: image_image)
  have ids_image: "Account_ID ` set (accounts (view C ws)) = Account_ID ` set (accounts C)"
    using arg_cong [OF maps(1), of set] by simp
  have "\<forall>i \<in> Account_ID ` set (accounts C). 1 \<le> sint i \<and> sint i \<le> int (account_seq C)"
    "\<forall>u \<in> Account_Owner ` set (accounts C). u \<in> usernames C"
    using assms(1) by (auto simp: db_ok_def accounts_ok_def ids_within_def)
  then have "accounts_ok (view C ws)"
    using assms(1) bal maps ids
    unfolding accounts_ok_def ids_within_def db_ok_def ids_image [symmetric] owners [symmetric] by simp
  moreover have "transfers_ok (view C ws)"
  proof -
    have "\<forall>t \<in> set (transfer_rows ws). write_ok C (NewTransfer t)"
      using assms(2) by (auto simp: writes_ok_def transfer_rows_def split: row_write.splits)
    then show ?thesis
      using assms by (auto simp: db_ok_def transfers_ok_def ids_within_def range writes_ok_def view_inserted write_ok_def)
  qed
  moreover have "entries_ok (view C ws)"
  proof -
    have "\<forall>e \<in> set (entry_rows ws). write_ok C (NewEntry e)"
      using assms(2) by (auto simp: writes_ok_def entry_rows_def split: row_write.splits)
    then show ?thesis
      using assms by (auto simp: db_ok_def entries_ok_def ids_within_def range writes_ok_def view_inserted write_ok_def)
  qed
  ultimately show ?thesis
    using assms by (simp add: db_ok_def users_ok_def sessions_ok_def keys_ok_def writes_ok_def)
qed

section \<open>Statements\<close>

text \<open>A write that is new: its id is beyond the sequence, its key is not there.\<close>

definition fresh_write :: "database \<Rightarrow> database \<Rightarrow> row_write \<Rightarrow> bool" where
  "fresh_write C v w \<longleftrightarrow> (case w of
     NewTransfer t \<Rightarrow> int (transfer_seq C) < sint (Transfer_ID t)
   | NewEntry e \<Rightarrow> int (entry_seq C) < sint (Entry_ID e)
   | NewKey k \<Rightarrow> key_of k \<notin> keys v
   | _ \<Rightarrow> True)"

lemma rollback_to_sel [simp]:
  "accounts (rollback_to C d) = accounts C" "transfers (rollback_to C d) = transfers C"
  "entries (rollback_to C d) = entries C" "users (rollback_to C d) = users C"
  "sessions (rollback_to C d) = sessions C" "idempotency_keys (rollback_to C d) = idempotency_keys C"
  "account_seq (rollback_to C d) = account_seq d" "entry_seq (rollback_to C d) = entry_seq d"
  "transfer_seq (rollback_to C d) = transfer_seq d" "account_ids (rollback_to C d) = account_ids C"
  by (simp_all add: rollback_to_def account_ids_def)

lemma perform_written:
  assumes ok: "db_ok C" "writes_ok C ws" and perf: "perform q now (view C ws) = (p, vs, d)"
  shows "seq_le C (rollback_to C d) \<and> length vs \<le> 1 \<and>
    (\<forall>w \<in> set vs. write_ok (rollback_to C d) w \<and> fresh_write C (view C ws) w)"
proof -
  let ?v = "view C ws"
  have v: "db_ok ?v" by (rule db_ok_view [OF ok])
  have ids: "distinct (map Account_ID (accounts C))"
    using ok(1) by (simp add: db_ok_def accounts_ok_def ids_within_def)
  have same: "map identity (accounts ?v) = map identity (accounts C)"
    using ok(2) by (intro view_identity ids) (simp_all add: writes_ok_def)
  have account_ids: "account_ids ?v = account_ids C"
    using account_ids_identity [OF same] by (simp add: account_ids_set)
  have known: "lookup Account_ID i (accounts ?v) \<noteq> None \<longleftrightarrow> i \<in> account_ids C" for i
    unfolding account_ids [symmetric] by (simp add: lookup_None_iff account_ids_def)
  have images: "identity ` set (accounts ?v) = identity ` set (accounts C)"
    using arg_cong [OF same, of set] by simp
  show ?thesis
  proof (cases q)
    case (Transfer_stmt arg k)
    obtain r d' where r: "sql_CreateTransfer arg now ?v = (r, d')" by fastforce
    have "seq_le ?v d'" using insert_seq_le(3) [of ?v arg now] r by simp
    then show ?thesis
      using perf Transfer_stmt r known sql_CreateTransfer_InrD [of arg now ?v]
      by (cases r) (auto simp: wrote_def seq_le_def write_ok_def fresh_write_def dest!: nextval_InrD)
  next
    case (Entry_stmt arg k)
    obtain r d' where r: "sql_CreateEntry arg now ?v = (r, d')" by fastforce
    have "seq_le ?v d'" using insert_seq_le(2) [of ?v arg now] r by simp
    moreover have "CreateEntryParams_AccountID arg \<in> account_ids C" if "r = Inr e" for e
      using r that by (auto simp: sql_CreateEntry_def Let_def known [symmetric] split: sum.splits if_splits)
    ultimately show ?thesis
      using perf Entry_stmt r sql_CreateEntry_InrD [of arg now ?v]
      by (cases r) (auto simp: wrote_def seq_le_def write_ok_def fresh_write_def dest!: nextval_InrD)
  next
    case (Balance_stmt arg k)
    obtain r d' where r: "sql_AddAccountBalance arg now ?v = (r, d')" by fastforce
    have "seq_le ?v d'" using other_seq_le(1) [of ?v arg now] r by simp
    moreover have "identity a \<in> identity ` set (accounts C) \<and> 0 \<le> sint (Account_Balance a)" if a: "r = Inr a" for a
    proof -
      from r a obtain b where "lookup Account_ID (AddAccountBalanceParams_ID arg) (accounts ?v) = Some b"
        "a = add_to_balance (AddAccountBalanceParams_Amount arg) b" "0 \<le> sint (Account_Balance a)"
        by (auto elim: sql_AddAccountBalance_InrD)
      then show ?thesis
        unfolding images [symmetric] by (auto simp: identity_def add_to_balance_def dest!: lookup_SomeD)
    qed
    ultimately show ?thesis
      using perf Balance_stmt r by (cases r) (auto simp: wrote_def seq_le_def write_ok_def fresh_write_def)
  next
    case (Claim_stmt arg k)
    obtain r d' where r: "sql_CreateIdempotencyKey arg now ?v = (r, d')" by fastforce
    then show ?thesis
      using perf Claim_stmt other_seq_le(9) [of ?v arg now]
      by (auto simp: sql_CreateIdempotencyKey_def Let_def wrote_def seq_le_def write_ok_def fresh_write_def
          keys_def lookup_None_iff split: if_splits)
  next
    case (Complete_stmt arg k)
    obtain r d' where r: "sql_CompleteIdempotencyKey arg now ?v = (r, d')" by fastforce
    then show ?thesis
      using perf Complete_stmt other_seq_le(10) [of ?v arg now]
      by (cases r) (auto simp: wrote_def seq_le_def write_ok_def fresh_write_def)
  qed (use perf in \<open>auto simp: seq_le_def\<close>)
qed

lemma write_ok_mono:
  "write_ok C w \<Longrightarrow> seq_le C C' \<Longrightarrow> identity ` set (accounts C') = identity ` set (accounts C) \<Longrightarrow>
   account_ids C' = account_ids C \<Longrightarrow> write_ok C' w"
  by (cases w) (auto simp: write_ok_def seq_le_def)

lemma rows_rollback_to [simp]:
  "transfers (view (rollback_to C d) ws) = transfers (view C ws)"
  "entries (view (rollback_to C d) ws) = entries (view C ws)"
  "map key_of (idempotency_keys (view (rollback_to C d) ws)) = map key_of (idempotency_keys (view C ws))"
  by (simp_all add: view_inserted)

text \<open>Writes stay good while the sequences advance, and with a fresh write added.\<close>

lemma writes_ok_advance:
  "writes_ok C ws \<Longrightarrow> seq_le C (rollback_to C d) \<Longrightarrow> writes_ok (rollback_to C d) ws"
  by (auto simp: writes_ok_def intro: write_ok_mono)

lemma writes_ok_fresh:
  assumes ok: "db_ok C" "writes_ok C ws" and w: "write_ok C' w" "fresh_write C (view C ws) w"
    and C': "C' = rollback_to C d" "seq_le C C'"
  shows "writes_ok C' (ws @ [w])"
proof -
  have "db_ok (view C ws)" by (rule db_ok_view [OF ok])
  then have new_id: "int (transfer_seq C) < sint i \<Longrightarrow> i \<notin> Transfer_ID ` set (transfers (view C ws))"
    "int (entry_seq C) < sint i \<Longrightarrow> i \<notin> Entry_ID ` set (entries (view C ws))" for i
    by (auto simp: db_ok_def transfers_ok_def entries_ok_def ids_within_def)
  have "writes_ok C' ws" using writes_ok_advance [OF ok(2)] C' by simp
  moreover have "transfers (view C (ws @ [w])) = transfers (view C ws) @ transfer_rows [w]"
    "entries (view C (ws @ [w])) = entries (view C ws) @ entry_rows [w]"
    "map key_of (idempotency_keys (view C (ws @ [w]))) =
       map key_of (idempotency_keys (view C ws)) @ map key_of (key_rows [w])"
    by (simp_all add: view_inserted)
  ultimately show ?thesis
    using w new_id unfolding writes_ok_def C'(1) rows_rollback_to
    by (cases w) (auto simp: fresh_write_def keys_def)
qed

lemma writes_ok_statement:
  assumes "db_ok C" "writes_ok C ws" "perform q now (view C ws) = (p, vs, d)"
  shows "writes_ok (rollback_to C d) (ws @ vs)"
proof -
  note w = perform_written [OF assms]
  then consider "vs = []" | v where "vs = [v]" by (cases vs) auto
  then show ?thesis
  proof cases
    case 1
    with w show ?thesis by (simp add: writes_ok_advance [OF assms(2)])
  next
    case 2
    with w show ?thesis by (simp add: writes_ok_fresh [OF assms(1,2)])
  qed
qed

section \<open>Commits of others\<close>

definition new_ids :: "row_write list \<Rightarrow> (int64 + int64) set" where
  "new_ids ws = Inl ` Transfer_ID ` set (transfer_rows ws) \<union> Inr ` Entry_ID ` set (entry_rows ws)"

lemma new_ids_simps [simp]: "new_ids [] = {}" "new_ids (ws @ vs) = new_ids ws \<union> new_ids vs"
  by (auto simp: new_ids_def)

lemma view_commit:
  assumes "db_ok C" "writes_ok C ws"
  shows "identity ` set (accounts (view C ws)) = identity ` set (accounts C)"
    and "account_ids (view C ws) = account_ids C"
proof -
  have same: "map identity (accounts (view C ws)) = map identity (accounts C)"
    using assms by (intro view_identity) (simp_all add: writes_ok_def db_ok_def accounts_ok_def ids_within_def)
  from arg_cong [OF this, of set] show "identity ` set (accounts (view C ws)) = identity ` set (accounts C)"
    by simp
  show "account_ids (view C ws) = account_ids C"
    using account_ids_identity [OF same] by (simp add: account_ids_set)
qed

lemma writes_ok_other:
  assumes "db_ok C" and own: "writes_ok C ws" and other: "writes_ok C vs"
    and disjoint: "new_ids ws \<inter> new_ids vs = {}" "new_keys ws \<inter> new_keys vs = {}"
  shows "writes_ok (view C vs) ws"
proof -
  have "write_ok (view C vs) w" if "w \<in> set ws" for w
    using own that write_ok_mono [of C w "view C vs"] view_commit [OF assms(1) other]
    by (simp add: writes_ok_def seq_le_def)
  moreover have ids: "Transfer_ID ` set (transfer_rows ws) \<inter> Transfer_ID ` set (transfer_rows vs) = {}"
    "Entry_ID ` set (entry_rows ws) \<inter> Entry_ID ` set (entry_rows vs) = {}"
    using disjoint(1) unfolding new_ids_def by fast+
  then have "distinct (map Transfer_ID (transfers (view (view C vs) ws)))"
    "distinct (map Entry_ID (entries (view (view C vs) ws)))"
    using own other ids by (auto simp: writes_ok_def view_inserted)
  moreover have "distinct (map key_of (idempotency_keys (view (view C vs) ws)))"
    using own other disjoint(2) unfolding writes_ok_def view_inserted
    by (auto simp: key_rows_new_keys)
  ultimately show ?thesis by (simp add: writes_ok_def)
qed

section \<open>The invariant\<close>

definition constrained :: "'r system \<Rightarrow> bool" where
  "constrained S \<longleftrightarrow> well_locked S \<and> db_ok (committed S) \<and>
     (\<forall>i < length (txs S). writes_ok (committed S) (tx_writes (txs S ! i)) \<and>
        (\<forall>pk \<in> new_keys (tx_writes (txs S ! i)). KeyLock (fst pk) (snd pk) \<in> tx_locks (txs S ! i))) \<and>
     (\<forall>i < length (txs S). \<forall>j < length (txs S). i \<noteq> j \<longrightarrow>
        new_ids (tx_writes (txs S ! i)) \<inter> new_ids (tx_writes (txs S ! j)) = {})"

lemma constrainedD:
  assumes "constrained S" and "i < length (txs S)"
  shows "well_locked S" "db_ok (committed S)" "writes_ok (committed S) (tx_writes (txs S ! i))"
    "pk \<in> new_keys (tx_writes (txs S ! i)) \<Longrightarrow> KeyLock (fst pk) (snd pk) \<in> tx_locks (txs S ! i)"
    "j < length (txs S) \<Longrightarrow> j \<noteq> i \<Longrightarrow> new_ids (tx_writes (txs S ! j)) \<inter> new_ids (tx_writes (txs S ! i)) = {}"
  using assms unfolding constrained_def by blast+

text \<open>Ids that are in use are not beyond the sequences.\<close>

lemma new_ids_within:
  "writes_ok C ws \<Longrightarrow> x \<in> new_ids ws \<Longrightarrow>
   (case x of Inl i \<Rightarrow> sint i \<le> int (transfer_seq C) | Inr i \<Rightarrow> sint i \<le> int (entry_seq C))"
  by (auto simp: new_ids_def writes_ok_def write_ok_def transfer_rows_def entry_rows_def
      split: row_write.splits)

lemma new_ids_beyond:
  "\<forall>w \<in> set vs. fresh_write C v w \<Longrightarrow> x \<in> new_ids vs \<Longrightarrow>
   (case x of Inl i \<Rightarrow> int (transfer_seq C) < sint i | Inr i \<Rightarrow> int (entry_seq C) < sint i)"
  by (auto simp: new_ids_def fresh_write_def transfer_rows_def entry_rows_def split: row_write.splits)

lemma constrained_statement:
  assumes c: "constrained S" and i: "i < length (txs S)" "tx_result (txs S ! i) = None" and "may_run S i"
  shows "constrained (run_statement S i)"
proof -
  let ?C = "committed S" and ?T = "txs S ! i"
  obtain p vs d where perf: "perform (tx_prog ?T) (tx_now ?T) (view ?C (tx_writes ?T)) = (p, vs, d)"
    by (metis prod_cases3)
  note sel = run_statement_sel [OF perf] and D = constrainedD [OF c]
  let ?C' = "rollback_to ?C d"
  note own = perform_written [OF D(2) [OF i(1)] D(3) [OF i(1)] perf]
  have seq: "seq_le ?C ?C'" using own by simp
  have "db_ok ?C'"
    using D(2) [OF i(1)] seq
    by (auto simp: db_ok_def users_ok_def accounts_ok_def entries_ok_def transfers_ok_def sessions_ok_def
        keys_ok_def usernames_def seq_le_def intro: ids_within_mono)
  moreover have "writes_ok ?C' (tx_writes ?T @ vs)"
    by (rule writes_ok_statement [OF D(2,3) [OF i(1)] perf])
  moreover have "writes_ok ?C' (tx_writes (txs S ! j))" if "j < length (txs S)" for j
    by (rule writes_ok_advance [OF D(3) [OF that] seq])
  moreover have "new_ids vs \<inter> new_ids (tx_writes (txs S ! j)) = {}" if "j < length (txs S)" for j
  proof (rule ccontr)
    assume "\<not> ?thesis"
    then obtain x where "x \<in> new_ids vs" "x \<in> new_ids (tx_writes (txs S ! j))" by blast
    with new_ids_within [OF D(3) [OF that], of x] new_ids_beyond [of vs ?C "view ?C (tx_writes ?T)" x] own
    show False by (auto split: sum.splits)
  qed
  moreover have "KeyLock (fst pk) (snd pk) \<in> set_option (wants (tx_prog ?T)) \<and> vs \<noteq> []" if "pk \<in> new_keys vs" for pk
    using perform_new_key [OF perf that] by simp
  moreover have "well_locked (run_statement S i)"
    using assms D(1) [OF i(1)] by (intro well_locked_statement)
  ultimately show ?thesis
    using c i(1) unfolding constrained_def sel
    by (auto simp: nth_list_update Int_Un_distrib Int_Un_distrib2 Int_commute)
qed

lemma constrained_finish:
  assumes c: "constrained S" and i: "i < length (txs S)"
  shows "constrained (finish S i commit r)"
proof -
  let ?C = "committed S" and ?T = "txs S ! i"
  note D = constrainedD [OF c]
  have keys: "new_keys (tx_writes (txs S ! j)) \<inter> new_keys (tx_writes ?T) = {}"
    if "j < length (txs S)" "j \<noteq> i" for j
    using well_locked_disjoint [OF D(1) [OF i] i that] D(4) [OF that(1)] D(4) [OF i] by blast
  have "writes_ok (view ?C (tx_writes ?T)) (tx_writes (txs S ! j))" if "j < length (txs S)" "j \<noteq> i" for j
    by (rule writes_ok_other [OF D(2) [OF i] D(3) [OF that(1)] D(3) [OF i] D(5) [OF i that] keys [OF that]])
  moreover have "db_ok (view ?C (tx_writes ?T))" by (rule db_ok_view [OF D(2,3) [OF i]])
  moreover have "writes_ok C []" if "db_ok C" for C
    using that by (simp add: writes_ok_def view_def db_ok_def transfers_ok_def entries_ok_def keys_ok_def ids_within_def)
  moreover have "committed (finish S i commit r) = (if commit then view ?C (tx_writes ?T) else ?C)"
    by (simp add: finish_def Let_def)
  moreover have "well_locked (finish S i commit r)" using D(1) [OF i] i by (rule well_locked_finish)
  ultimately show ?thesis
    using c i unfolding constrained_def by (auto simp: nth_list_update)
qed

interpretation constraints: system_invariant constrained
  by unfold_locales (rule constrained_statement constrained_finish; assumption)+

section \<open>Accounts keep their identity\<close>

lemma lookup_identity:
  "map identity rows = map identity rows' \<Longrightarrow>
   map_option identity (lookup Account_ID i rows) = map_option identity (lookup Account_ID i rows')"
  by (induction rows rows' rule: list_induct2') (auto dest: identity_eqD)

lemma identity_act:
  assumes "act S S'" and "constrained S"
  shows "map identity (accounts (committed S')) = map identity (accounts (committed S))"
  using assms(1)
proof (cases rule: act_cases)
  case (statement i)
  obtain p vs d where perf: "perform (tx_prog (txs S ! i)) (tx_now (txs S ! i))
      (view (committed S) (tx_writes (txs S ! i))) = (p, vs, d)"
    by (metis prod_cases3)
  show ?thesis unfolding statement(5) run_statement_sel [OF perf] by (simp add: rollback_to_def)
next
  case (finish i commit r)
  have "distinct (map Account_ID (accounts (committed S)))"
    using constrainedD(2) [OF assms(2) finish(1)] by (simp add: db_ok_def accounts_ok_def ids_within_def)
  with constrainedD(3) [OF assms(2) finish(1)] show ?thesis
    unfolding finish(3) committed_finish by (auto simp: writes_ok_def intro!: view_identity)
qed

section \<open>The total\<close>

lemma total_by_id:
  assumes "db_ok d"
  shows "total_balance d = (\<Sum>i \<in> account_ids d. the (abs_ledger d i))"
proof -
  have ids: "distinct (map Account_ID (accounts d))"
    using assms by (simp add: db_ok_def accounts_ok_def ids_within_def)
  then have "lookup Account_ID (Account_ID a) (accounts d) = Some a" if "a \<in> set (accounts d)" for a
    using that lookup_Some_iff [of Account_ID "accounts d"] by blast
  then have "(\<Sum>i \<in> account_ids d. the (abs_ledger d i)) = (\<Sum>a \<in> set (accounts d). sint (Account_Balance a))"
    unfolding account_ids_def using ids by (subst sum.reindex) (auto simp: distinct_map abs_ledger_def)
  then show ?thesis
    using ids by (simp add: total_balance_def distinct_map sum_list_distinct_conv_sum_set)
qed

lemma dom_abs_ledger: "dom (abs_ledger c) = account_ids c"
  by (auto simp: abs_ledger_def account_ids_def lookup_None_iff dom_def)

end
