(* ===== verification/Key_Rows.thy ===== *)
theory Key_Rows
  imports Concurrent_Constraints
begin

text \<open>
  The rows of \<open>idempotency_keys\<close> in concurrent runs, the comment of \<open>IdempotentTransferTx\<close>: a
  row is only ever seen with the answer of the transfer it stands for, since the claim and its
  completion commit together; it never changes afterwards; and a call that finds its key taken
  finds that row.
\<close>

section \<open>Key rows of a transaction\<close>

text \<open>What the handler takes for a taken key: any violation of a unique constraint.\<close>

definition unique_error :: "error \<Rightarrow> bool" where
  "unique_error e \<longleftrightarrow> (case e of PqError name constraint \<Rightarrow> name = ''unique_violation'' | _ \<Rightarrow> False)"

lemma unique_error_simps [simp]:
  "unique_error (PqError name constraint) \<longleftrightarrow> name = ''unique_violation''" "\<not> unique_error ErrNoRows" "\<not> unique_error (TxErr e1 e2)"
  "\<not> unique_error (OtherErr m)"
  by (simp_all add: unique_error_def)

definition written_keys :: "row_write list \<Rightarrow> (string \<times> string) set" where
  "written_keys ws = {key_of k | k. NewKey k \<in> set ws \<or> KeyVersion k \<in> set ws}"

lemma written_keys_simps [simp]:
  "written_keys [] = {}" "written_keys (ws @ vs) = written_keys ws \<union> written_keys vs"
  "written_keys (w # ws) = (case w of NewKey k \<Rightarrow> {key_of k} | KeyVersion k \<Rightarrow> {key_of k} | _ \<Rightarrow> {}) \<union> written_keys ws"
  by (auto simp: written_keys_def split: row_write.splits)

text \<open>Keys that are not written keep their row.\<close>

lemma lookup_view_unwritten:
  "pk \<notin> written_keys ws \<Longrightarrow>
   lookup key_of pk (idempotency_keys (view d ws)) = lookup key_of pk (idempotency_keys d)"
proof (induction ws arbitrary: d)
  case (Cons w ws)
  have "lookup key_of pk (idempotency_keys (apply_write w d)) = lookup key_of pk (idempotency_keys d)"
    using Cons.prems
    by (cases w) (auto simp: apply_write_def lookup_append lookup_version split: option.splits)
  with Cons show ?case by (simp add: view_def)
qed (simp add: view_def)

text \<open>The row of a key that was not there depends on the writes only.\<close>

lemma lookup_view_new:
  "lookup key_of pk (idempotency_keys d) = lookup key_of pk (idempotency_keys d') \<Longrightarrow>
   lookup key_of pk (idempotency_keys (view d ws)) = lookup key_of pk (idempotency_keys (view d' ws))"
proof (induction ws arbitrary: d d')
  case (Cons w ws)
  have "lookup key_of pk (idempotency_keys (apply_write w d)) = lookup key_of pk (idempotency_keys (apply_write w d'))"
    by (cases w) (simp_all add: apply_write_def lookup_append lookup_version Cons.prems, metis Cons.prems)
  from Cons.IH [OF this] show ?case by (simp add: view_def)
qed (simp add: view_def)

section \<open>What a program does with its key\<close>

text \<open>
  The key of a call, with the fingerprint it stores: none for a call of \<open>TransferTx\<close>. A
  transaction has not claimed it yet, has found it taken, or has claimed it and sees its row.
\<close>

definition job_claim :: "job \<Rightarrow> ((string \<times> string) \<times> string) option" where
  "job_claim j = (case j of Plain _ \<Rightarrow> None
     | Keyed arg \<Rightarrow> Some ((IdempotentTransferTxParams_Owner arg, IdempotentTransferTxParams_Key arg),
         IdempotentTransferTxParams_RequestHash arg))"

text \<open>What is documented of \<open>json.Marshal\<close>: its text is not empty, its errors are not the database's.\<close>

definition json_documented :: "env \<Rightarrow> bool" where
  "json_documented E \<longleftrightarrow> (\<forall>x. case json_Marshal E x of
     Inl e \<Rightarrow> (\<forall>name c. e \<noteq> PqError name c) | Inr body \<Rightarrow> body \<noteq> '''')"

lemma json_documentedD:
  assumes "json_documented E"
  shows "json_Marshal E x \<noteq> Inl (PqError name c)" "json_Marshal E x \<noteq> Inr ''''"
  using assms by (auto simp: json_documented_def split: sum.splits dest: spec [of _ x])

datatype claim_state = Unclaimed | Taken | Claimed IdempotencyKey

primrec seals ::
    "env \<Rightarrow> ((string \<times> string) \<times> string) option \<Rightarrow> TransferTxResult prog \<Rightarrow> claim_state \<Rightarrow> bool" where
  "seals E c (Return r) st = (case r of
      Inl e \<Rightarrow> unique_error e \<longrightarrow> st = Taken
    | Inr x \<Rightarrow> (case c of None \<Rightarrow> True | Some (pk, hash) \<Rightarrow> (\<exists>row. st = Claimed row \<and>
         IdempotencyKey_RequestHash row = hash \<and> json_Marshal E x = Inr (IdempotencyKey_ResponseBody row))))"
| "seals E c (Transfer_stmt arg k) st =
     ((\<forall>x. seals E c (k (Inr x)) st) \<and> (\<forall>e. \<not> unique_error e \<longrightarrow> seals E c (k (Inl e)) st))"
| "seals E c (Entry_stmt arg k) st =
     ((\<forall>x. seals E c (k (Inr x)) st) \<and> (\<forall>e. \<not> unique_error e \<longrightarrow> seals E c (k (Inl e)) st))"
| "seals E c (Balance_stmt arg k) st =
     ((\<forall>x. seals E c (k (Inr x)) st) \<and> (\<forall>e. \<not> unique_error e \<longrightarrow> seals E c (k (Inl e)) st))"
| "seals E c (Claim_stmt arg k) st = (st = Unclaimed \<and> (\<exists>pk hash. c = Some (pk, hash) \<and>
      pk = (CreateIdempotencyKeyParams_Owner arg, CreateIdempotencyKeyParams_Key arg) \<and>
      (\<forall>row. key_of row = pk \<and> IdempotencyKey_RequestHash row = hash \<longrightarrow> seals E c (k (Inr row)) (Claimed row)) \<and>
      hash = CreateIdempotencyKeyParams_RequestHash arg \<and>
      (\<forall>e. unique_error e \<longrightarrow> seals E c (k (Inl e)) Taken) \<and> (\<forall>e. \<not> unique_error e \<longrightarrow> seals E c (k (Inl e)) st)))"
| "seals E c (Complete_stmt arg k) st = (\<exists>pk hash row. c = Some (pk, hash) \<and> st = Claimed row \<and>
      pk = (CompleteIdempotencyKeyParams_Owner arg, CompleteIdempotencyKeyParams_Key arg) \<and>
      (let row' = row\<lparr>IdempotencyKey_ResponseBody := CompleteIdempotencyKeyParams_ResponseBody arg\<rparr> in
       seals E c (k (Inr row')) (Claimed row')) \<and>
      (\<forall>e. \<not> unique_error e \<longrightarrow> seals E c (k (Inl e)) st))"

lemma not_unique_json: "json_documented E \<Longrightarrow> json_Marshal E x = Inl e \<Longrightarrow> \<not> unique_error e"
  using json_documentedD(1) [of E x] by (auto simp: unique_error_def split: error.splits)

lemma seals_transferTx:
  assumes "\<And>x. seals E c (f x) st"
  shows "seals E c (try_prog (transferTx_prog arg) f) st"
  using assms by (simp add: transferTx_prog_def addMoney_prog_def Let_def)

lemma seals_job:
  assumes "json_documented E"
  shows "seals E (job_claim j) (job_prog E j) Unclaimed"
proof (cases j)
  case (Plain arg)
  then show ?thesis
    using seals_transferTx [of E None "\<lambda>x. Return (Inr x)" Unclaimed arg]
    by (simp add: job_prog_def job_claim_def)
next
  case (Keyed arg)
  then show ?thesis
    by (auto simp: job_prog_def job_claim_def claimAndTransfer_prog_def Let_def not_unique_json [OF assms] split: sum.split
        intro!: seals_transferTx)
qed

section \<open>Statements\<close>

definition claim_rel ::
    "database \<Rightarrow> ((string \<times> string) \<times> string) option \<Rightarrow> row_write list \<Rightarrow> claim_state \<Rightarrow> bool" where
  "claim_rel C c ws st \<longleftrightarrow> (case st of
     Unclaimed \<Rightarrow> written_keys ws = {}
   | Taken \<Rightarrow> written_keys ws = {} \<and> (\<exists>pk hash. c = Some (pk, hash) \<and> pk \<in> keys C)
   | Claimed row \<Rightarrow> (\<exists>pk hash. c = Some (pk, hash) \<and> written_keys ws = {pk} \<and> pk \<in> new_keys ws \<and>
       key_of row = pk \<and> lookup key_of pk (idempotency_keys (view C ws)) = Some row))"

lemma claim_rel_unwritten:
  assumes "claim_rel C c ws st" and "written_keys vs = {}" "idempotency_keys C' = idempotency_keys C"
  shows "claim_rel C' c (ws @ vs) st"
proof -
  have "new_keys vs = {}" using assms(2) by (auto simp: new_keys_def written_keys_def)
  moreover have "lookup key_of pk (idempotency_keys (view C' (ws @ vs))) = lookup key_of pk (idempotency_keys (view C ws))" for pk
    using lookup_view_unwritten [of pk vs "view C' ws"] lookup_view_new [of pk C' C ws] assms(2,3)
    by (simp add: view_def)
  ultimately show ?thesis
    using assms by (auto simp: claim_rel_def keys_def split: claim_state.splits)
qed

text \<open>The statements of a transfer fail without a unique violation: their ids are new.\<close>

lemma transfer_errors:
  assumes "db_ok v"
  shows "fst (sql_CreateTransfer ct now v) = Inl e \<Longrightarrow> \<not> unique_error e"
    and "fst (sql_CreateEntry ce now v) = Inl e \<Longrightarrow> \<not> unique_error e"
    and "fst (sql_AddAccountBalance aa now v) = Inl e \<Longrightarrow> \<not> unique_error e"
    and "fst (sql_CompleteIdempotencyKey ci now v) = Inl e \<Longrightarrow> \<not> unique_error e"
proof -
  have ids: "nextval (transfer_seq v) = Inr (i, s) \<Longrightarrow> lookup Transfer_ID i (transfers v) = None"
    "nextval (entry_seq v) = Inr (i, s) \<Longrightarrow> lookup Entry_ID i (entries v) = None" for i s
    using assms by (auto simp: db_ok_def transfers_ok_def entries_ok_def intro: ids_within_fresh)
  show "fst (sql_CreateTransfer ct now v) = Inl e \<Longrightarrow> \<not> unique_error e"
    using ids(1) by (auto simp: sql_CreateTransfer_def nextval_def Let_def split: if_splits)
  show "fst (sql_CreateEntry ce now v) = Inl e \<Longrightarrow> \<not> unique_error e"
    using ids(2) by (auto simp: sql_CreateEntry_def nextval_def Let_def split: if_splits)
qed (auto simp: sql_AddAccountBalance_def sql_CompleteIdempotencyKey_def Let_def
    split: option.splits if_splits)

lemma key_of_new: "key_of \<lparr>IdempotencyKey_Owner = w, IdempotencyKey_Key = k, IdempotencyKey_RequestHash = h,
    IdempotencyKey_ResponseBody = b, IdempotencyKey_CreatedAt = t\<rparr> = (w, k)"
  by (simp add: key_of_def)

lemma perform_seals:
  assumes seals: "seals E c q st" and rel: "claim_rel C c ws st" and ok: "db_ok (view C ws)"
    and perf: "perform q now (view C ws) = (p, vs, d)"
  shows "\<exists>st'. seals E c p st' \<and> claim_rel (rollback_to C d) c (ws @ vs) st'"
proof -
  let ?v = "view C ws" and ?C' = "rollback_to C d"
  note errors = transfer_errors [OF ok]
  have same: ?thesis if "seals E c p st" "written_keys vs = {}"
    using that claim_rel_unwritten [OF rel, of vs ?C'] by auto
  show ?thesis
  proof (cases q)
    case (Claim_stmt arg k)
    obtain r d' where r: "sql_CreateIdempotencyKey arg now ?v = (r, d')" by fastforce
    from seals Claim_stmt obtain pk hash where st: "st = Unclaimed" and c: "c = Some (pk, hash)"
      "pk = (CreateIdempotencyKeyParams_Owner arg, CreateIdempotencyKeyParams_Key arg)"
      "hash = CreateIdempotencyKeyParams_RequestHash arg"
      and next_ok: "\<And>row. key_of row = pk \<Longrightarrow> IdempotencyKey_RequestHash row = hash \<Longrightarrow> seals E c (k (Inr row)) (Claimed row)"
      "\<And>e. unique_error e \<Longrightarrow> seals E c (k (Inl e)) Taken"
      by auto
    have none: "written_keys ws = {}" using rel st by (simp add: claim_rel_def)
    have old: "lookup key_of pk (idempotency_keys ?v) = lookup key_of pk (idempotency_keys C)"
      using none by (intro lookup_view_unwritten) simp
    show ?thesis
    proof (cases r)
      case (Inl e)
      with r have "unique_error e" "lookup key_of pk (idempotency_keys ?v) \<noteq> None"
        unfolding c(2) by (auto simp: sql_CreateIdempotencyKey_def Let_def key_of_new split: if_splits)
      then have "unique_error e" "pk \<in> keys C" using old by (simp_all add: keys_def lookup_None_iff)
      moreover from Inl perf Claim_stmt r have "p = k (Inl e)" "vs = []" by (auto simp: wrote_def)
      ultimately show ?thesis
        using next_ok(2) c none by (intro exI [of _ Taken]) (auto simp: claim_rel_def)
    next
      case (Inr row)
      with r c have row: "key_of row = pk" "IdempotencyKey_RequestHash row = hash"
        "lookup key_of pk (idempotency_keys ?v) = None"
        by (auto simp: sql_CreateIdempotencyKey_def Let_def key_of_def split: if_splits)
      from Inr perf Claim_stmt r have p: "p = k (Inr row)" "vs = [NewKey row]" by (auto simp: wrote_def)
      have "lookup key_of pk (idempotency_keys (view ?C' (ws @ vs))) = Some row"
        using row old lookup_view_new [of pk ?C' C ws]
        by (simp add: p view_def apply_write_def lookup_append)
      with row p c none show ?thesis using next_ok(1) [OF row(1,2)] by (auto simp: claim_rel_def)
    qed
  next
    case (Complete_stmt arg k)
    obtain r d' where r: "sql_CompleteIdempotencyKey arg now ?v = (r, d')" by fastforce
    from seals Complete_stmt obtain pk hash row where st: "st = Claimed row" and c: "c = Some (pk, hash)"
      "pk = (CompleteIdempotencyKeyParams_Owner arg, CompleteIdempotencyKeyParams_Key arg)"
      and next_ok: "seals E c (k (Inr (row\<lparr>IdempotencyKey_ResponseBody := CompleteIdempotencyKeyParams_ResponseBody arg\<rparr>)))
        (Claimed (row\<lparr>IdempotencyKey_ResponseBody := CompleteIdempotencyKeyParams_ResponseBody arg\<rparr>))"
      by (auto simp: Let_def)
    let ?row = "row\<lparr>IdempotencyKey_ResponseBody := CompleteIdempotencyKeyParams_ResponseBody arg\<rparr>"
    from rel st c have R: "written_keys ws = {pk}" "pk \<in> new_keys ws" "key_of row = pk"
      "lookup key_of pk (idempotency_keys ?v) = Some row"
      by (auto simp: claim_rel_def)
    have "p = k (Inr ?row)" "vs = [KeyVersion ?row]"
      using r R(4) perf Complete_stmt c(2) by (auto simp: sql_CompleteIdempotencyKey_def Let_def wrote_def)
    moreover have "key_of ?row = pk" using R(3) by (simp add: key_of_def)
    moreover from this have "lookup key_of pk (idempotency_keys (view ?C' (ws @ [KeyVersion ?row]))) = Some ?row"
      using R(4) lookup_view_new [of pk ?C' C ws]
        lookup_version [of key_of pk ?row "idempotency_keys (view ?C' ws)"]
      by (simp add: view_def apply_write_def)
    ultimately show ?thesis
      using next_ok R c by (intro exI [of _ "Claimed ?row"]) (simp add: claim_rel_def)
  next
    case (Transfer_stmt arg k)
    then show ?thesis
      using perf seals errors(1) [of arg now]
      by (intro same) (auto simp: wrote_def split: prod.splits sum.splits)
  next
    case (Entry_stmt arg k)
    then show ?thesis
      using perf seals errors(2) [of arg now]
      by (intro same) (auto simp: wrote_def split: prod.splits sum.splits)
  next
    case (Balance_stmt arg k)
    then show ?thesis
      using perf seals errors(3) [of arg now]
      by (intro same) (auto simp: wrote_def split: prod.splits sum.splits)
  next
    case (Return x)
    then have "p = q" "vs = []" using perf by auto
    then show ?thesis using seals by (intro same) simp_all
  qed
qed

section \<open>The invariant\<close>

text \<open>The answer of a call that returned a result is in the row of its key.\<close>

definition answer_stored :: "env \<Rightarrow> database \<Rightarrow> job \<Rightarrow> TransferTxResult \<Rightarrow> bool" where
  "answer_stored E C j x \<longleftrightarrow> (case job_claim j of None \<Rightarrow> True | Some (pk, hash) \<Rightarrow>
     (\<exists>row. lookup key_of pk (idempotency_keys C) = Some row \<and> IdempotencyKey_RequestHash row = hash \<and>
        json_Marshal E x = Inr (IdempotencyKey_ResponseBody row)))"

definition key_found :: "database \<Rightarrow> job \<Rightarrow> bool" where
  "key_found C j \<longleftrightarrow> (\<exists>pk hash. job_claim j = Some (pk, hash) \<and> pk \<in> keys C)"

text \<open>A row with an answer, and the rows a later state has kept.\<close>

definition rows_kept :: "database \<Rightarrow> database \<Rightarrow> bool" where
  "rows_kept C C' \<longleftrightarrow> (\<forall>pk row. lookup key_of pk (idempotency_keys C) = Some row \<longrightarrow>
     lookup key_of pk (idempotency_keys C') = Some row)"

definition rows_complete :: "database \<Rightarrow> bool" where
  "rows_complete C \<longleftrightarrow> (\<forall>pk row. lookup key_of pk (idempotency_keys C) = Some row \<longrightarrow>
     IdempotencyKey_ResponseBody row \<noteq> '''')"

lemma rows_kept_keys: "rows_kept C C' \<Longrightarrow> pk \<in> keys C \<Longrightarrow> pk \<in> keys C'"
  unfolding rows_kept_def keys_def using lookup_None_iff [of key_of pk] by (metis option.exhaust)

lemma rows_kept_stored: "rows_kept C C' \<Longrightarrow> answer_stored E C j x \<Longrightarrow> answer_stored E C' j x"
  by (auto simp: rows_kept_def answer_stored_def split: option.splits)

definition sealed :: "env \<Rightarrow> (time \<times> job) list \<Rightarrow> TransferTxResult system \<Rightarrow> bool" where
  "sealed E jobs S \<longleftrightarrow> constrained S \<and> length (txs S) = length jobs \<and> rows_complete (committed S) \<and>
     (\<forall>i < length jobs. let T = txs S ! i; j = snd (jobs ! i) in
        (tx_result T = None \<longrightarrow> new_keys (tx_writes T) \<inter> keys (committed S) = {} \<and>
           (\<exists>st. seals E (job_claim j) (tx_prog T) st \<and>
                 claim_rel (committed S) (job_claim j) (tx_writes T) st)) \<and>
        (\<forall>x. tx_result T = Some (Inr x) \<longrightarrow> answer_stored E (committed S) j x) \<and>
        (\<forall>e. tx_result T = Some (Inl e) \<longrightarrow> unique_error e \<longrightarrow> key_found (committed S) j))"

lemma sealed_statement:
  assumes ok: "sealed E jobs S" and i: "i < length (txs S)" "tx_result (txs S ! i) = None"
    and "may_run S i"
  shows "sealed E jobs (run_statement S i)"
proof -
  let ?C = "committed S" and ?T = "txs S ! i"
  obtain p vs d where perf: "perform (tx_prog ?T) (tx_now ?T) (view ?C (tx_writes ?T)) = (p, vs, d)"
    by (metis prod_cases3)
  note sel = run_statement_sel [OF perf]
  let ?C' = "rollback_to ?C d"
  have c: "constrained S" and len: "length (txs S) = length jobs" using ok by (simp_all add: sealed_def)
  have db: "db_ok (view ?C (tx_writes ?T))" by (rule db_ok_view [OF constrainedD(2,3) [OF c i(1)]])
  obtain st where st: "seals E (job_claim (snd (jobs ! i))) (tx_prog ?T) st"
    "claim_rel ?C (job_claim (snd (jobs ! i))) (tx_writes ?T) st"
    using ok i len by (auto simp: sealed_def Let_def)
  have "\<exists>st'. seals E (job_claim (snd (jobs ! i))) p st' \<and>
      claim_rel ?C' (job_claim (snd (jobs ! i))) (tx_writes ?T @ vs) st'"
    by (rule perform_seals [OF st db perf])
  moreover have "new_keys (tx_writes ?T @ vs) \<inter> keys ?C = {}"
    using ok i len perform_new_key [OF perf] by (fastforce simp: sealed_def Let_def keys_view)
  moreover have "claim_rel ?C' c ws st' \<longleftrightarrow> claim_rel ?C c ws st'" for c ws st'
    using lookup_view_new [of _ ?C' ?C ws]
    by (auto simp: claim_rel_def keys_def split: claim_state.splits)
  moreover have "answer_stored E ?C' j x \<longleftrightarrow> answer_stored E ?C j x" "key_found ?C' j \<longleftrightarrow> key_found ?C j"
    "rows_complete ?C' \<longleftrightarrow> rows_complete ?C" for j x
    by (simp_all add: answer_stored_def key_found_def rows_complete_def split: option.split)
  moreover have "constrained (run_statement S i)" using c i assms(4) by (rule constrained_statement)
  ultimately show ?thesis
    using ok i len unfolding sealed_def sel by (auto simp: nth_list_update Let_def)
qed

text \<open>A commit adds the row of the key, complete, and leaves the others.\<close>

lemma commit_rows:
  assumes "claim_rel C c ws st" and "new_keys ws \<inter> keys C = {}"
  shows "rows_kept C (view C ws)"
proof -
  have "written_keys ws \<inter> keys C = {}"
    using assms by (auto simp: claim_rel_def split: claim_state.splits)
  then have "pk \<notin> written_keys ws" if "lookup key_of pk (idempotency_keys C) = Some row" for pk row
    using that lookup_SomeD [OF that] by (auto simp: keys_def)
  then show ?thesis by (simp add: rows_kept_def lookup_view_unwritten)
qed

lemma claim_rel_kept:
  assumes "claim_rel C c ws st" and "rows_kept C C'"
    and "\<And>pk. pk \<in> new_keys ws \<Longrightarrow> lookup key_of pk (idempotency_keys C') = lookup key_of pk (idempotency_keys C)"
  shows "claim_rel C' c ws st"
  using assms(1) rows_kept_keys [OF assms(2)] lookup_view_new [OF assms(3), of _ ws]
  by (auto simp: claim_rel_def split: claim_state.splits)

text \<open>The rows after a transaction has committed.\<close>

lemma sealedD:
  assumes "sealed E jobs S" and "i < length (txs S)"
  shows "constrained S" "i < length jobs" "rows_complete (committed S)"
    "tx_result (txs S ! i) = None \<Longrightarrow> new_keys (tx_writes (txs S ! i)) \<inter> keys (committed S) = {}"
    "tx_result (txs S ! i) = None \<Longrightarrow> \<exists>st. seals E (job_claim (snd (jobs ! i))) (tx_prog (txs S ! i)) st \<and>
       claim_rel (committed S) (job_claim (snd (jobs ! i))) (tx_writes (txs S ! i)) st"
    "tx_result (txs S ! i) = Some (Inr x) \<Longrightarrow> answer_stored E (committed S) (snd (jobs ! i)) x"
    "tx_result (txs S ! i) = Some (Inl e) \<Longrightarrow> unique_error e \<Longrightarrow> key_found (committed S) (snd (jobs ! i))"
  using assms by (simp_all add: sealed_def Let_def)

lemma finish_rows:
  assumes ok: "sealed E jobs S" and i: "i < length (txs S)" "tx_result (txs S ! i) = None"
    and "commit \<Longrightarrow> \<exists>x. tx_prog (txs S ! i) = Return (Inr x)" and json: "json_documented E"
  shows "rows_kept (committed S) (committed (finish S i commit r)) \<and>
    rows_complete (committed (finish S i commit r)) \<and>
    (commit \<longrightarrow> tx_prog (txs S ! i) = Return (Inr x) \<longrightarrow>
       answer_stored E (committed (finish S i commit r)) (snd (jobs ! i)) x)"
proof (cases commit)
  case False
  with sealedD(3) [OF ok i(1)] show ?thesis by (simp add: committed_finish rows_kept_def)
next
  case True
  let ?C = "committed S" and ?T = "txs S ! i" and ?j = "snd (jobs ! i)"
  note D = sealedD [OF ok i(1)]
  obtain st where st: "seals E (job_claim ?j) (tx_prog ?T) st" "claim_rel ?C (job_claim ?j) (tx_writes ?T) st"
    using D(5) [OF i(2)] by blast
  obtain y where y: "tx_prog ?T = Return (Inr y)" using assms(4) True by blast
  have kept: "rows_kept ?C (view ?C (tx_writes ?T))" by (rule commit_rows [OF st(2) D(4) [OF i(2)]])
  have stored: "answer_stored E (view ?C (tx_writes ?T)) ?j y"
    using st unfolding y by (auto simp: answer_stored_def claim_rel_def split: option.splits)
  have "IdempotencyKey_ResponseBody row \<noteq> ''''"
    if row: "lookup key_of pk (idempotency_keys (view ?C (tx_writes ?T))) = Some row" for pk row
  proof (cases "pk \<in> written_keys (tx_writes ?T)")
    case True
    with st y row have "json_Marshal E y = Inr (IdempotencyKey_ResponseBody row)"
      by (auto simp: claim_rel_def split: claim_state.splits)
    with json_documentedD(2) [OF json, of y] show ?thesis by auto
  next
    case False
    with row D(3) show ?thesis unfolding rows_complete_def by (metis lookup_view_unwritten)
  qed
  with True kept stored y show ?thesis by (auto simp: committed_finish rows_complete_def)
qed

lemma sealed_finish:
  assumes ok: "sealed E jobs S" and i: "i < length (txs S)" "tx_result (txs S ! i) = None"
    and commit: "commit \<Longrightarrow> \<exists>x. tx_prog (txs S ! i) = Return (Inr x)" and json: "json_documented E"
    and r: "\<And>x. r = Inr x \<Longrightarrow> commit \<and> tx_prog (txs S ! i) = Return (Inr x)"
      "\<And>e. r = Inl e \<Longrightarrow> unique_error e \<Longrightarrow> tx_prog (txs S ! i) = Return (Inl e)"
  shows "sealed E jobs (finish S i commit r)"
proof -
  let ?C = "committed S" and ?T = "txs S ! i" and ?C' = "committed (finish S i commit r)"
  note D = sealedD [OF ok]
  have rows: "rows_kept ?C ?C'" "rows_complete ?C'"
    "\<And>x. commit \<Longrightarrow> tx_prog ?T = Return (Inr x) \<Longrightarrow> answer_stored E ?C' (snd (jobs ! i)) x"
    using finish_rows [OF ok i commit json] by blast+
  have own_found: "key_found ?C (snd (jobs ! i))" if "tx_prog ?T = Return (Inl e)" "unique_error e" for e
    using D(5) [OF i] that by (auto simp: claim_rel_def key_found_def)
  have found: "key_found ?C' j" if "key_found ?C j" for j
    using that rows_kept_keys [OF rows(1)] by (auto simp: key_found_def)
  have disjoint: "new_keys (tx_writes (txs S ! k)) \<inter> new_keys (tx_writes ?T) = {}"
    if "k < length (txs S)" "k \<noteq> i" for k
    using well_locked_disjoint [OF constrainedD(1) [OF D(1) [OF i(1)] i(1)] i(1) that]
      constrainedD(4) [OF D(1) [OF i(1)]] that(1) i(1) by blast
  have other: "new_keys (tx_writes (txs S ! k)) \<inter> keys ?C' = {} \<and>
      (\<exists>st. seals E (job_claim (snd (jobs ! k))) (tx_prog (txs S ! k)) st \<and>
        claim_rel ?C' (job_claim (snd (jobs ! k))) (tx_writes (txs S ! k)) st)"
    if k: "k < length (txs S)" "k \<noteq> i" "tx_result (txs S ! k) = None" for k
  proof -
    have new: "new_keys (tx_writes (txs S ! k)) \<inter> keys ?C' = {}"
      using D(4) [OF k(1,3)] disjoint [OF k(1,2)] by (auto simp: committed_finish keys_view)
    obtain st where st: "seals E (job_claim (snd (jobs ! k))) (tx_prog (txs S ! k)) st"
      "claim_rel ?C (job_claim (snd (jobs ! k))) (tx_writes (txs S ! k)) st"
      using D(5) [OF k(1,3)] by blast
    have "lookup key_of pk (idempotency_keys ?C') = lookup key_of pk (idempotency_keys ?C)"
      if "pk \<in> new_keys (tx_writes (txs S ! k))" for pk
      using that new D(4) [OF k(1,3)] lookup_None_iff [of key_of pk] by (metis disjoint_iff keys_def)
    with st new show ?thesis using claim_rel_kept [OF st(2) rows(1)] by blast
  qed
  have "constrained (finish S i commit r)" using D(1) [OF i(1)] i(1) by (rule constrained_finish)
  moreover have "length (txs S) = length jobs" using ok by (simp add: sealed_def)
  moreover have "answer_stored E ?C' (snd (jobs ! k)) x"
    if "k < length jobs" "tx_result (txs S ! k) = Some (Inr x)" for k x
    using that D(6) [of k x] rows_kept_stored [OF rows(1)] ok by (simp add: sealed_def)
  moreover have "key_found ?C' (snd (jobs ! k))"
    if "k < length jobs" "tx_result (txs S ! k) = Some (Inl e)" "unique_error e" for k e
    using that D(7) [of k e] found ok by (simp add: sealed_def)
  ultimately show ?thesis
    using rows(2,3) other r own_found found i unfolding sealed_def Let_def
    by (auto simp: nth_list_update)
qed

lemma sealed_act:
  assumes "act S S'" and "sealed E jobs S" and "json_documented E"
  shows "sealed E jobs S' \<and> rows_kept (committed S) (committed S')"
proof -
  from assms(1) obtain i where "tx_step i S S' \<or> tx_fault i S S'" by (auto simp: act_def tx_act_def)
  then show ?thesis
  proof
    assume "tx_step i S S'"
    then show ?thesis
    proof cases
      case statement
      obtain p vs d where perf: "perform (tx_prog (txs S ! i)) (tx_now (txs S ! i))
          (view (committed S) (tx_writes (txs S ! i))) = (p, vs, d)"
        by (metis prod_cases3)
      with statement assms(2) show ?thesis
        by (simp add: sealed_statement run_statement_sel [OF perf] rows_kept_def)
    qed (use assms(2,3) in \<open>auto intro!: sealed_finish simp: finish_rows\<close>)
  next
    assume "tx_fault i S S'"
    then show ?thesis by cases (use assms(2,3) in \<open>auto intro!: sealed_finish simp: finish_rows\<close>)
  qed
qed

lemma example_documented [simp]: "json_documented example_env" "rows_complete example_db"
  by (simp_all add: json_documented_def rows_complete_def)

end
