(* ===== verification/Transfer_Script.thy ===== *)
theory Transfer_Script
  imports Key_Rows Api_Transfer
begin

text \<open>
  The handler of \<open>POST /transfers\<close> as a process that pauses at each of its calls of the store,
  so that several requests can be interleaved (Interleaving does that). \<open>exec_script\<close> runs a
  process without interruption: it is then the handler of Api_Transfer.
\<close>

section \<open>Scripts\<close>

text \<open>
  A handler has answered, or is about to read a row, or to run a transaction of the store, and
  continues with the result.
\<close>

datatype script =
    Answer response
  | Read_account int64 "error + Account \<Rightarrow> script"
  | Read_key "string \<times> string" "error + IdempotencyKey \<Rightarrow> script"
  | Store_call job "error + TransferTxResult \<Rightarrow> script"

definition error_response :: "nat \<Rightarrow> error \<Rightarrow> response" where
  "error_response code err = \<lparr>status = code, replay_header = False, resp_body = ErrorBody err\<rparr>"

lemma status_error_response [simp]: "status (error_response code err) = code"
  by (simp add: error_response_def)

definition validAccount_script :: "int64 \<Rightarrow> string \<Rightarrow> (Account \<Rightarrow> script) \<Rightarrow> script" where
  "validAccount_script accountID currency k = Read_account accountID (\<lambda>a. case a of
       Inl err \<Rightarrow>
         if err = ErrNoRows then Answer (error_response StatusNotFound err)
         else Answer (error_response StatusInternalServerError err)
     | Inr account \<Rightarrow>
         if Account_Currency account \<noteq> currency then
           Answer (error_response StatusBadRequest
             (Errorf (''account '' @ show_int64 (Account_ID account) @ '' currency mismatch: '' @
                Account_Currency account @ '' vs '' @ currency)))
         else k account)"

definition replay_answer :: "string \<Rightarrow> IdempotencyKey \<Rightarrow> response" where
  "replay_answer fingerprint stored =
     (if IdempotencyKey_RequestHash stored \<noteq> fingerprint then
        error_response StatusConflict
          (Errorf ''Idempotency-Key was already used for a different transfer'')
      else if IdempotencyKey_ResponseBody stored = '''' then
        error_response StatusConflict (Errorf ''Idempotency-Key is still being processed'')
      else \<lparr>status = StatusOK, replay_header = True,
             resp_body = DataBody (IdempotencyKey_ResponseBody stored)\<rparr>)"

definition replay_script :: "string \<Rightarrow> string \<Rightarrow> string \<Rightarrow> script" where
  "replay_script owner key fingerprint = Read_key (owner, key) (\<lambda>s. case s of
       Inl err \<Rightarrow> Answer (error_response StatusInternalServerError err)
     | Inr stored \<Rightarrow> Answer (replay_answer fingerprint stored))"

definition after_keyed :: "transferRequest \<Rightarrow> string \<Rightarrow> string \<Rightarrow> string \<Rightarrow> error + TransferTxResult \<Rightarrow> script" where
  "after_keyed req owner key fingerprint r = (case r of
       Inr result \<Rightarrow> Answer \<lparr>status = StatusOK, replay_header = False, resp_body = TransferBody result\<rparr>
     | Inl err \<Rightarrow>
         (case err of
            PqError name constraint \<Rightarrow>
              if name = ''unique_violation'' then replay_script owner key fingerprint
              else if constraint = ''accounts_balance_non_negative'' then
                Answer (error_response StatusBadRequest
                  (insufficient_balance (transferRequest_FromAccountID req)))
              else Answer (error_response StatusInternalServerError err)
          | _ \<Rightarrow> Answer (error_response StatusInternalServerError err)))"

definition createTransferIdempotent_script ::
    "env \<Rightarrow> transferRequest \<Rightarrow> TransferTxParams \<Rightarrow> string \<Rightarrow> string \<Rightarrow> script" where
  "createTransferIdempotent_script E req arg owner key =
     (if length key > maxIdempotencyKeyLen then
        Answer (error_response StatusBadRequest (Errorf (''Idempotency-Key must be at most '' @
          show_nat maxIdempotencyKeyLen @ '' characters'')))
      else
        let fingerprint = requestFingerprint E req in
        Store_call (Keyed
            \<lparr>IdempotentTransferTxParams_TransferTxParams = arg,
             IdempotentTransferTxParams_Owner = owner,
             IdempotentTransferTxParams_Key = key,
             IdempotentTransferTxParams_RequestHash = fingerprint\<rparr>)
          (after_keyed req owner key fingerprint))"

definition after_plain :: "transferRequest \<Rightarrow> error + TransferTxResult \<Rightarrow> script" where
  "after_plain req r = (case r of
       Inr result \<Rightarrow> Answer \<lparr>status = StatusOK, replay_header = False, resp_body = TransferBody result\<rparr>
     | Inl err \<Rightarrow>
         (case err of
            PqError _ constraint \<Rightarrow>
              if constraint = ''accounts_balance_non_negative'' then
                Answer (error_response StatusBadRequest
                  (insufficient_balance (transferRequest_FromAccountID req)))
              else Answer (error_response StatusInternalServerError err)
          | _ \<Rightarrow> Answer (error_response StatusInternalServerError err)))"

definition createTransfer_script :: "env \<Rightarrow> Payload \<Rightarrow> string \<Rightarrow> transferRequest option \<Rightarrow> script" where
  "createTransfer_script E authPayload key body =
     (case ShouldBind transferRequest_valid body of
        Inl err \<Rightarrow> Answer (error_response StatusBadRequest err)
      | Inr req \<Rightarrow>
          if transferRequest_FromAccountID req = transferRequest_ToAccountID req then
            Answer (error_response StatusBadRequest
              (Errorf (''from_account_id '' @ show_int64 (transferRequest_FromAccountID req) @
                 '' is the same as to_account_id '' @ show_int64 (transferRequest_ToAccountID req))))
          else
            validAccount_script (transferRequest_FromAccountID req) (transferRequest_Currency req)
              (\<lambda>fromAccount.
                if Account_Owner fromAccount \<noteq> Payload_Username authPayload then
                  Answer (error_response StatusUnauthorized
                    (Errorf (''from_account '' @ show_int64 (transferRequest_FromAccountID req) @
                       '' doesn't belong to the authenticated user '' @ Payload_Username authPayload)))
                else
                  validAccount_script (transferRequest_ToAccountID req) (transferRequest_Currency req) (\<lambda>_.
                    let arg = \<lparr>TransferTxParams_FromAccountID = transferRequest_FromAccountID req,
                               TransferTxParams_ToAccountID = transferRequest_ToAccountID req,
                               TransferTxParams_Amount = transferRequest_Amount req\<rparr> in
                    if key \<noteq> '''' then
                      createTransferIdempotent_script E req arg (Payload_Username authPayload) key
                    else Store_call (Plain arg) (after_plain req))))"

section \<open>Uninterrupted execution\<close>

definition store_call :: "env \<Rightarrow> job \<Rightarrow> TransferTxResult db_op" where
  "store_call E j = (case j of Plain arg \<Rightarrow> TransferTx E arg | Keyed arg \<Rightarrow> IdempotentTransferTx E arg)"

primrec exec_script :: "env \<Rightarrow> script \<Rightarrow> response op" where
  "exec_script E (Answer rsp) = ret rsp"
| "exec_script E (Read_account i k) = GetAccount E i \<bind> (\<lambda>r. exec_script E (k r))"
| "exec_script E (Read_key pk k) = GetIdempotencyKey E pk \<bind> (\<lambda>r. exec_script E (k r))"
| "exec_script E (Store_call j k) = store_call E j \<bind> (\<lambda>r. exec_script E (k r))"

lemma bind_eqI: "(\<And>x. f x = g x) \<Longrightarrow> m \<bind> f = (m \<bind> g :: ('w, 'b) state)"
  by (rule arg_cong [where f = "State_Monad.bind m"]) (rule ext)

lemma errorJSON_response: "errorJSON code err = ret (error_response code err)"
  by (simp add: errorJSON_def JSON_def error_response_def)

lemma exec_validAccount:
  "exec_script E (validAccount_script i cur k) =
     validAccount E i cur \<bind> (\<lambda>f. case f of Inl rsp \<Rightarrow> ret rsp | Inr a \<Rightarrow> exec_script E (k a))"
  by (auto simp: validAccount_script_def validAccount_def errorJSON_response intro!: bind_eqI
      split: sum.split)

lemma exec_replay: "exec_script E (replay_script owner key fp) = replayIdempotentTransfer E owner key fp"
  by (auto simp: replay_script_def replayIdempotentTransfer_def errorJSON_response replay_answer_def
      intro!: bind_eqI split: sum.split)

lemma exec_keyed: "exec_script E (createTransferIdempotent_script E req arg owner key) =
    createTransferIdempotent E req arg owner key"
  by (auto simp: createTransferIdempotent_script_def createTransferIdempotent_def Let_def errorJSON_response
      store_call_def after_keyed_def JSON_def exec_replay
      intro!: bind_eqI split: sum.split error.split)

lemma exec_createTransfer:
  "exec_script E (createTransfer_script E p key body) = createTransfer E p key body"
  by (auto simp: createTransfer_script_def createTransfer_def errorJSON_response exec_validAccount exec_keyed
      Let_def store_call_def after_plain_def JSON_def
      intro!: bind_eqI split: sum.split error.split)

section \<open>Answers\<close>

text \<open>The bytes of a successful answer: those of the result, or those that were stored.\<close>

definition content :: "env \<Rightarrow> response \<Rightarrow> error + string" where
  "content E rsp = (case resp_body rsp of
       TransferBody x \<Rightarrow> json_Marshal E x
     | DataBody bytes \<Rightarrow> Inr bytes
     | _ \<Rightarrow> Inl (OtherErr ''no transfer''))"

end
