(* ===== verification/Handler_Proc.thy ===== *)
theory Handler_Proc
  imports Api_Contract Transfer_Script
begin

text \<open>
  Every handler of both servers as a process that pauses at each call it makes, of the store, the
  token maker, bcrypt or the clock, so that any requests can be interleaved (Interleaving does that).
  A call of a transaction of the store is kept apart, since others interleave with its statements.
  \<open>exec_proc\<close> runs a process without interruption: it is then the handler.
\<close>

section \<open>Processes\<close>

text \<open>
  A process has ended, or is about to make a call that reads or writes the world at once, or to
  run a transaction and continue with its result.
\<close>

datatype 'r proc =
    Done 'r
  | Call "world \<Rightarrow> 'r proc \<times> world"
  | Transact job "error + TransferTxResult \<Rightarrow> 'r proc"

definition calling :: "'a op \<Rightarrow> ('a \<Rightarrow> 'r proc) \<Rightarrow> 'r proc" where
  "calling m k = Call (\<lambda>w. case run m w of (x, w') \<Rightarrow> (k x, w'))"

primrec exec_proc :: "env \<Rightarrow> 'r proc \<Rightarrow> 'r op" where
  "exec_proc E (Done r) = ret r"
| "exec_proc E (Call f) = State (\<lambda>w. case map_prod (exec_proc E) id (f w) of (m, w') \<Rightarrow> run m w')"
| "exec_proc E (Transact j k) = store_call E j \<bind> (\<lambda>r. exec_proc E (k r))"

lemma exec_calling [simp]: "exec_proc E (calling m k) = m \<bind> (\<lambda>x. exec_proc E (k x))"
  by (rule state.expand, rule ext) (simp add: calling_def split: prod.split)

lemma exec_map_proc: "exec_proc E (map_proc f p) = exec_proc E p \<bind> (\<lambda>x. ret (f x))"
proof (induction p)
  case (Call g)
  have "exec_proc E (map_proc f (fst (g w))) = exec_proc E (fst (g w)) \<bind> (\<lambda>x. ret (f x))" for w
    by (rule Call [of "g w" "fst (g w)"]) (auto intro: fsts.intros)
  then show ?case
    by (intro state.expand ext) (simp add: case_prod_beta)
next
  case (Transact j k)
  then show ?case by (auto simp: comp_def intro!: bind_eqI)
qed (rule state.expand, rule ext, simp)

definition reply_error :: "nat \<Rightarrow> error \<Rightarrow> response proc" where
  "reply_error code err = Done (error_response code err)"

definition reply :: "nat \<Rightarrow> body \<Rightarrow> response proc" where
  "reply code b = Done \<lparr>status = code, replay_header = False, resp_body = b\<rparr>"

lemma exec_reply [simp]: "exec_proc E (reply code b) = JSON code b" "exec_proc E (reply_error code err) = errorJSON code err"
  by (simp_all add: reply_def reply_error_def JSON_def errorJSON_response)

section \<open>The Gin handlers\<close>

definition createUser_proc :: "env \<Rightarrow> createUserRequest option \<Rightarrow> response proc" where
  "createUser_proc E body =
     (case ShouldBind (createUserRequest_valid E) body of
        Inl err \<Rightarrow> reply_error StatusBadRequest err
      | Inr req \<Rightarrow> calling (HashPassword E (createUserRequest_Password req)) (\<lambda>h. case h of
          Inl err \<Rightarrow> reply_error StatusInternalServerError err
        | Inr hashedPassword \<Rightarrow> calling (CreateUser E
              \<lparr>CreateUserParams_Username = createUserRequest_Username req,
               CreateUserParams_HashedPassword = hashedPassword,
               CreateUserParams_FullName = createUserRequest_FullName req,
               CreateUserParams_Email = createUserRequest_Email req\<rparr>) (\<lambda>u. case u of
            Inl err \<Rightarrow>
              (case err of
                 PqError name _ \<Rightarrow>
                   if name = ''unique_violation'' then reply_error StatusForbidden err
                   else reply_error StatusInternalServerError err
               | _ \<Rightarrow> reply_error StatusInternalServerError err)
          | Inr user \<Rightarrow> reply StatusOK (UserBody (newUserResponse user)))))"

definition loginUser_proc ::
    "env \<Rightarrow> Server \<Rightarrow> string \<Rightarrow> string \<Rightarrow> loginUserRequest option \<Rightarrow> response proc" where
  "loginUser_proc E server userAgent clientIP body =
     (case ShouldBind loginUserRequest_valid body of
        Inl err \<Rightarrow> reply_error StatusBadRequest err
      | Inr req \<Rightarrow> calling (GetUser E (loginUserRequest_Username req)) (\<lambda>u. case u of
          Inl err \<Rightarrow>
            if err = ErrNoRows then reply_error StatusNotFound err
            else reply_error StatusInternalServerError err
        | Inr user \<Rightarrow>
            (case CheckPassword E (loginUserRequest_Password req) (User_HashedPassword user) of
               Some err \<Rightarrow> reply_error StatusUnauthorized err
             | None \<Rightarrow> calling (CreateToken (Server_tokenMaker server) (User_Username user)
                   (Config_AccessTokenDuration (Server_config server))) (\<lambda>a. case a of
                 Inl err \<Rightarrow> reply_error StatusInternalServerError err
               | Inr (accessToken, accessPayload) \<Rightarrow>
                   calling (CreateToken (Server_tokenMaker server) (User_Username user)
                     (Config_RefreshTokenDuration (Server_config server))) (\<lambda>f. case f of
                   Inl err \<Rightarrow> reply_error StatusInternalServerError err
                 | Inr (refreshToken, refreshPayload) \<Rightarrow> calling (CreateSession E
                       \<lparr>CreateSessionParams_ID = Payload_ID refreshPayload,
                        CreateSessionParams_Username = User_Username user,
                        CreateSessionParams_RefreshToken = refreshToken,
                        CreateSessionParams_UserAgent = userAgent,
                        CreateSessionParams_ClientIp = clientIP,
                        CreateSessionParams_IsBlocked = False,
                        CreateSessionParams_ExpiresAt = Payload_ExpiredAt refreshPayload\<rparr>) (\<lambda>s. case s of
                       Inl err \<Rightarrow> reply_error StatusInternalServerError err
                     | Inr session \<Rightarrow> reply StatusOK (LoginBody
                         \<lparr>loginUserResponse_SessionID = Session_ID session,
                          loginUserResponse_AccessToken = accessToken,
                          loginUserResponse_AccessTokenExpiresAt = Payload_ExpiredAt accessPayload,
                          loginUserResponse_RefreshToken = refreshToken,
                          loginUserResponse_RefreshTokenExpiresAt = Payload_ExpiredAt refreshPayload,
                          loginUserResponse_User = newUserResponse user\<rparr>)))))))"

definition renewAccessToken_proc :: "env \<Rightarrow> Server \<Rightarrow> renewAccessTokenRequest option \<Rightarrow> response proc" where
  "renewAccessToken_proc E server body =
     (case ShouldBind renewAccessTokenRequest_valid body of
        Inl err \<Rightarrow> reply_error StatusBadRequest err
      | Inr req \<Rightarrow> calling (VerifyToken (Server_tokenMaker server) (renewAccessTokenRequest_RefreshToken req)) (\<lambda>v.
          case v of
            Inl err \<Rightarrow> reply_error StatusUnauthorized err
          | Inr refreshPayload \<Rightarrow> calling (GetSession E (Payload_ID refreshPayload)) (\<lambda>s. case s of
              Inl err \<Rightarrow>
                if err = ErrNoRows then reply_error StatusNotFound err
                else reply_error StatusInternalServerError err
            | Inr session \<Rightarrow>
                if Session_IsBlocked session then
                  reply_error StatusUnauthorized (Errorf ''blocked session'')
                else if Session_Username session \<noteq> Payload_Username refreshPayload then
                  reply_error StatusUnauthorized (Errorf ''incorrect session user'')
                else if Session_RefreshToken session \<noteq> renewAccessTokenRequest_RefreshToken req then
                  reply_error StatusUnauthorized (Errorf ''mismatched session token'')
                else calling (time_Now E) (\<lambda>now.
                  if Session_ExpiresAt session < now then
                    reply_error StatusUnauthorized (Errorf ''expired session'')
                  else calling (CreateToken (Server_tokenMaker server) (Payload_Username refreshPayload)
                      (Config_AccessTokenDuration (Server_config server))) (\<lambda>a. case a of
                    Inl err \<Rightarrow> reply_error StatusInternalServerError err
                  | Inr (accessToken, accessPayload) \<Rightarrow>
                      reply StatusOK (RenewBody
                        \<lparr>renewAccessTokenResponse_AccessToken = accessToken,
                         renewAccessTokenResponse_AccessTokenExpiresAt = Payload_ExpiredAt accessPayload\<rparr>))))))"

definition createAccount_proc :: "env \<Rightarrow> Payload \<Rightarrow> createAccountRequest option \<Rightarrow> response proc" where
  "createAccount_proc E authPayload body =
     (case ShouldBind createAccountRequest_valid body of
        Inl err \<Rightarrow> reply_error StatusBadRequest err
      | Inr req \<Rightarrow> calling (CreateAccount E
            \<lparr>CreateAccountParams_Owner = Payload_Username authPayload,
             CreateAccountParams_Balance = 0,
             CreateAccountParams_Currency = createAccountRequest_Currency req\<rparr>) (\<lambda>a. case a of
          Inl err \<Rightarrow>
            (case err of
               PqError name _ \<Rightarrow>
                 if name \<in> {''foreign_key_violation'', ''unique_violation''} then
                   reply_error StatusForbidden err
                 else reply_error StatusInternalServerError err
             | _ \<Rightarrow> reply_error StatusInternalServerError err)
        | Inr account \<Rightarrow> reply StatusOK (AccountBody account)))"

definition getAccount_proc :: "env \<Rightarrow> Payload \<Rightarrow> getAccountRequest option \<Rightarrow> response proc" where
  "getAccount_proc E authPayload uri =
     (case ShouldBind getAccountRequest_valid uri of
        Inl err \<Rightarrow> reply_error StatusBadRequest err
      | Inr req \<Rightarrow> calling (GetAccount E (getAccountRequest_ID req)) (\<lambda>a. case a of
          Inl err \<Rightarrow>
            if err = ErrNoRows then reply_error StatusNotFound err
            else reply_error StatusInternalServerError err
        | Inr account \<Rightarrow>
            if Account_Owner account \<noteq> Payload_Username authPayload then
              reply_error StatusUnauthorized
                (Errorf ''account doesn't belong to the authenticated user'')
            else reply StatusOK (AccountBody account)))"

definition listAccounts_proc :: "env \<Rightarrow> Payload \<Rightarrow> listAccountRequest option \<Rightarrow> response proc" where
  "listAccounts_proc E authPayload form =
     (case ShouldBind listAccountRequest_valid form of
        Inl err \<Rightarrow> reply_error StatusBadRequest err
      | Inr req \<Rightarrow> calling (ListAccounts E
            \<lparr>ListAccountsParams_Owner = Payload_Username authPayload,
             ListAccountsParams_Limit = listAccountRequest_PageSize req,
             ListAccountsParams_Offset =
               (listAccountRequest_PageId req - 1) * listAccountRequest_PageSize req\<rparr>) (\<lambda>a. case a of
          Inl err \<Rightarrow> reply_error StatusInternalServerError err
        | Inr account \<Rightarrow> reply StatusOK (AccountsBody account)))"

primrec script_proc :: "env \<Rightarrow> script \<Rightarrow> response proc" where
  "script_proc E (Answer rsp) = Done rsp"
| "script_proc E (Read_account i k) = calling (GetAccount E i) (\<lambda>r. script_proc E (k r))"
| "script_proc E (Read_key pk k) = calling (GetIdempotencyKey E pk) (\<lambda>r. script_proc E (k r))"
| "script_proc E (Store_call j k) = Transact j (\<lambda>r. script_proc E (k r))"

definition createTransfer_proc :: "env \<Rightarrow> Payload \<Rightarrow> string \<Rightarrow> transferRequest option \<Rightarrow> response proc" where
  "createTransfer_proc E authPayload key body = script_proc E (createTransfer_script E authPayload key body)"

definition logout_proc :: "env \<Rightarrow> Server \<Rightarrow> Payload \<Rightarrow> logoutRequest option \<Rightarrow> response proc" where
  "logout_proc E server authPayload body =
     (case ShouldBind logoutRequest_valid body of
        Inl err \<Rightarrow> reply_error StatusBadRequest err
      | Inr req \<Rightarrow> calling (VerifyToken (Server_tokenMaker server) (logoutRequest_RefreshToken req)) (\<lambda>v. case v of
          Inl err \<Rightarrow> reply_error StatusUnauthorized err
        | Inr refreshPayload \<Rightarrow> calling (GetSession E (Payload_ID refreshPayload)) (\<lambda>s. case s of
            Inl err \<Rightarrow>
              if err = ErrNoRows then reply_error StatusNotFound err
              else reply_error StatusInternalServerError err
          | Inr session \<Rightarrow>
              if Session_Username session \<noteq> Payload_Username authPayload then
                reply_error StatusUnauthorized
                  (Errorf ''session doesn't belong to the authenticated user'')
              else if Session_IsBlocked session then
                reply StatusOK (LogoutBody \<lparr>logoutResponse_SessionID = Session_ID session\<rparr>)
              else calling (BlockSession E (Session_ID session)) (\<lambda>b. case b of
                Inl err \<Rightarrow> reply_error StatusInternalServerError err
              | Inr blocked \<Rightarrow> reply StatusOK (LogoutBody \<lparr>logoutResponse_SessionID = Session_ID blocked\<rparr>)))))"

definition logoutAll_proc :: "env \<Rightarrow> Payload \<Rightarrow> response proc" where
  "logoutAll_proc E authPayload =
     calling (BlockUserSessions E (Payload_Username authPayload)) (\<lambda>r. case r of
       Inl err \<Rightarrow> reply_error StatusInternalServerError err
     | Inr revoked \<Rightarrow> reply StatusOK (LogoutAllBody \<lparr>logoutAllResponse_SessionsRevoked = revoked\<rparr>))"

definition ready_proc :: "env \<Rightarrow> response proc" where
  "ready_proc E = calling (Ping E) (\<lambda>p. case p of
       Inl err \<Rightarrow> reply StatusServiceUnavailable (HealthBody
         \<lparr>HealthResponse_Status = StatusUnavailable, HealthResponse_Error = Some err\<rparr>)
     | Inr _ \<Rightarrow> reply StatusOK (HealthBody
         \<lparr>HealthResponse_Status = StatusReady, HealthResponse_Error = None\<rparr>))"

definition live_proc :: "response proc" where
  "live_proc = reply StatusOK (HealthBody \<lparr>HealthResponse_Status = StatusLive, HealthResponse_Error = None\<rparr>)"

definition authMiddleware_proc :: "Maker \<Rightarrow> string \<Rightarrow> (Payload \<Rightarrow> response proc) \<Rightarrow> response proc" where
  "authMiddleware_proc tokenMaker authorizationHeader next =
     (if length authorizationHeader = 0 then
        reply_error StatusUnauthorized (Errorf ''authorization header is not provided'')
      else
        let fields = strings_Fields authorizationHeader in
        if length fields < 2 then
          reply_error StatusUnauthorized (Errorf ''invalid authorization header format'')
        else
          let authorizationType = strings_ToLower (fields ! 0) in
          if authorizationType \<noteq> ''bearer'' then
            reply_error StatusUnauthorized
              (Errorf (''unsupported authorization type '' @ authorizationType))
          else calling (VerifyToken tokenMaker (fields ! 1)) (\<lambda>v. case v of
              Inl err \<Rightarrow> reply_error StatusUnauthorized err
            | Inr payload \<Rightarrow> next payload))"

text \<open>The middleware verifies the bearer token, or refuses at once.\<close>

lemma authMiddleware_proc_bearer:
  "bearer_token auth = Some tok \<Longrightarrow> authMiddleware_proc M auth nxt = calling (VerifyToken M tok) (\<lambda>v. case v of
     Inl err \<Rightarrow> reply_error StatusUnauthorized err | Inr payload \<Rightarrow> nxt payload)"
  by (cases auth) (auto simp: authMiddleware_proc_def bearer_token_def Let_def split: if_splits)

lemma authMiddleware_proc_refused:
  "bearer_token auth = None \<Longrightarrow> \<exists>err. authMiddleware_proc M auth nxt = reply_error StatusUnauthorized err"
  by (auto simp: authMiddleware_proc_def bearer_token_def Let_def split: if_splits)

fun serve_proc :: "env \<Rightarrow> Server \<Rightarrow> request \<Rightarrow> response proc" where
  "serve_proc E s GetHealthLive = live_proc"
| "serve_proc E s GetHealthReady = ready_proc E"
| "serve_proc E s (PostUsers body) = createUser_proc E body"
| "serve_proc E s (PostUsersLogin userAgent clientIP body) = loginUser_proc E s userAgent clientIP body"
| "serve_proc E s (PostTokensRenewAccess body) = renewAccessToken_proc E s body"
| "serve_proc E s (PostAccounts auth body) =
     authMiddleware_proc (Server_tokenMaker s) auth (\<lambda>p. createAccount_proc E p body)"
| "serve_proc E s (GetAccountsId auth uri) =
     authMiddleware_proc (Server_tokenMaker s) auth (\<lambda>p. getAccount_proc E p uri)"
| "serve_proc E s (GetAccounts auth form) =
     authMiddleware_proc (Server_tokenMaker s) auth (\<lambda>p. listAccounts_proc E p form)"
| "serve_proc E s (PostTransfers auth key body) =
     authMiddleware_proc (Server_tokenMaker s) auth (\<lambda>p. createTransfer_proc E p key body)"
| "serve_proc E s (PostUsersLogout auth body) =
     authMiddleware_proc (Server_tokenMaker s) auth (\<lambda>p. logout_proc E s p body)"
| "serve_proc E s (PostUsersLogoutAll auth) =
     authMiddleware_proc (Server_tokenMaker s) auth (\<lambda>p. logoutAll_proc E p)"

lemma exec_script_proc: "exec_proc E (script_proc E h) = exec_script E h"
  by (induction h) (auto intro!: bind_eqI)

text \<open>Run without interruption, a process of a handler is the handler.\<close>

lemma exec_users: "exec_proc E (createUser_proc E body) = createUser E body"
  by (auto simp: createUser_proc_def createUser_def intro!: bind_eqI split: sum.split error.split)

lemma exec_login: "exec_proc E (loginUser_proc E s ua ip body) = loginUser E s ua ip body"
  by (auto simp: loginUser_proc_def loginUser_def intro!: bind_eqI split: sum.split option.split)

lemma exec_renew: "exec_proc E (renewAccessToken_proc E s body) = renewAccessToken E s body"
  by (auto simp: renewAccessToken_proc_def renewAccessToken_def intro!: bind_eqI split: sum.split)

lemma exec_accounts:
  "exec_proc E (createAccount_proc E p ca) = createAccount E p ca"
  "exec_proc E (getAccount_proc E p ga) = getAccount E p ga"
  "exec_proc E (listAccounts_proc E p la) = listAccounts E p la"
  by (auto simp: createAccount_proc_def createAccount_def getAccount_proc_def getAccount_def
      listAccounts_proc_def listAccounts_def intro!: bind_eqI split: sum.split error.split)

lemma exec_logout:
  "exec_proc E (logout_proc E s p body) = logout E s p body" "exec_proc E (logoutAll_proc E p) = logoutAll E p"
  by (auto simp: logout_proc_def logout_def logoutAll_proc_def logoutAll_def intro!: bind_eqI split: sum.split)

lemma exec_health: "exec_proc E (ready_proc E) = ready E" "exec_proc E live_proc = live"
  by (auto simp: ready_proc_def ready_def health_Ready_def health_write_def live_proc_def live_def health_Live_def
      intro!: bind_eqI split: sum.split)

lemma exec_authMiddleware:
  "exec_proc E (authMiddleware_proc M h nxt) = authMiddleware M h (\<lambda>p. exec_proc E (nxt p))"
  by (auto simp: authMiddleware_proc_def authMiddleware_def Let_def intro!: bind_eqI split: sum.split)

lemma exec_serve: "exec_proc E (serve_proc E s req) = serve E s req"
  by (cases req) (simp_all add: exec_users exec_login exec_renew exec_accounts exec_logout exec_health
      exec_authMiddleware createTransfer_proc_def exec_script_proc exec_createTransfer)

section \<open>The RPCs\<close>

definition fail_proc :: "code \<Rightarrow> error \<Rightarrow> (status_error + 'a) proc" where
  "fail_proc c err = Done (Inl (status_Errorf c err))"

definition rpc_CreateUser_proc :: "env \<Rightarrow> CreateUserRequest \<Rightarrow> (status_error + pbUser) proc" where
  "rpc_CreateUser_proc E req =
     (let violations = validateCreateUserRequest E req in
      if violations \<noteq> [] then Done (Inl (invalidArgumentError violations))
      else calling (HashPassword E (CreateUserRequest_Password req)) (\<lambda>h. case h of
          Inl err \<Rightarrow> fail_proc CodeInternal (Wrapf ''failed to hash password: '' err)
        | Inr hashedPassword \<Rightarrow> calling (CreateUser E
              \<lparr>CreateUserParams_Username = CreateUserRequest_Username req,
               CreateUserParams_HashedPassword = hashedPassword,
               CreateUserParams_FullName = CreateUserRequest_FullName req,
               CreateUserParams_Email = CreateUserRequest_Email req\<rparr>) (\<lambda>u. case u of
              Inl err \<Rightarrow>
                (case err of
                   PqError name _ \<Rightarrow>
                     if name = ''unique_violation'' then
                       fail_proc CodeAlreadyExists (Wrapf ''user already exists: '' err)
                     else fail_proc CodeInternal (Wrapf ''failed to create user: '' err)
                 | _ \<Rightarrow> fail_proc CodeInternal (Wrapf ''failed to create user: '' err))
            | Inr user \<Rightarrow> Done (Inr (convertUser user)))))"

definition rpc_LoginUser_proc ::
    "env \<Rightarrow> Server \<Rightarrow> Context \<Rightarrow> LoginUserRequest \<Rightarrow> (status_error + LoginUserResponse) proc" where
  "rpc_LoginUser_proc E server ctx req =
     (let violations = validateLoginUserRequest req in
      if violations \<noteq> [] then Done (Inl (invalidArgumentError violations))
      else calling (GetUser E (LoginUserRequest_Username req)) (\<lambda>u. case u of
          Inl err \<Rightarrow>
            if err = ErrNoRows then fail_proc CodeNotFound (Wrapf ''user not found: '' err)
            else fail_proc CodeInternal (Wrapf ''failed to get user: '' err)
        | Inr user \<Rightarrow>
            (case CheckPassword E (LoginUserRequest_Password req) (User_HashedPassword user) of
               Some err \<Rightarrow> fail_proc CodePermissionDenied (Wrapf ''failed to check password: '' err)
             | None \<Rightarrow> calling (CreateToken (Server_tokenMaker server) (LoginUserRequest_Username req)
                   (Config_AccessTokenDuration (Server_config server))) (\<lambda>a. case a of
                 Inl err \<Rightarrow> fail_proc CodeInternal (Wrapf ''failed to create token: '' err)
               | Inr (accessToken, accessPayload) \<Rightarrow>
                   calling (CreateToken (Server_tokenMaker server) (LoginUserRequest_Username req)
                     (Config_RefreshTokenDuration (Server_config server))) (\<lambda>f. case f of
                   Inl err \<Rightarrow> fail_proc CodeInternal (Wrapf ''failed to create token: '' err)
                 | Inr (refreshToken, refreshPayload) \<Rightarrow>
                     let mtdt = extractMetadata ctx in
                     calling (CreateSession E
                       \<lparr>CreateSessionParams_ID = Payload_ID refreshPayload,
                        CreateSessionParams_Username = LoginUserRequest_Username req,
                        CreateSessionParams_RefreshToken = refreshToken,
                        CreateSessionParams_UserAgent = Metadata_UserAgent mtdt,
                        CreateSessionParams_ClientIp = Metadata_ClientIP mtdt,
                        CreateSessionParams_IsBlocked = False,
                        CreateSessionParams_ExpiresAt = Payload_ExpiredAt refreshPayload\<rparr>) (\<lambda>s. case s of
                       Inl err \<Rightarrow> fail_proc CodeInternal (Wrapf ''failed to create session: '' err)
                     | Inr session \<Rightarrow> Done (Inr
                         \<lparr>LoginUserResponse_SessionId = Session_ID session,
                          LoginUserResponse_AccessToken = accessToken,
                          LoginUserResponse_AccessTokenExpiresAt = Payload_ExpiredAt accessPayload,
                          LoginUserResponse_RefreshToken = refreshToken,
                          LoginUserResponse_RefreshTokenExpiresAt = Payload_ExpiredAt refreshPayload,
                          LoginUserResponse_User = convertUser user\<rparr>)))))))"

text \<open>\<open>authorizeUser\<close> makes one call, of the token maker; the password is hashed and the clock read in one go.\<close>

definition rpc_UpdateUser_proc ::
    "env \<Rightarrow> Server \<Rightarrow> Context \<Rightarrow> UpdateUserRequest \<Rightarrow> (status_error + pbUser) proc" where
  "rpc_UpdateUser_proc E server ctx req = calling (authorizeUser server ctx) (\<lambda>auth. case auth of
       Inl err \<Rightarrow> Done (Inl (unauthenticatedError err))
     | Inr authPayload \<Rightarrow>
         let violations = validateUpdateUserRequest E req in
         if violations \<noteq> [] then Done (Inl (invalidArgumentError violations))
         else if Payload_Username authPayload \<noteq> UpdateUserRequest_Username req then
           fail_proc CodePermissionDenied (Errorf ''cannot update other user's info'')
         else calling (add_password E req) (\<lambda>arg. case arg of
             Inl st \<Rightarrow> Done (Inl st)
           | Inr arg \<Rightarrow> calling (UpdateUser E arg) (\<lambda>u. case u of
               Inl err \<Rightarrow>
                 if err = ErrNoRows then fail_proc CodeNotFound (Errorf ''user not found'')
                 else fail_proc CodeInternal (Wrapf ''failed to update user: '' err)
             | Inr user \<Rightarrow> Done (Inr (convertUser user)))))"

definition serve_rpc_proc :: "env \<Rightarrow> Server \<Rightarrow> Context \<Rightarrow> rpc_request \<Rightarrow> (status_error + rpc_reply) proc" where
  "serve_rpc_proc E s ctx r =
     (case r of
        RpcCreateUser req \<Rightarrow> map_proc (map_sum id UserReply) (rpc_CreateUser_proc E req)
      | RpcUpdateUser req \<Rightarrow> map_proc (map_sum id UserReply) (rpc_UpdateUser_proc E s ctx req)
      | RpcLoginUser req \<Rightarrow> map_proc (map_sum id LoginReply) (rpc_LoginUser_proc E s ctx req))"

fun handle_proc :: "env \<Rightarrow> Server \<Rightarrow> call \<Rightarrow> reply proc" where
  "handle_proc E s (Http req) = map_proc HttpReply (serve_proc E s req)"
| "handle_proc E s (Grpc ctx req) = map_proc GrpcReply (serve_rpc_proc E s ctx req)"

lemma exec_fail [simp]: "exec_proc E (fail_proc c err) = fail c err"
  by (simp add: fail_proc_def fail_def)

lemma exec_rpc_CreateUser: "exec_proc E (rpc_CreateUser_proc E req) = rpc_CreateUser E req"
  by (auto simp: rpc_CreateUser_proc_def rpc_CreateUser_def Let_def intro!: bind_eqI split: sum.split error.split)

lemma exec_rpc_LoginUser: "exec_proc E (rpc_LoginUser_proc E s ctx req) = rpc_LoginUser E s ctx req"
  by (auto simp: rpc_LoginUser_proc_def rpc_LoginUser_def Let_def intro!: bind_eqI split: sum.split option.split)

lemma exec_rpc_UpdateUser: "exec_proc E (rpc_UpdateUser_proc E s ctx req) = rpc_UpdateUser E s ctx req"
  by (auto simp: rpc_UpdateUser_proc_def rpc_UpdateUser_def try_do_def Let_def intro!: bind_eqI split: sum.split)

lemma try_do_map: "try_do m (\<lambda>x. ret (Inr (f x))) = m \<bind> (\<lambda>r. ret (map_sum id f r))"
  unfolding try_do_def by (rule bind_eqI) (simp split: sum.split)

lemma exec_serve_rpc: "exec_proc E (serve_rpc_proc E s ctx r) = serve_rpc E s ctx r"
  by (cases r) (simp_all add: serve_rpc_proc_def serve_rpc_def exec_map_proc try_do_map exec_rpc_CreateUser
      exec_rpc_LoginUser exec_rpc_UpdateUser)

text \<open>Without interruption the process of a request is \<open>handle\<close>, on every route and RPC.\<close>

lemma exec_handle: "exec_proc E (handle_proc E s c) = handle E s c"
  by (cases c) (simp_all add: exec_map_proc exec_serve exec_serve_rpc)

declare handle_proc.simps [simp del]

end
