(* ===== verification/Handler_Calls.thy ===== *)
theory Handler_Calls
  imports Handler_Proc
begin

text \<open>
  The contract between the processes of the handlers and the calls they make: a relation between the
  worlds before and after that every call keeps (locale \<open>call_contract\<close>) is kept by all that
  the handlers of both servers call. Whatever meets \<open>statement_api\<close> gives such a relation.
\<close>

section \<open>What the calls of a process keep\<close>

text \<open>\<open>keeps W J p\<close>: the calls of \<open>p\<close> keep \<open>W\<close>, and it runs no transaction but those of \<open>J\<close>.\<close>

inductive keeps :: "(world \<Rightarrow> world \<Rightarrow> bool) \<Rightarrow> (job \<Rightarrow> bool) \<Rightarrow> 'r proc \<Rightarrow> bool" for W J where
  done_keeps: "keeps W J (Done r)"
| call_keeps: "(\<And>w. W w (snd (f w))) \<Longrightarrow> (\<And>w. keeps W J (fst (f w))) \<Longrightarrow> keeps W J (Call f)"
| transact_keeps: "J j \<Longrightarrow> (\<And>r. keeps W J (k r)) \<Longrightarrow> keeps W J (Transact j k)"

inductive_cases keeps_CallE: "keeps W J (Call f)"
inductive_cases keeps_TransactE: "keeps W J (Transact j k)"

lemma keeps_calling: "always W m \<Longrightarrow> (\<And>x. keeps W J (k x)) \<Longrightarrow> keeps W J (calling m k)"
  unfolding calling_def
  by (rule call_keeps) (auto split: prod.split dest: alwaysD)

lemma keeps_cases:
  "(\<And>e. keeps W J (f e)) \<Longrightarrow> (\<And>x. keeps W J (g x)) \<Longrightarrow> keeps W J (case s of Inl e \<Rightarrow> f e | Inr x \<Rightarrow> g x)"
  "keeps W J a \<Longrightarrow> (\<And>x. keeps W J (h x)) \<Longrightarrow> keeps W J (case ov of None \<Rightarrow> a | Some x \<Rightarrow> h x)"
  "(\<And>x y. keeps W J (j x y)) \<Longrightarrow> keeps W J (case p of (x, y) \<Rightarrow> j x y)"
  "keeps W J a \<Longrightarrow> keeps W J b \<Longrightarrow> keeps W J (if c then a else b)"
  "(\<And>x. keeps W J (l x)) \<Longrightarrow> keeps W J (let x = v in l x)"
  "(\<And>name c. keeps W J (n name c)) \<Longrightarrow> keeps W J a \<Longrightarrow> keeps W J (case err of PqError name c \<Rightarrow> n name c | _ \<Rightarrow> a)"
  by (cases s; cases ov; cases p; cases err; simp)+

lemma keeps_reply: "keeps W J (reply code b)" "keeps W J (reply_error code err)" "keeps W J (fail_proc c err)"
  by (simp_all add: reply_def reply_error_def fail_proc_def done_keeps)

lemma keeps_map: "keeps W J p \<Longrightarrow> keeps W J (map_proc f p)"
  by (induction rule: keeps.induct) (auto intro: keeps.intros)

lemmas keeps_intros = keeps_cases keeps_reply done_keeps keeps_calling

definition transfer_route :: "request \<Rightarrow> bool" where
  "transfer_route req \<longleftrightarrow> (case req of PostTransfers _ _ _ \<Rightarrow> True | _ \<Rightarrow> False)"

section \<open>The calls of the handlers\<close>

locale call_contract =
  fixes W :: "world \<Rightarrow> world \<Rightarrow> bool" and M :: Maker and E :: env
  assumes user_calls: "always W (HashPassword E pw)" "always W (CreateUser E cu)" "always W (GetUser E u)"
      "always W (add_password E req)" "always W (UpdateUser E uu)"
    and account_calls: "CreateAccountParams_Balance ca = 0 \<Longrightarrow> always W (CreateAccount E ca)"
      "always W (GetAccount E i)" "always W (ListAccounts E la)" "always W (GetIdempotencyKey E pk)"
    and session_calls: "always W (CreateSession E cs)" "always W (GetSession E sid)" "always W (BlockSession E sid)"
      "always W (BlockUserSessions E u)"
    and token_calls: "always W (CreateToken M u dur)" "always W (VerifyToken M tok)"
      "Server_tokenMaker s = M \<Longrightarrow> always W (authorizeUser s ctx)"
    and other_calls: "always W (time_Now E)" "always W (Ping E)"
begin

lemmas calls = user_calls account_calls session_calls token_calls other_calls

lemma keeps_script: "(\<And>j. J j) \<Longrightarrow> keeps W J (script_proc E h)"
  by (induction h) (auto intro!: keeps_intros transact_keeps calls)

lemma serve_proc_keeps:
  assumes "Server_tokenMaker s = M" and "transfer_route req \<Longrightarrow> \<forall>j. J j"
  shows "keeps W J (serve_proc E s req)"
proof (cases "transfer_route req")
  case True
  then obtain auth key body where "req = PostTransfers auth key body" by (cases req) (auto simp: transfer_route_def)
  with True assms show ?thesis
    by (simp only: serve_proc.simps createTransfer_proc_def authMiddleware_proc_def)
      (intro keeps_intros keeps_script calls; simp)
next
  case False
  then show ?thesis
    by (cases req)
      (simp only: serve_proc.simps createUser_proc_def loginUser_proc_def renewAccessToken_proc_def createAccount_proc_def
        getAccount_proc_def listAccounts_proc_def logout_proc_def logoutAll_proc_def ready_proc_def
        live_proc_def authMiddleware_proc_def assms(1) transfer_route_def request.case;
       intro keeps_intros calls; simp)+
qed

lemma serve_rpc_proc_keeps:
  assumes "Server_tokenMaker s = M"
  shows "keeps W J (serve_rpc_proc E s ctx r)"
  by (cases r)
    (simp only: serve_rpc_proc_def rpc_request.case rpc_CreateUser_proc_def rpc_LoginUser_proc_def rpc_UpdateUser_proc_def
      assms; intro keeps_map keeps_intros calls assms)+

lemma handle_proc_keeps:
  assumes "Server_tokenMaker s = M" and "\<And>req. c = Http req \<Longrightarrow> transfer_route req \<Longrightarrow> \<forall>j. J j"
  shows "keeps W J (handle_proc E s c)"
  using assms by (cases c) (simp_all add: handle_proc.simps keeps_map serve_proc_keeps serve_rpc_proc_keeps)

end

context statement_api
begin

lemma add_password_rel: "always (on_db Q) (add_password E req)"
  unfolding add_password_def fail_def by (intro always_intros statement_rel)

end

sublocale statement_api \<subseteq> calls: call_contract "on_db Q" M E
  by unfold_locales (intro statement_rel CreateAccount_rel token_rel authorizeUser_rel add_password_rel; assumption?)+

end
