(* ===== verification/Open_System.thy ===== *)
theory Open_System
  imports Handler_Calls
begin

text \<open>
  The concurrent transactions of Concurrency in a server that goes on: transactions begin at any
  time, and the statements that other handlers send outside of transactions run between theirs.
  The invariants of Serial, Retries, Concurrent_Constraints and Key_Rows hold there too; the
  lemmas at the end say which relations between the tables a step of a transaction keeps.
\<close>

section \<open>Transactions that begin later\<close>

definition fresh_tx :: "env \<Rightarrow> time \<times> job \<Rightarrow> TransferTxResult tx" where
  "fresh_tx E tj = \<lparr>tx_now = fst tj, tx_prog = job_prog E (snd tj), tx_writes = [], tx_locks = {},
     tx_result = None\<rparr>"

definition begin_tx :: "env \<Rightarrow> time \<times> job \<Rightarrow> TransferTxResult system \<Rightarrow> TransferTxResult system" where
  "begin_tx E tj S = S\<lparr>txs := txs S @ [fresh_tx E tj]\<rparr>"

lemma fresh_tx_sel [simp]:
  "tx_prog (fresh_tx E tj) = job_prog E (snd tj)" "tx_writes (fresh_tx E tj) = []"
  "tx_locks (fresh_tx E tj) = {}" "tx_result (fresh_tx E tj) = None"
  by (simp_all add: fresh_tx_def)

lemma begin_tx_sel [simp]:
  "txs (begin_tx E tj S) = txs S @ [fresh_tx E tj]" "committed (begin_tx E tj S) = committed S"
  "committed_by (begin_tx E tj S) = committed_by S"
  by (simp_all add: begin_tx_def)

lemma lock_typed_job: "lock_typed (job_prog E j) {}"
  by (simp add: job_prog_def lock_typed_transfer lock_typed_claim split: job.split)

text \<open>The invariants of all transactions and all pairs of them are kept when one is added.\<close>

lemma well_locked_begin: "well_locked S \<Longrightarrow> well_locked (begin_tx E tj S)"
  by (auto simp: well_locked_def nth_append less_Suc_eq lock_typed_job)

lemma writes_ok_Nil: "db_ok C \<Longrightarrow> writes_ok C []"
  by (simp add: writes_ok_def view_def db_ok_def transfers_ok_def entries_ok_def keys_ok_def ids_within_def)

lemma constrained_begin: "constrained S \<Longrightarrow> constrained (begin_tx E tj S)"
  by (auto simp: constrained_def well_locked_begin writes_ok_Nil nth_append less_Suc_eq)

lemma on_course_fresh: "on_course (job_transfer j) L (job_prog E j) [] {}"
  using on_courseI [OF expects_job, of "job_transfer j" "[]" j "[]" L "{}" E] by simp

lemma committed_args_snoc:
  "\<forall>i \<in> set (committed_by S). i < length jobs \<Longrightarrow>
   committed_args (jobs @ [tj]) (begin_tx E tj S) = committed_args jobs S"
  by (simp add: committed_args_def nth_append)

lemma serialized_begin:
  assumes "serialized d jobs S" and "\<forall>i \<in> set (committed_by S). i < length jobs"
  shows "serialized d (jobs @ [tj]) (begin_tx E tj S)"
  using assms on_course_fresh [of "snd tj" "abs_ledger (committed S)" E]
  by (auto simp: serialized_def well_locked_begin committed_args_snoc nth_append less_Suc_eq)

lemma committed_keys_snoc:
  assumes "\<forall>i \<in> set (committed_by S). i < length jobs"
  shows "committed_keys (jobs @ [tj]) (begin_tx E tj S) = committed_keys jobs S"
proof -
  have "List.map_filter (\<lambda>i. job_key (snd ((jobs @ [tj]) ! i))) is = List.map_filter (\<lambda>i. job_key (snd (jobs ! i))) is"
    if "\<forall>i \<in> set is. i < length jobs" for "is"
    using that by (induction "is") (auto simp: map_filter_simps nth_append split: option.split)
  with assms show ?thesis by (simp add: committed_keys_def)
qed

lemma once_begin:
  assumes "once d jobs S"
  shows "once d (jobs @ [tj]) (begin_tx E tj S)"
proof -
  have "claim_ok (snd tj) (committed S) (job_prog E (snd tj)) [] {}"
    by (simp add: claim_ok_def claims_job)
  moreover have "\<forall>i \<in> set (committed_by S). i < length jobs" using assms by (simp add: once_def)
  ultimately show ?thesis
    using assms unfolding once_def
    by (auto simp: well_locked_begin nth_append less_Suc_eq committed_keys_snoc)
qed

lemma sealed_begin:
  assumes "sealed E jobs S" and "json_documented E" and "constrained S"
  shows "sealed E (jobs @ [tj]) (begin_tx E tj S)"
proof -
  have "\<exists>st. seals E (job_claim (snd tj)) (job_prog E (snd tj)) st \<and> claim_rel (committed S) (job_claim (snd tj)) [] st"
    using seals_job [OF assms(2)] by (intro exI [of _ Unclaimed]) (simp add: claim_rel_def)
  with assms show ?thesis
    by (auto simp: sealed_def constrained_begin nth_append less_Suc_eq Let_def)
qed

section \<open>Statements outside of transactions\<close>

text \<open>What the other handlers do to the tables: accounts are only opened, with nothing on them.\<close>

definition aside :: "database \<Rightarrow> database \<Rightarrow> bool" where
  "aside d d' \<longleftrightarrow> ok_kept d d' \<and> transfers d' = transfers d \<and> entries d' = entries d \<and>
     idempotency_keys d' = idempotency_keys d \<and>
     (\<exists>as. accounts d' = accounts d @ as \<and> (\<forall>a \<in> set as. Account_Balance a = 0))"

interpretation aside: db_relation aside
proof unfold_locales
  show "aside d d" for d by (simp add: aside_def ok.Q_refl)
  show "aside d1 d3" if 12: "aside d1 d2" and 23: "aside d2 d3" for d1 d2 d3
  proof -
    from 12 23 obtain as bs where "accounts d2 = accounts d1 @ as" "\<forall>a \<in> set as. Account_Balance a = 0"
      "accounts d3 = accounts d2 @ bs" "\<forall>a \<in> set bs. Account_Balance a = 0"
      by (auto simp: aside_def)
    then have "accounts d3 = accounts d1 @ (as @ bs) \<and> (\<forall>a \<in> set (as @ bs). Account_Balance a = 0)" by auto
    with 12 23 show ?thesis unfolding aside_def by (metis ok.Q_trans)
  qed
qed

interpretation aside: statement_contract aside E for E
proof unfold_locales
  note rel = identity_frame_rel [OF aside.db_relation_axioms]
  show "always (on_db aside) (CreateUser E cu)" "always (on_db aside) (UpdateUser E uu)"
    "always (on_db aside) (CreateSession E cs)" "always (on_db aside) (BlockSession E i)"
    "always (on_db aside) (BlockUserSessions E u)" for cu uu cs i u
    by (rule rel; simp add: aside_def ledger_frame_def)+
  show "always (on_db aside) (CreateAccount E ca)" if "CreateAccountParams_Balance ca = 0" for ca
    unfolding CreateAccount_def
  proof (rule aside.query_rel)
    fix t d
    have "ok_kept d (snd (sql_CreateAccount ca t d))"
      by (simp add: ok_kept_def insert_seq_le statements_ok)
    with that show "aside d (snd (sql_CreateAccount ca t d))"
      by (auto simp: aside_def sql_CreateAccount_def Let_def split: sum.splits)
  qed
qed

interpretation aside_api: statement_api aside "PasetoMaker E k" E for E k
  by unfold_locales

text \<open>Writes that fit the tables still fit them afterwards.\<close>

lemma aside_accounts:
  assumes "aside C C'"
  shows "identity ` set (accounts C) \<subseteq> identity ` set (accounts C')" "account_ids C \<subseteq> account_ids C'"
    "lookup Account_ID i (accounts C) = Some a \<Longrightarrow> lookup Account_ID i (accounts C') = Some a"
  using assms by (auto simp: aside_def account_ids_def lookup_append)

lemma write_ok_aside: "write_ok C w \<Longrightarrow> aside C C' \<Longrightarrow> write_ok C' w"
  using aside_accounts(1,2) [of C C']
  by (cases w) (auto simp: write_ok_def aside_def ok_kept_def seq_le_def)

lemma rows_aside:
  assumes "aside C C'"
  shows "transfers (view C' ws) = transfers (view C ws)" "entries (view C' ws) = entries (view C ws)"
    "map key_of (idempotency_keys (view C' ws)) = map key_of (idempotency_keys (view C ws))"
  using assms by (simp_all add: view_inserted aside_def)

lemma writes_ok_aside:
  assumes "writes_ok C ws" and "aside C C'"
  shows "writes_ok C' ws"
  using assms write_ok_aside [OF _ assms(2)] by (auto simp: writes_ok_def rows_aside [OF assms(2)])

lemma well_locked_committed [simp]: "well_locked (S\<lparr>committed := C\<rparr>) = well_locked S"
  by (simp add: well_locked_def)

lemma constrained_aside:
  assumes "constrained S" and "aside (committed S) C"
  shows "constrained (S\<lparr>committed := C\<rparr>)"
proof -
  have "db_ok C" using assms by (auto simp: constrained_def aside_def ok_kept_def)
  with assms show ?thesis by (auto simp: constrained_def writes_ok_aside)
qed

lemma keys_aside: "aside C C' \<Longrightarrow> keys C' = keys C"
  by (simp add: keys_def aside_def)

lemma once_aside: "once d jobs S \<Longrightarrow> aside (committed S) C \<Longrightarrow> once d jobs (S\<lparr>committed := C\<rparr>)"
  by (simp add: once_def claim_ok_def keys_aside committed_keys_def)

lemma claim_rel_aside: "claim_rel C c ws st \<Longrightarrow> aside C C' \<Longrightarrow> claim_rel C' c ws st"
  using claim_rel_unwritten [of C c ws st "[]" C'] by (simp add: aside_def)

lemma sealed_aside:
  assumes "sealed E jobs S" and "aside (committed S) C" and "constrained S"
  shows "sealed E jobs (S\<lparr>committed := C\<rparr>)"
proof -
  have "constrained (S\<lparr>committed := C\<rparr>)" using assms(3,2) by (rule constrained_aside)
  moreover have "idempotency_keys C = idempotency_keys (committed S)" using assms(2) by (simp add: aside_def)
  then have "rows_complete C = rows_complete (committed S)" "answer_stored E C j x = answer_stored E (committed S) j x"
    "key_found C j = key_found (committed S) j" for j x
    by (simp_all add: rows_complete_def answer_stored_def key_found_def keys_def split: option.split)
  ultimately show ?thesis
    using assms(1) claim_rel_aside [OF _ assms(2)]
    unfolding sealed_def by (auto simp: Let_def keys_aside [OF assms(2)]) blast+
qed

section \<open>The ledger with accounts opened meanwhile\<close>

text \<open>The tables \<open>d\<close> with the accounts that \<open>C\<close> has besides, empty.\<close>

definition opened :: "database \<Rightarrow> database \<Rightarrow> database" where
  "opened d C = d\<lparr>accounts := accounts d @
     map (\<lambda>a. a\<lparr>Account_Balance := 0\<rparr>) (filter (\<lambda>a. Account_ID a \<notin> account_ids d) (accounts C))\<rparr>"

definition zeros :: "int64 set \<Rightarrow> ledger" where
  "zeros A = (\<lambda>i. if i \<in> A then Some 0 else None)"

lemma dom_zeros [simp]: "dom (zeros A) = A"
  by (auto simp: zeros_def dom_def)

lemma account_ids_lookup: "i \<in> account_ids d \<longleftrightarrow> lookup Account_ID i (accounts d) \<noteq> None"
  by (simp add: account_ids_def lookup_None_iff)

lemma lookup_map_filter:
  "lookup Account_ID i (map (\<lambda>a. a\<lparr>Account_Balance := 0\<rparr>) (filter (\<lambda>a. Account_ID a \<notin> A) rows)) =
     (if i \<in> A then None else map_option (\<lambda>a. a\<lparr>Account_Balance := 0\<rparr>) (lookup Account_ID i rows))"
  by (induction rows) auto

lemma abs_ledger_opened: "abs_ledger (opened d C) = abs_ledger d ++ zeros (account_ids C - account_ids d)"
proof
  show "abs_ledger (opened d C) i = (abs_ledger d ++ zeros (account_ids C - account_ids d)) i" for i
    using account_ids_lookup [of i d] account_ids_lookup [of i C]
    by (auto simp: abs_ledger_def opened_def lookup_append lookup_map_filter zeros_def map_add_def split: option.splits)
qed

lemma opened_rows [simp]: "transfers (opened d C) = transfers d" "entries (opened d C) = entries d"
  by (simp_all add: opened_def)

lemma abs_ledger_aside:
  assumes "aside C C'"
  shows "abs_ledger C' = abs_ledger C ++ zeros (account_ids C' - account_ids C)"
proof -
  from assms obtain as where as: "accounts C' = accounts C @ as" "\<forall>a \<in> set as. Account_Balance a = 0"
    by (auto simp: aside_def)
  have "lookup Account_ID i as = Some a \<Longrightarrow> Account_Balance a = 0" for i a
    using as(2) by (auto dest: lookup_SomeD)
  then show ?thesis
    by (intro ext) (auto simp: abs_ledger_def as(1) lookup_append zeros_def map_add_def account_ids_lookup
      split: option.splits)
qed

text \<open>Balance changes only concern the accounts that are there, so opening others first makes no difference.\<close>

lemma posts_dom: "posts ms L = Some M \<Longrightarrow> fst ` set ms \<subseteq> dom L \<and> dom M = dom L"
proof (induction ms arbitrary: L)
  case (Cons m ms)
  then obtain b where b: "L (fst m) = Some b" "posts ms (L(fst m \<mapsto> b + sint (snd m))) = Some M"
    by (auto simp: post_def split: option.splits if_splits)
  have dom: "dom (L(fst m \<mapsto> b + sint (snd m))) = dom L" using b(1) by auto
  have "fst ` set ms \<subseteq> dom L" "dom M = dom L" using Cons.IH [OF b(2)] unfolding dom by blast+
  with b(1) show ?case by auto
qed simp

lemma map_add_if: "dom Z \<inter> dom L = {} \<Longrightarrow> dom M = dom L \<Longrightarrow> (\<lambda>i. if i \<in> dom L then M i else (L ++ Z) i) = M ++ Z"
  by (rule ext) (auto simp: map_add_def split: option.splits)

lemma posts_more:
  assumes "posts ms L = Some M" and "dom Z \<inter> dom L = {}"
  shows "posts ms (L ++ Z) = Some (M ++ Z)"
proof -
  have "\<forall>i \<in> dom L. (L ++ Z) i = L i" using assms(2) by (auto simp: map_add_def split: option.splits)
  from posts_local [OF assms(1) _ this] posts_dom [OF assms(1)] map_add_if [OF assms(2)] show ?thesis by simp
qed

lemma serial_more:
  "serial args L = Some M \<Longrightarrow> dom Z \<inter> dom L = {} \<Longrightarrow> serial args (L ++ Z) = Some (M ++ Z)"
proof (induction args arbitrary: L)
  case (Cons arg args)
  then obtain N where N: "posts (moves arg) L = Some N" "serial args N = Some M" by (auto split: option.splits)
  with Cons.IH [OF N(2)] Cons.prems(2) posts_dom [OF N(1)] posts_more [OF N(1)] show ?case by simp
qed simp

lemma on_course_more:
  assumes "on_course arg L p written H" and "dom Z \<inter> dom L = {}"
  shows "on_course arg (L ++ Z) p written H"
proof -
  from assms(1) obtain ts es "done" bs where T: "expects p ts es bs"
    "[arg] = new_transfers written @ ts" "bookings arg = new_entries written @ es"
    "moves arg = done @ bs" "posts done L = Some (fold write_ledger written L)"
    "touched written \<subseteq> fst ` set done" "RowLock ` fst ` set done \<subseteq> H"
    by (rule on_courseE)
  note dom = posts_dom [OF T(5)]
  have same: "\<forall>i \<in> dom L. (L ++ Z) i = L i" using assms(2) by (auto simp: map_add_def split: option.splits)
  have "fold write_ledger written (L ++ Z) = (\<lambda>i. if i \<in> dom L then fold write_ledger written L i else (L ++ Z) i)"
    by (rule write_ledger_local [where L = L, OF subset_trans [OF T(6) conjunct1 [OF dom]] same])
  also have "\<dots> = fold write_ledger written L ++ Z" by (rule map_add_if [OF assms(2) conjunct2 [OF dom]])
  finally have "posts done (L ++ Z) = Some (fold write_ledger written (L ++ Z))"
    by (simp only: posts_more [OF T(5) assms(2)])
  then show ?thesis by (rule on_courseI [OF T(1-4) _ T(6,7)])
qed

text \<open>The invariant of Serial, from the tables with all accounts opened so far.\<close>

definition balanced :: "database \<Rightarrow> (time \<times> job) list \<Rightarrow> 'r system \<Rightarrow> bool" where
  "balanced d jobs S \<longleftrightarrow> serialized (opened d (committed S)) jobs S \<and> account_ids d \<subseteq> account_ids (committed S)"

lemma serialized_base:
  "abs_ledger d = abs_ledger d' \<Longrightarrow> transfers d = transfers d' \<Longrightarrow> entries d = entries d' \<Longrightarrow>
   serialized d jobs S \<Longrightarrow> serialized d' jobs S"
  by (simp add: serialized_def)

lemma balanced_act:
  assumes "act S S'" and "constrained S" and "balanced d jobs S"
  shows "balanced d jobs S'"
proof -
  have ids: "account_ids (committed S') = account_ids (committed S)"
    using account_ids_identity [OF identity_act [OF assms(1,2)]] by (simp add: account_ids_set)
  have "serialized (opened d (committed S)) jobs S'"
    using serialization.act_kept [OF assms(1)] assms(3) by (simp add: balanced_def)
  then have "serialized (opened d (committed S')) jobs S'"
    by (rule serialized_base [rotated 3]) (simp_all add: abs_ledger_opened ids)
  with assms(3) ids show ?thesis by (simp add: balanced_def)
qed

lemma balanced_begin:
  assumes "balanced d jobs S" and "\<forall>i \<in> set (committed_by S). i < length jobs"
  shows "balanced d (jobs @ [tj]) (begin_tx E tj S)"
  using assms by (simp add: balanced_def serialized_begin)

lemma map_add_zeros: "A \<inter> B = {} \<Longrightarrow> L ++ zeros A ++ zeros B = L ++ zeros (A \<union> B)"
  by (rule ext) (auto simp: map_add_def zeros_def split: option.splits)

lemma balanced_aside:
  assumes "balanced d jobs S" and "aside (committed S) C"
  shows "balanced d jobs (S\<lparr>committed := C\<rparr>)"
proof -
  let ?Z = "zeros (account_ids C - account_ids (committed S))"
  have ser: "serialized (opened d (committed S)) jobs S" and ids: "account_ids d \<subseteq> account_ids (committed S)"
    using assms(1) by (simp_all add: balanced_def)
  note more = aside_accounts(2) [OF assms(2)] and L = abs_ledger_aside [OF assms(2)]
  have free: "dom ?Z \<inter> dom (abs_ledger (committed S)) = {}" by (auto simp: dom_abs_ledger)
  have "abs_ledger (opened d C) = abs_ledger (opened d (committed S)) ++ ?Z"
    unfolding abs_ledger_opened using ids more by (subst map_add_zeros) (auto intro: arg_cong [where f = "\<lambda>A. _ ++ zeros A"])
  moreover have "dom ?Z \<inter> dom (abs_ledger (opened d (committed S))) = {}"
    unfolding abs_ledger_opened using ids by (auto simp: dom_abs_ledger)
  ultimately have "serialized (opened d C) jobs (S\<lparr>committed := C\<rparr>)"
    using ser assms(2) serial_more [of _ _ _ ?Z]
    unfolding serialized_def by (auto simp: L committed_args_def aside_def intro: on_course_more [OF _ free])
  with ids more show ?thesis by (auto simp: balanced_def)
qed

section \<open>What a transaction reports\<close>

text \<open>\<open>reports p t\<close>: the result of the program, if it has one, is about the transfer \<open>t\<close> it has inserted.\<close>

primrec reports :: "TransferTxResult prog \<Rightarrow> Transfer option \<Rightarrow> bool" where
  "reports (Return r) t = (case r of Inl _ \<Rightarrow> True | Inr x \<Rightarrow> t = Some (TransferTxResult_Transfer x))"
| "reports (Transfer_stmt arg k) t = ((\<forall>u. reports (k (Inr u)) (Some u)) \<and> (\<forall>e. reports (k (Inl e)) t))"
| "reports (Entry_stmt arg k) t = (\<forall>r. reports (k r) t)"
| "reports (Balance_stmt arg k) t = (\<forall>r. reports (k r) t)"
| "reports (Claim_stmt arg k) t = (\<forall>r. reports (k r) t)"
| "reports (Complete_stmt arg k) t = (\<forall>r. reports (k r) t)"

lemma reports_transferTx:
  assumes "\<And>x. reports (f x) (Some (TransferTxResult_Transfer x))"
  shows "reports (try_prog (transferTx_prog arg) f) t"
proof -
  have "reports (f x) (Some u)" if "u = TransferTxResult_Transfer x" for x u
    using assms that by blast
  note this [simp]
  show ?thesis by (simp add: transferTx_prog_def addMoney_prog_def Let_def split: sum.split)
qed

lemma reports_job: "reports (job_prog E j) t"
proof (cases j)
  case (Plain arg)
  then show ?thesis
    using reports_transferTx [of "\<lambda>x. Return (Inr x)" arg] by (simp add: job_prog_def)
next
  case (Keyed arg)
  then show ?thesis
    by (auto simp: job_prog_def claimAndTransfer_prog_def split: sum.split intro!: reports_transferTx)
qed

definition reporting :: "TransferTxResult system \<Rightarrow> bool" where
  "reporting S \<longleftrightarrow> (\<forall>T \<in> set (txs S). tx_result T = None \<longrightarrow>
     (\<exists>t. reports (tx_prog T) t \<and> set_option t \<subseteq> set (transfer_rows (tx_writes T))))"

lemma perform_reports:
  assumes "reports q t" and "perform q now v = (p, ws, d)"
  shows "\<exists>u. reports p u \<and> set_option u \<subseteq> set_option t \<union> set (transfer_rows ws)"
proof (cases q)
  case (Transfer_stmt arg k)
  obtain r d' where r: "sql_CreateTransfer arg now v = (r, d')" by fastforce
  with assms Transfer_stmt show ?thesis
    by (cases r) (auto simp: wrote_def intro: exI [of _ t] exI [of _ "Some (projr r)"])
qed (use assms in \<open>auto split: prod.splits intro!: exI [of _ t]\<close>)

lemma reporting_update:
  assumes "reporting S" and "i < length (txs S)" and "txs S' = (txs S)[i := T]"
    and "tx_result T = None \<Longrightarrow> \<exists>t. reports (tx_prog T) t \<and> set_option t \<subseteq> set (transfer_rows (tx_writes T))"
  shows "reporting S'"
  using assms set_update_subset_insert [of "txs S" i T] unfolding reporting_def by auto

lemma reporting_statement:
  assumes "reporting S" and i: "i < length (txs S)" "tx_result (txs S ! i) = None"
  shows "reporting (run_statement S i)"
proof -
  obtain p ws d where perf: "perform (tx_prog (txs S ! i)) (tx_now (txs S ! i))
      (view (committed S) (tx_writes (txs S ! i))) = (p, ws, d)"
    by (metis prod_cases3)
  from assms obtain t where t: "reports (tx_prog (txs S ! i)) t"
    "set_option t \<subseteq> set (transfer_rows (tx_writes (txs S ! i)))"
    unfolding reporting_def using nth_mem by blast
  from perform_reports [OF t(1) perf] obtain u where "reports p u"
    "set_option u \<subseteq> set_option t \<union> set (transfer_rows ws)" by blast
  with t(2) show ?thesis
    by (intro reporting_update [OF assms(1) i(1) run_statement_sel(1) [OF perf]]) (auto intro!: exI [of _ u])
qed

interpretation reporting: system_invariant reporting
proof unfold_locales
  show "reporting (finish S i commit r)" if "reporting S" "i < length (txs S)" for S i commit r
    by (rule reporting_update [OF that txs_finish]) simp
qed (rule reporting_statement)

section \<open>The invariant\<close>

definition settled :: "env \<Rightarrow> database \<Rightarrow> (time \<times> job) list \<Rightarrow> TransferTxResult system \<Rightarrow> bool" where
  "settled E d jobs S \<longleftrightarrow> constrained S \<and> sealed E jobs S \<and> balanced d jobs S \<and> once d jobs S \<and> reporting S"

lemma settled_act:
  assumes "act S S'" and "settled E d jobs S" and "json_documented E"
  shows "settled E d jobs S'"
  using assms sealed_act [OF assms(1) _ assms(3)] constraints.act_kept [OF assms(1)] retries.act_kept [OF assms(1)]
    reporting.act_kept [OF assms(1)] balanced_act [OF assms(1)]
  by (simp add: settled_def)

lemma reporting_begin: "reporting S \<Longrightarrow> reporting (begin_tx E tj S)"
  unfolding reporting_def using reports_job [of E "snd tj" None] by (auto intro: exI [of _ None])

lemma settled_begin:
  assumes "settled E d jobs S" and "json_documented E"
  shows "settled E d (jobs @ [tj]) (begin_tx E tj S)"
proof -
  have "\<forall>i \<in> set (committed_by S). i < length jobs" using assms(1) by (simp add: settled_def once_def)
  with assms show ?thesis
    by (simp add: settled_def constrained_begin sealed_begin balanced_begin once_begin reporting_begin)
qed

lemma settled_aside: "settled E d jobs S \<Longrightarrow> aside (committed S) C \<Longrightarrow> settled E d jobs (S\<lparr>committed := C\<rparr>)"
  by (simp add: settled_def constrained_aside sealed_aside balanced_aside once_aside) (simp add: reporting_def)

definition idle :: "database \<Rightarrow> TransferTxResult system" where
  "idle d = \<lparr>committed = d, txs = [], committed_by = []\<rparr>"

lemma settled_idle:
  assumes "db_ok d" and "rows_complete d"
  shows "settled E d [] (idle d)"
proof -
  have "well_locked (idle d)" by (simp add: well_locked_def idle_def)
  with assms show ?thesis
    by (auto simp: settled_def constrained_def sealed_def balanced_def serialized_def once_def reporting_def
      committed_args_def committed_keys_def abs_ledger_opened zeros_def map_filter_def idle_def)
qed

section \<open>What a step of a transaction does to the tables\<close>

text \<open>A step only advances sequences, or it commits what a transaction has written.\<close>

lemma act_tables:
  assumes "act S S'" and "settled E d jobs S"
  obtains (quiet) d' where "committed S' = rollback_to (committed S) d'" "seq_le (committed S) (committed S')"
  | (commit) i x where "i < length jobs" "tx_result (txs S ! i) = None" "tx_prog (txs S ! i) = Return (Inr x)"
      "committed S' = view (committed S) (tx_writes (txs S ! i))"
  using assms(1)
proof (cases rule: act_cases)
  case (statement i)
  obtain p ws d' where perf: "perform (tx_prog (txs S ! i)) (tx_now (txs S ! i))
      (view (committed S) (tx_writes (txs S ! i))) = (p, ws, d')"
    by (metis prod_cases3)
  have "constrained S" using assms(2) by (simp add: settled_def)
  note D = constrainedD(2,3) [OF this statement(1)]
  show thesis
    using perform_written [OF D perf] statement(5)
    by (intro quiet [of d']) (simp_all add: run_statement_sel [OF perf])
next
  case (finish i c r)
  have "rollback_to C C = C" "seq_le C C" for C by (simp_all add: rollback_to_def seq_le_def)
  moreover have "i < length jobs" using finish(1) assms(2) by (simp add: settled_def once_def)
  ultimately show thesis
    using finish quiet [of "committed S"] commit [of i] by (cases c) (auto simp: committed_finish)
qed

text \<open>The balance changes and the entries of a commit add up.\<close>

definition balance_in :: "ledger \<Rightarrow> int64 \<Rightarrow> int" where
  "balance_in L i = (case L i of None \<Rightarrow> 0 | Some b \<Rightarrow> b)"

definition moved :: "int64 \<Rightarrow> (int64 \<times> int64) list \<Rightarrow> int" where
  "moved i ms = (\<Sum>m\<leftarrow>ms. if fst m = i then sint (snd m) else 0)"

lemma balance_of_ledger: "balance_of i d = balance_in (abs_ledger d) i"
  by (simp add: balance_of_def balance_in_def abs_ledger_def split: option.split)

lemma entry_sum_moved: "entry_sum i d = moved i (map entry_data (entries d))"
  by (simp add: entry_sum_def moved_def entry_data_def comp_def cong: if_cong)

lemma posts_balance: "posts ms L = Some M \<Longrightarrow> balance_in M i = balance_in L i + moved i ms"
proof (induction ms arbitrary: L)
  case (Cons m ms)
  then obtain b where b: "L (fst m) = Some b" "posts ms (L(fst m \<mapsto> b + sint (snd m))) = Some M"
    by (auto simp: post_def split: option.splits if_splits)
  from Cons.IH [OF b(2)] b(1) show ?case by (auto simp: balance_in_def moved_def)
qed (simp add: moved_def)

lemma moved_bookings: "moved i (moves arg) = moved i (bookings arg)"
  by (simp add: moved_def moves_def bookings_def)

lemma moves_cancel:
  assumes "posts (moves arg) L = Some M" and range: "\<And>i b. L i = Some b \<Longrightarrow> 0 \<le> b \<and> b \<le> max_int64"
  shows "sint (- TransferTxParams_Amount arg) = - sint (TransferTxParams_Amount arg)"
proof (rule sint64_minus)
  show "sint (TransferTxParams_Amount arg) \<noteq> min_int64"
    using assms by (fastforce simp: moves_def post_def balance_error_def in_int64_def
      split: option.splits if_splits)
qed

lemma ledger_range: "db_ok d \<Longrightarrow> abs_ledger d i = Some b \<Longrightarrow> 0 \<le> b \<and> b \<le> max_int64"
  by (auto simp: abs_ledger_def db_ok_def accounts_ok_def dest!: lookup_SomeD)

lemma sum_moved_total:
  "finite A \<Longrightarrow> fst ` set ms \<subseteq> A \<Longrightarrow> (\<Sum>i \<in> A. moved i ms) = (\<Sum>m\<leftarrow>ms. sint (snd m))"
  by (induction ms) (simp_all add: moved_def sum.distrib)

lemma commit_facts:
  assumes "settled E d jobs S" and i: "i < length jobs" "tx_result (txs S ! i) = None"
    and "tx_prog (txs S ! i) = Return (Inr x)"
  defines "C \<equiv> committed S" and "V \<equiv> view (committed S) (tx_writes (txs S ! i))" and "arg \<equiv> job_transfer (snd (jobs ! i))"
  shows "posts (moves arg) (abs_ledger C) = Some (abs_ledger V)"
    and "map entry_data (entries V) = map entry_data (entries C) @ bookings arg"
    and "db_ok C" "db_ok V" "map identity (accounts V) = map identity (accounts C)"
proof -
  have c: "constrained S" and len: "i < length (txs S)" and ser: "serialized (opened d C) jobs S"
    using assms(1) i by (simp_all add: settled_def once_def balanced_def C_def)
  have "on_course arg (abs_ledger C) (Return (Inr x)) (tx_writes (txs S ! i)) (tx_locks (txs S ! i))"
    using ser i unfolding assms(4) [symmetric] arg_def C_def by (simp add: serialized_def)
  note fin = on_course_done [OF this]
  show "posts (moves arg) (abs_ledger C) = Some (abs_ledger V)"
    using fin(3) by (simp add: V_def abs_ledger_view C_def)
  show "map entry_data (entries V) = map entry_data (entries C) @ bookings arg"
    using fin(2) by (simp add: V_def view_rows C_def)
  note D = constrainedD(2,3) [OF c len]
  show "db_ok C" using D(1) by (simp add: C_def)
  show "db_ok V" unfolding V_def by (rule db_ok_view [OF D])
  show "map identity (accounts V) = map identity (accounts C)"
    unfolding V_def C_def using D
    by (intro view_identity) (simp_all add: writes_ok_def db_ok_def accounts_ok_def ids_within_def)
qed

lemma commit_ledger_kept:
  assumes "posts (moves arg) (abs_ledger C) = Some (abs_ledger V)" and "db_ok C"
    and "map entry_data (entries V) = map entry_data (entries C) @ bookings arg"
  shows "ledger_kept C V"
proof -
  note cancel = moves_cancel [OF assms(1) ledger_range [OF assms(2)]]
  have total: "entry_total D = (\<Sum>m\<leftarrow>map entry_data (entries D). sint (snd m))" for D
    by (simp add: entry_total_def entry_data_def comp_def)
  have "drift j V = drift j C" for j
    using posts_balance [OF assms(1), of j]
    by (simp add: drift_def balance_of_ledger entry_sum_moved assms(3) moved_bookings) (simp add: moved_def)
  moreover have "entry_total V = entry_total C"
    unfolding total assms(3) using cancel by (simp add: bookings_def)
  ultimately show ?thesis by (simp add: ledger_kept_def)
qed

lemma commit_money_kept:
  assumes "posts (moves arg) (abs_ledger C) = Some (abs_ledger V)" and "db_ok C" "db_ok V"
  shows "money_kept C V"
proof -
  have dom: "fst ` set (moves arg) \<subseteq> account_ids C" "account_ids V = account_ids C"
    using posts_dom [OF assms(1)] by (auto simp: dom_abs_ledger)
  have fin: "finite (account_ids C)" by (simp add: account_ids_def)
  have bal: "total_balance D = (\<Sum>i \<in> account_ids D. balance_in (abs_ledger D) i)" if "db_ok D" for D
    unfolding total_by_id [OF that] by (rule sum.cong) (auto simp: balance_in_def dom_abs_ledger [symmetric])
  have "total_balance V = total_balance C + (\<Sum>m\<leftarrow>moves arg. sint (snd m))"
    by (simp add: bal assms(2,3) dom(2) posts_balance [OF assms(1)] sum.distrib sum_moved_total [OF fin dom(1)])
  then show ?thesis
    using moves_cancel [OF assms(1) ledger_range [OF assms(2)]] assms(3)
    by (simp add: money_kept_def moves_def)
qed

section \<open>Relations that steps of transactions keep\<close>

locale open_api = statement_api Q M E for Q :: "database \<Rightarrow> database \<Rightarrow> bool" and M :: Maker and E :: env +
  assumes act_rel: "act S S' \<Longrightarrow> settled E d jobs S \<Longrightarrow> json_documented E \<Longrightarrow> Q (committed S) (committed S')"

interpretation ok_open: open_api ok_kept "PasetoMaker E k" E for E k
proof unfold_locales
  show "ok_kept (committed S) (committed S')" if "act S S'" "settled E d jobs S" "json_documented E" for S S' d jobs
  proof -
    have "constrained S'" using settled_act [OF that] by (simp add: settled_def)
    then have "db_ok (committed S')" by (simp add: constrained_def)
    moreover have "seq_le (committed S) (committed S')"
      using that(1,2) by (cases rule: act_tables) (simp_all add: seq_le_def)
    ultimately show ?thesis by (simp add: ok_kept_def)
  qed
qed

interpretation money_open: open_api money_kept "PasetoMaker E k" E for E k
proof unfold_locales
  show "money_kept (committed S) (committed S')" if "act S S'" "settled E d jobs S" "json_documented E" for S S' d jobs
    using that(1,2)
  proof (cases rule: act_tables)
    case (quiet d')
    have "constrained S'" using settled_act [OF that] by (simp add: settled_def)
    with quiet show ?thesis by (simp add: money_kept_def total_balance_def constrained_def)
  next
    case (commit i x)
    show ?thesis
      unfolding commit(4) using commit_facts [OF that(2) commit(1-3)] by (blast intro: commit_money_kept)
  qed
qed

interpretation ledger_open: open_api ledger_kept "PasetoMaker E k" E for E k
proof unfold_locales
  show "ledger_kept (committed S) (committed S')" if "act S S'" "settled E d jobs S" "json_documented E" for S S' d jobs
    using that(1,2)
  proof (cases rule: act_tables)
    case (quiet d')
    then show ?thesis by (simp add: ledger_kept_def drift_def balance_of_def entry_sum_def entry_total_def)
  next
    case (commit i x)
    show ?thesis
      unfolding commit(4) using commit_facts [OF that(2) commit(1-3)] by (blast intro: commit_ledger_kept)
  qed
qed

interpretation sess_open: open_api sessions_kept "PasetoMaker E k" E for E k
proof unfold_locales
  show "sessions_kept (committed S) (committed S')" if "act S S'" "settled E d jobs S" "json_documented E" for S S' d jobs
    using that(1,2) by (cases rule: act_tables) (simp_all add: sessions_kept_def)
qed

lemma identity_balance: "identity a = identity b \<Longrightarrow> b = a\<lparr>Account_Balance := Account_Balance b\<rparr>"
  by (cases a; cases b) (simp add: identity_def)

lemma identity_lookup:
  assumes "map identity rows' = map identity rows" and "lookup Account_ID i rows = Some a"
  shows "\<exists>b. lookup Account_ID i rows' = Some (a\<lparr>Account_Balance := b\<rparr>)"
proof -
  from lookup_identity [OF assms(1), of i] assms(2) obtain b where
    "lookup Account_ID i rows' = Some b" "identity a = identity b"
    by (cases "lookup Account_ID i rows'") auto
  with identity_balance [of a b] show ?thesis by (metis (no_types))
qed

text \<open>A key row that a commit adds stores the answer about the transfer that commits with it.\<close>

lemma commit_key_rows:
  assumes "settled E d jobs S" and i: "i < length jobs" "tx_result (txs S ! i) = None"
    and ret: "tx_prog (txs S ! i) = Return (Inr x)"
    and k: "k \<in> set (idempotency_keys (view (committed S) (tx_writes (txs S ! i))))"
  shows "k \<in> set (idempotency_keys (committed S)) \<or> json_Marshal E x = Inr (IdempotencyKey_ResponseBody k)"
proof -
  let ?C = "committed S" and ?ws = "tx_writes (txs S ! i)"
  have len: "i < length (txs S)" and ok: "sealed E jobs S" using assms(1) i by (simp_all add: settled_def once_def)
  obtain st where st: "seals E (job_claim (snd (jobs ! i))) (Return (Inr x)) st"
    "claim_rel ?C (job_claim (snd (jobs ! i))) ?ws st"
    using sealedD(5) [OF ok len i(2)] unfolding ret by blast
  have "db_ok (view ?C ?ws)" by (rule commit_facts(4) [OF assms(1-4)])
  then have look: "lookup key_of (key_of k) (idempotency_keys (view ?C ?ws)) = Some k"
    using k by (simp add: db_ok_def keys_ok_def lookup_Some_iff)
  show ?thesis
  proof (cases "key_of k \<in> written_keys ?ws")
    case True
    with st look show ?thesis by (auto simp: claim_rel_def split: claim_state.splits)
  next
    case False
    from look have "lookup key_of (key_of k) (idempotency_keys ?C) = Some k"
      by (simp add: lookup_view_unwritten [OF False])
    then show ?thesis by (auto dest: lookup_SomeD)
  qed
qed

lemma commit_reported:
  assumes "settled E d jobs S" and i: "i < length jobs" "tx_result (txs S ! i) = None"
    and ret: "tx_prog (txs S ! i) = Return (Inr x)"
  shows "TransferTxResult_Transfer x \<in> set (transfers (view (committed S) (tx_writes (txs S ! i))))"
proof -
  have "reporting S" "i < length (txs S)" using assms(1) i(1) by (simp_all add: settled_def once_def)
  then obtain t where "reports (tx_prog (txs S ! i)) t" "set_option t \<subseteq> set (transfer_rows (tx_writes (txs S ! i)))"
    unfolding reporting_def using i(2) nth_mem by blast
  then show ?thesis by (simp add: ret view_inserted)
qed

interpretation hist_open: open_api "history_kept E" "PasetoMaker E k" E for E k
proof unfold_locales
  show "history_kept E (committed S) (committed S')"
    if act: "act S S'" and ok: "settled E d jobs S" and json: "json_documented E" for S S' d jobs
    using act ok
  proof (cases rule: act_tables)
    case (quiet d')
    then show ?thesis by (simp add: history_same)
  next
    case (commit i x)
    let ?C = "committed S" and ?V = "view (committed S) (tx_writes (txs S ! i))"
    note F = commit_facts [OF ok commit(1-3)]
    have rows: "rows_kept ?C ?V"
      using sealed_act [OF act _ json, of jobs] ok unfolding commit(4) [symmetric] by (simp add: settled_def)
    have "\<exists>r. json_Marshal E r = Inr (IdempotencyKey_ResponseBody k) \<and> TransferTxResult_Transfer r \<in> set (transfers ?V)"
      if "k \<in> set (idempotency_keys ?V)" "k \<notin> set (idempotency_keys ?C)" for k
      using commit_key_rows [OF ok commit(1-3) that(1)] that(2) commit_reported [OF ok commit(1-3)] by blast
    moreover have "\<exists>b. lookup Account_ID j (accounts ?V) = Some (a\<lparr>Account_Balance := b\<rparr>)"
      if "lookup Account_ID j (accounts ?C) = Some a" for j a
      by (rule identity_lookup [OF F(5) that])
    ultimately show ?thesis
      using rows unfolding history_kept_def commit(4) rows_kept_def view_inserted(1,2) by blast
  qed
qed

end
