(* ===== verification/Interleaving.thy ===== *)
theory Interleaving
  imports Api_Session Open_System
begin

text \<open>
  The whole program under concurrency: requests to both servers arrive at any time, the calls of
  their handlers interleave, and the transactions they run interleave statement by statement, as in
  Concurrency. The lemmas carry the relations of Api_Contract and the invariants of Open_System
  over to such runs; the theorem says that the books are kept.
\<close>

section \<open>Runs of the servers\<close>

text \<open>
  The handler of a request works, or waits for the transaction of a number. Reads and single
  statements are on the connection pool: they see and change what is committed.
\<close>

datatype task = Running "reply proc" | Waiting nat "error + TransferTxResult \<Rightarrow> reply proc"

text \<open>
  Besides the tasks there are what is outside of the database, and the transactions. The rest is the
  record of the run: the requests that have arrived (task \<open>i\<close> serves request \<open>i\<close>), and the
  transactions begun, each with the request it was begun for.
\<close>

record cluster =
  tasks :: "task list"
  outer :: world
  engine :: "TransferTxResult system"
  arrived :: "call list"
  begun :: "(time \<times> job) list"
  begun_by :: "nat list"

definition open_server :: "world \<Rightarrow> cluster" where
  "open_server w = \<lparr>tasks = [], outer = w, engine = idle (db w), arrived = [], begun = [], begun_by = []\<rparr>"

abbreviation tables :: "cluster \<Rightarrow> database" where
  "tables K \<equiv> committed (engine K)"

definition at_committed :: "cluster \<Rightarrow> world" where
  "at_committed K = (outer K)\<lparr>db := tables K\<rparr>"

definition to_task :: "cluster \<Rightarrow> nat \<Rightarrow> task \<Rightarrow> cluster" where
  "to_task K i t = K\<lparr>tasks := (tasks K)[i := t]\<rparr>"

definition after_outer :: "cluster \<Rightarrow> world \<Rightarrow> cluster" where
  "after_outer K w = K\<lparr>outer := w, engine := (engine K)\<lparr>committed := db w\<rparr>\<rparr>"

text \<open>The effects of a transaction, or of its failed begin, have been counted.\<close>

definition at_tick :: "nat \<Rightarrow> cluster \<Rightarrow> cluster" where
  "at_tick t K = K\<lparr>outer := (outer K)\<lparr>tick := t\<rparr>\<rparr>"

definition with_tx :: "env \<Rightarrow> cluster \<Rightarrow> nat \<Rightarrow> time \<times> job \<Rightarrow> cluster" where
  "with_tx E K i tj = K\<lparr>engine := begin_tx E tj (engine K), begun := begun K @ [tj], begun_by := begun_by K @ [i]\<rparr>"

lemma to_task_sel [simp]:
  "tasks (to_task K i t) = (tasks K)[i := t]" "outer (to_task K i t) = outer K" "engine (to_task K i t) = engine K"
  "arrived (to_task K i t) = arrived K" "begun (to_task K i t) = begun K" "begun_by (to_task K i t) = begun_by K"
  by (simp_all add: to_task_def)

lemma after_outer_sel [simp]:
  "tasks (after_outer K w) = tasks K" "engine (after_outer K w) = (engine K)\<lparr>committed := db w\<rparr>"
  "arrived (after_outer K w) = arrived K" "begun (after_outer K w) = begun K" "begun_by (after_outer K w) = begun_by K"
  by (simp_all add: after_outer_def)

lemma at_tick_sel [simp]:
  "tasks (at_tick t K) = tasks K" "engine (at_tick t K) = engine K" "arrived (at_tick t K) = arrived K"
  "begun (at_tick t K) = begun K" "begun_by (at_tick t K) = begun_by K"
  by (simp_all add: at_tick_def)

lemma with_tx_sel [simp]:
  "tasks (with_tx E K i tj) = tasks K" "outer (with_tx E K i tj) = outer K"
  "engine (with_tx E K i tj) = begin_tx E tj (engine K)"
  "arrived (with_tx E K i tj) = arrived K" "begun (with_tx E K i tj) = begun K @ [tj]"
  "begun_by (with_tx E K i tj) = begun_by K @ [i]"
  by (simp_all add: with_tx_def)

lemma at_committed_sel [simp]: "db (at_committed K) = tables K"
  by (simp add: at_committed_def)

text \<open>
  The steps that serve requests: a call of a handler, the begin of its transaction, or its failure;
  a step or failure of some transaction; and the return of a transaction to its handler.
\<close>

inductive work_step :: "env \<Rightarrow> cluster \<Rightarrow> cluster \<Rightarrow> bool" for E where
  proceeds: "i < length (tasks K) \<Longrightarrow> tasks K ! i = Running (Call f) \<Longrightarrow> f (at_committed K) = (p, w) \<Longrightarrow>
    work_step E K (to_task (after_outer K w) i (Running p))"
| begins: "i < length (tasks K) \<Longrightarrow> tasks K ! i = Running (Transact j k) \<Longrightarrow>
    work_step E K (to_task (with_tx E K i (now, j)) i (Waiting (length (begun K)) k))"
| refused: "i < length (tasks K) \<Longrightarrow> tasks K ! i = Running (Transact j k) \<Longrightarrow> tick (outer K) \<le> t \<Longrightarrow>
    work_step E K (to_task (at_tick t K) i (Running (k (Inl (OtherErr m)))))"
| transacts: "act (engine K) S \<Longrightarrow> work_step E K (K\<lparr>engine := S\<rparr>)"
| returns: "i < length (tasks K) \<Longrightarrow> tasks K ! i = Waiting n k' \<Longrightarrow> tx_result (txs (engine K) ! n) = Some r \<Longrightarrow>
    tick (outer K) \<le> t' \<Longrightarrow> work_step E K (to_task (at_tick t' K) i (Running (k' r)))"

inductive serve_step :: "env \<Rightarrow> Server \<Rightarrow> cluster \<Rightarrow> cluster \<Rightarrow> bool" for E s where
  arrives: "serve_step E s K (K\<lparr>tasks := tasks K @ [Running (handle_proc E s c)], arrived := arrived K @ [c]\<rparr>)"
| works: "work_step E K K' \<Longrightarrow> serve_step E s K K'"

inductive_cases work_stepE: "work_step E K K'"
inductive_cases serve_stepE: "serve_step E s K K'"

section \<open>The invariant of a run\<close>

definition task_all :: "(reply proc \<Rightarrow> bool) \<Rightarrow> task \<Rightarrow> bool" where
  "task_all P t = (case t of Running p \<Rightarrow> P p | Waiting n k \<Rightarrow> \<forall>r. P (k r))"

definition tasks_keep :: "(database \<Rightarrow> database \<Rightarrow> bool) \<Rightarrow> cluster \<Rightarrow> bool" where
  "tasks_keep Q K \<longleftrightarrow> (\<forall>t \<in> set (tasks K). task_all (keeps (on_db Q) (\<lambda>_. True)) t)"

definition sound :: "env \<Rightarrow> database \<Rightarrow> cluster \<Rightarrow> bool" where
  "sound E d K \<longleftrightarrow> settled E d (begun K) (engine K) \<and> tasks_keep aside K"

lemma task_all_simps [simp]:
  "task_all P (Running p) \<longleftrightarrow> P p" "task_all P (Waiting n k) \<longleftrightarrow> (\<forall>r. P (k r))"
  by (simp_all add: task_all_def)

lemma tasks_keepD: "tasks_keep Q K \<Longrightarrow> i < length (tasks K) \<Longrightarrow> tasks K ! i = t \<Longrightarrow> task_all (keeps (on_db Q) (\<lambda>_. True)) t"
  by (auto simp: tasks_keep_def)

lemma tasks_keep_to_task:
  "tasks_keep Q K \<Longrightarrow> task_all (keeps (on_db Q) (\<lambda>_. True)) t \<Longrightarrow> tasks_keep Q (to_task K i t)"
  unfolding tasks_keep_def using set_update_subset_insert [of "tasks K" i t] by auto

lemma tasks_keep_outer [simp]:
  "tasks_keep Q (after_outer K w) = tasks_keep Q K" "tasks_keep Q (with_tx E K i tj) = tasks_keep Q K"
  "tasks_keep Q (K\<lparr>engine := S\<rparr>) = tasks_keep Q K" "tasks_keep Q (at_tick t K) = tasks_keep Q K"
  by (simp_all add: tasks_keep_def)

lemma tasks_keep_work:
  assumes "work_step E K K'" and ok: "tasks_keep Q K"
  shows "tasks_keep Q K'"
  using assms(1)
proof cases
  case (proceeds i f p w)
  then have "p = fst (f (at_committed K))" by simp
  with tasks_keepD [OF ok proceeds(2,3)] have "keeps (on_db Q) (\<lambda>_. True) p" by (auto elim: keeps_CallE)
  with ok proceeds(1) show ?thesis by (simp add: tasks_keep_to_task)
next
  case (begins i j k now)
  with tasks_keepD [OF ok begins(2,3)] have "keeps (on_db Q) (\<lambda>_. True) (k r)" for r by (auto elim: keeps_TransactE)
  with ok begins(1) show ?thesis by (simp add: tasks_keep_to_task)
next
  case (refused i j k t m)
  with tasks_keepD [OF ok refused(2,3)] have "keeps (on_db Q) (\<lambda>_. True) (k r)" for r by (auto elim: keeps_TransactE)
  with ok refused(1) show ?thesis by (simp add: tasks_keep_to_task)
next
  case (returns i n k r)
  with tasks_keepD [OF ok returns(2,3)] ok show ?thesis by (auto intro: tasks_keep_to_task)
qed (use ok in simp)

context statement_api
begin

lemma tasks_keep_step:
  assumes "serve_step E s K K'" and "Server_tokenMaker s = M" and ok: "tasks_keep Q K"
  shows "tasks_keep Q K'"
  using assms(1)
proof cases
  case (arrives c)
  with ok calls.handle_proc_keeps [OF assms(2), of c "\<lambda>_. True"] show ?thesis by (simp add: tasks_keep_def)
next
  case works
  with ok show ?thesis by (blast intro: tasks_keep_work)
qed

end

text \<open>A call of a handler is a statement outside of transactions, or none.\<close>

lemma proceeds_keeps:
  assumes "tasks_keep Q K" and "i < length (tasks K)" "tasks K ! i = Running (Call f)" "f (at_committed K) = (p, w)"
  shows "Q (tables K) (db w)"
proof -
  have "keeps (on_db Q) (\<lambda>_. True) (Call f)" using tasks_keepD [OF assms(1-3)] by simp
  then have "Q (db v) (db (snd (f v)))" for v by (auto elim!: keeps_CallE simp: on_db_def)
  from this [of "at_committed K"] show ?thesis by (simp add: assms(4))
qed

lemma sound_work:
  assumes "work_step E K K'" and ok: "sound E d K" and json: "json_documented E"
  shows "sound E d K'"
proof -
  have set: "settled E d (begun K) (engine K)" and keep: "tasks_keep aside K" using ok by (simp_all add: sound_def)
  from assms(1) have "settled E d (begun K') (engine K')"
  proof cases
    case (proceeds i f p w)
    have "aside (tables K) (db w)" by (rule proceeds_keeps [OF keep proceeds(2-4)])
    with set proceeds(1) show ?thesis by (simp add: settled_aside)
  qed (use set json in \<open>auto intro: settled_begin settled_act\<close>)
  with tasks_keep_work [OF assms(1) keep] show ?thesis by (simp add: sound_def)
qed

lemma sound_step:
  assumes "serve_step E srv K K'" and "Server_tokenMaker srv = PasetoMaker E k" and ok: "sound E d K"
    and json: "json_documented E"
  shows "sound E d K'"
  using assms(1)
proof cases
  case (arrives c)
  with ok aside_api.tasks_keep_step [OF assms(1,2)] show ?thesis by (auto simp: sound_def)
next
  case works
  with ok json show ?thesis by (blast intro: sound_work)
qed

lemma sound_open: "db_ok (db w) \<Longrightarrow> rows_complete (db w) \<Longrightarrow> sound E (db w) (open_server w)"
  by (simp add: sound_def open_server_def tasks_keep_def settled_idle)

lemma sound_run:
  assumes "(serve_step E srv)\<^sup>*\<^sup>* K K'" and "Server_tokenMaker srv = PasetoMaker E k" "json_documented E" and "sound E d K"
  shows "sound E d K'"
  using assms(1,4) by (induction rule: rtranclp_induct) (blast intro: sound_step assms(2,3))+

context open_api
begin

lemma step_rel:
  assumes "serve_step E s K K'" and "Server_tokenMaker s = M" "json_documented E"
    and "sound E d K" and keep: "tasks_keep Q K"
  shows "Q (tables K) (tables K')"
  using assms(1)
proof cases
  case works
  then show ?thesis
  proof cases
    case (proceeds i f p w)
    with proceeds_keeps [OF keep proceeds(2-4)] show ?thesis by simp
  next
    case (transacts S)
    with act_rel [of "engine K" S d "begun K"] assms(3,4) show ?thesis by (simp add: sound_def)
  qed (simp_all add: Q_refl)
qed (simp add: Q_refl)

lemma run_rel:
  assumes "(serve_step E s)\<^sup>*\<^sup>* K K'" and maker: "Server_tokenMaker s = M" "M = PasetoMaker E k" and json: "json_documented E"
    and "sound E d K" "tasks_keep Q K"
  shows "Q (tables K) (tables K') \<and> tasks_keep Q K'"
  using assms(1)
proof (induction rule: rtranclp_induct)
  case base
  with assms show ?case by (simp add: Q_refl)
next
  case (step L N)
  have "sound E d L" using step(1) assms(5) maker json by (auto intro: sound_run)
  with step step_rel [OF step(2) maker(1) json] tasks_keep_step [OF step(2) maker(1)] show ?case
    by (blast intro: Q_trans)
qed

end

lemma open_run:
  assumes "(serve_step E srv)\<^sup>*\<^sup>* (open_server w) K" and "Server_tokenMaker srv = PasetoMaker E k"
    and "json_documented E" "db_ok (db w)" "rows_complete (db w)"
  shows "sound E (db w) K"
  using assms by (blast intro: sound_run sound_open)

section \<open>Schedules\<close>

text \<open>
  A schedule names the task that goes next; \<open>play_on\<close> is the state it leads to without
  failures, or \<open>None\<close> if a task cannot go.
\<close>

definition go_on :: "env \<Rightarrow> nat \<Rightarrow> cluster \<Rightarrow> cluster option" where
  "go_on E i K = (if i < length (tasks K) then
       case tasks K ! i of
         Running p \<Rightarrow> (case p of
           Done _ \<Rightarrow> None
         | Call f \<Rightarrow> (case f (at_committed K) of (p', w) \<Rightarrow> Some (to_task (after_outer K w) i (Running p')))
         | Transact j k \<Rightarrow> Some (to_task (with_tx E K i (0, j)) i (Waiting (length (begun K)) k)))
       | Waiting n k \<Rightarrow> (if n < length (txs (engine K)) then
           case tx_result (txs (engine K) ! n) of
             None \<Rightarrow> map_option (\<lambda>S. K\<lparr>engine := S\<rparr>) (tx_next n (engine K))
           | Some r \<Rightarrow> Some (to_task (at_tick (tick (outer K)) K) i (Running (k r)))
         else None)
     else None)"

primrec play_on :: "env \<Rightarrow> nat list \<Rightarrow> cluster \<Rightarrow> cluster option" where
  "play_on E [] K = Some K"
| "play_on E (i # is) K = Option.bind (go_on E i K) (play_on E is)"

lemma tx_next_act: "tx_next n S = Some S' \<Longrightarrow> n < length (txs S) \<Longrightarrow> tx_result (txs S ! n) = None \<Longrightarrow> act S S'"
  by (auto simp: act_def tx_act_def dest: tx_next_step)

lemma go_on_step: "go_on E i K = Some K' \<Longrightarrow> work_step E K K'"
  by (auto simp: go_on_def split: if_splits task.splits proc.splits prod.splits option.splits
      intro: work_step.intros tx_next_act)

lemma play_on_run: "play_on E is K = Some K' \<Longrightarrow> (serve_step E s)\<^sup>*\<^sup>* K K'"
proof (induction "is" arbitrary: K)
  case (Cons i "is")
  then obtain L where "go_on E i K = Some L" "play_on E is L = Some K'" by (auto simp: bind_eq_Some_conv)
  with Cons.IH show ?case by (blast intro: converse_rtranclp_into_rtranclp works go_on_step)
qed simp

lemma play_on_arrived: "play_on E is K = Some K' \<Longrightarrow> arrived K' = arrived K"
proof (induction "is" arbitrary: K)
  case (Cons i "is")
  then obtain L where L: "go_on E i K = Some L" "arrived K' = arrived L" by (auto simp: bind_eq_Some_conv)
  from go_on_step [OF L(1)] have "arrived L = arrived K" by (auto elim: work_stepE)
  with L(2) show ?case by simp
qed simp

definition arrive_all :: "env \<Rightarrow> Server \<Rightarrow> call list \<Rightarrow> cluster \<Rightarrow> cluster" where
  "arrive_all E s cs K = K\<lparr>tasks := tasks K @ map (\<lambda>c. Running (handle_proc E s c)) cs, arrived := arrived K @ cs\<rparr>"

lemma arrive_all_run: "(serve_step E s)\<^sup>*\<^sup>* K (arrive_all E s cs K)"
proof (induction cs arbitrary: K)
  case (Cons c cs)
  from converse_rtranclp_into_rtranclp [OF arrives Cons.IH] show ?case by (simp add: arrive_all_def)
qed (simp add: arrive_all_def)

text \<open>Two attempts of a transfer under one key, while the user opens an account.\<close>

definition example_header :: string where
  "example_header = ''Bearer '' @ example_encrypt ''key'' (example_payload ''ann'')"

definition example_arrivals :: "call list" where
  "example_arrivals = [Http (PostTransfers example_header ''k1'' (Some (example_request 30))),
     Http (PostTransfers example_header ''k1'' (Some (example_request 30))),
     Http (PostAccounts example_header (Some \<lparr>createAccountRequest_Currency = ''EUR''\<rparr>))]"

definition example_open :: cluster where
  "example_open = arrive_all example_env example_server example_arrivals (open_server example_world)"

definition example_schedule :: "nat list" where
  "example_schedule = [0,1,2, 0,1, 0,1, 0,1, 0,0,0, 2, 0,0,0,0,0,0, 1,1,1,1]"

definition answered_with :: "cluster \<Rightarrow> nat \<Rightarrow> nat \<Rightarrow> bool \<Rightarrow> bool" where
  "answered_with K i code again = (case tasks K ! i of
     Running (Done (HttpReply rsp)) \<Rightarrow> status rsp = code \<and> replay_header rsp = again
   | _ \<Rightarrow> False)"

lemma answered_withE:
  assumes "answered_with K i code again"
  obtains rsp where "tasks K ! i = Running (Done (HttpReply rsp))" "status rsp = code" "replay_header rsp = again"
  using assms by (auto simp: answered_with_def split: task.splits proc.splits reply.splits)

definition example_end :: "cluster \<Rightarrow> bool" where
  "example_end K \<longleftrightarrow> answered_with K 0 200 False \<and> answered_with K 1 200 True \<and> answered_with K 2 200 False \<and>
     length (accounts (tables K)) = 3 \<and> committed_by (engine K) = [0]"

lemma example_played:
  obtains K where "(serve_step example_env example_server)\<^sup>*\<^sup>* (open_server example_world) K" "example_end K"
    "length (tasks K) = 3" "arrived K = example_arrivals" "begun_by K = [0, 1]"
proof -
  have "case play_on example_env example_schedule example_open of
      None \<Rightarrow> False | Some K \<Rightarrow> example_end K \<and> length (tasks K) = 3 \<and> begun_by K = [0, 1]"
    by code_simp
  then obtain K where K: "play_on example_env example_schedule example_open = Some K" "example_end K"
    "length (tasks K) = 3" "begun_by K = [0, 1]"
    by (auto split: option.splits)
  have "(serve_step example_env example_server)\<^sup>*\<^sup>* (open_server example_world) K"
    by (rule rtranclp_trans [OF arrive_all_run play_on_run]) (use K(1) in \<open>simp add: example_open_def\<close>)
  moreover have "arrived K = example_arrivals"
    using play_on_arrived [OF K(1)] by (simp add: example_open_def arrive_all_def open_server_def)
  ultimately show thesis using K that by blast
qed

section \<open>The books\<close>

text \<open>
  C5: The books are safe however requests interleave: whatever requests to both servers arrive, however
  the calls of their handlers and the statements of their transactions interleave, and whatever
  fails, at any moment the constraints hold, the total of all balances and the drift of every account
  from its entries are what they were, and the history is kept.
\<close>

theorem interleaved_requests_keep_the_books:
  assumes "Server_tokenMaker srv = PasetoMaker E k" and "json_documented E" "db_ok (db w)" "rows_complete (db w)"
    and "(serve_step E srv)\<^sup>*\<^sup>* (open_server w) K"
  shows "db_ok (tables K) \<and> seq_le (db w) (tables K) \<and> total_balance (tables K) = total_balance (db w) \<and>
    (\<forall>i. drift i (tables K) = drift i (db w)) \<and> entry_total (tables K) = entry_total (db w) \<and>
    history_kept E (db w) (tables K)"
proof -
  have start: "sound E (db w) (open_server w)" using assms(3,4) by (rule sound_open)
  have "tables (open_server w) = db w" "tasks_keep Q (open_server w)" for Q
    by (simp_all add: open_server_def idle_def tasks_keep_def)
  then show ?thesis
    using ok_open.run_rel [OF assms(5,1) refl assms(2) start] money_open.run_rel [OF assms(5,1) refl assms(2) start]
      ledger_open.run_rel [OF assms(5,1) refl assms(2) start] hist_open.run_rel [OF assms(5,1) refl assms(2) start] assms(3)
    by (simp add: ok_kept_def money_kept_def ledger_kept_def)
qed

theorem interleaved_requests_keep_the_books_witness:
  "\<exists>K. (serve_step example_env example_server)\<^sup>*\<^sup>* (open_server example_world) K \<and>
     answered_with K 0 200 False \<and> length (accounts (tables K)) = 3 \<and> total_balance (tables K) = 105 \<and> db_ok (tables K)"
proof -
  obtain K where K: "(serve_step example_env example_server)\<^sup>*\<^sup>* (open_server example_world) K" "example_end K"
    by (rule example_played)
  have ok: "db_ok (db example_world)" "rows_complete (db example_world)" "total_balance (db example_world) = 105"
    using example_db_ok example_documented(2)
    by (simp_all add: total_balance_def example_db_def example_account_def)
  from interleaved_requests_keep_the_books [OF example_server_maker example_documented(1) ok(1,2) K(1)] K ok(3)
  show ?thesis by (auto simp: example_end_def)
qed

end
