(* ===== verification/Before_Answer.thy ===== *)
theory Before_Answer
  imports Interleaving
begin

text \<open>
  What must have happened in a run of the servers before a request gets an answer: a call after
  which the tables are as wanted, or a transaction with the wanted result.
\<close>

section \<open>What has happened before an answer\<close>

text \<open>
  A process that ends in \<open>G\<close> only after a call before and after which the world is as \<open>C\<close> says,
  or after a transaction with a result as \<open>T\<close> says.
\<close>

inductive only_after ::
    "(world \<Rightarrow> world \<Rightarrow> bool) \<Rightarrow> (TransferTxResult \<Rightarrow> bool) \<Rightarrow> ('r \<Rightarrow> bool) \<Rightarrow> 'r proc \<Rightarrow> bool"
  for C T G where
  done_after: "\<not> G r \<Longrightarrow> only_after C T G (Done r)"
| call_after: "(\<And>w. C w (snd (f w)) \<or> only_after C T G (fst (f w))) \<Longrightarrow> only_after C T G (Call f)"
| transact_after: "(\<And>r. (\<exists>x. r = Inr x \<and> T x) \<or> only_after C T G (k r)) \<Longrightarrow> only_after C T G (Transact j k)"

inductive_simps only_after_Call: "only_after C T G (Call f)"
inductive_simps only_after_Done: "only_after C T G (Done r)"
inductive_simps only_after_Transact: "only_after C T G (Transact j k)"

lemma only_after_calling:
  "(\<And>w x w'. run m w = (x, w') \<Longrightarrow> C w w' \<or> only_after C T G (k x)) \<Longrightarrow> only_after C T G (calling m k)"
  unfolding calling_def by (rule call_after) (simp split: prod.split)

lemma only_after_map: "only_after C T (\<lambda>r. G (f r)) p \<Longrightarrow> only_after C T G (map_proc f p)"
proof (induction rule: only_after.induct)
  case (call_after g)
  then have "C w (snd (g w)) \<or> only_after C T G (map_proc f (fst (g w)))" for w by blast
  then show ?case by (simp add: only_after.call_after)
next
  case (transact_after k)
  then have "(\<exists>x. r = Inr x \<and> T x) \<or> only_after C T G (map_proc f (k r))" for r by blast
  then show ?case by (simp add: only_after.transact_after)
qed (simp add: done_after)

lemma only_after_error: "\<not> G (error_response code err) \<Longrightarrow> only_after C T G (reply_error code err)"
  by (simp add: reply_error_def done_after)

lemma authMiddleware_only_after:
  assumes "\<And>tok p. bearer_token auth = Some tok \<Longrightarrow> paseto_Decrypt E tok k = Inr p \<Longrightarrow> only_after C T G (nxt p)"
    and "\<And>err. \<not> G (error_response StatusUnauthorized err)"
  shows "only_after C T G (authMiddleware_proc (PasetoMaker E k) auth nxt)"
proof (cases "bearer_token auth")
  case None
  then show ?thesis using authMiddleware_proc_refused assms(2) by (metis only_after_error)
next
  case (Some tok)
  show ?thesis
    unfolding authMiddleware_proc_bearer [OF Some]
    by (rule only_after_calling)
      (auto simp: PasetoMaker_def run_paseto_VerifyToken assms Some split: sum.splits if_splits intro: only_after_error)
qed

text \<open>In a run the call is found between the arrival of the request and its answer.\<close>

definition task_after ::
    "(world \<Rightarrow> world \<Rightarrow> bool) \<Rightarrow> (TransferTxResult \<Rightarrow> bool) \<Rightarrow> (reply \<Rightarrow> bool) \<Rightarrow> task \<Rightarrow> bool" where
  "task_after C T G t = (case t of Running p \<Rightarrow> only_after C T G p | Waiting n k \<Rightarrow> \<forall>r. (\<exists>x. r = Inr x \<and> T x) \<or> only_after C T G (k r))"

lemma task_after_simps [simp]:
  "task_after C T G (Running p) \<longleftrightarrow> only_after C T G p"
  "task_after C T G (Waiting n k) \<longleftrightarrow> (\<forall>r. (\<exists>x. r = Inr x \<and> T x) \<or> only_after C T G (k r))"
  by (simp_all add: task_after_def)

lemma at_after_outer [simp]: "at_committed (to_task (after_outer K w) i t) = w"
  by (simp add: at_committed_def after_outer_def to_task_def)

lemma serve_step_tasks: "serve_step E s K K' \<Longrightarrow> length (tasks K) \<le> length (tasks K')"
  by (auto elim!: serve_stepE work_stepE)

lemma task_after_step:
  assumes "serve_step E s K K'" and i: "i < length (tasks K)" "task_after C T G (tasks K ! i)"
  obtains (still) "task_after C T G (tasks K' ! i)"
  | (called) "C (at_committed K) (at_committed K')"
  | (returned) n k x where "tasks K ! i = Waiting n k" "tx_result (txs (engine K) ! n) = Some (Inr x)" "T x"
  using assms(1)
proof cases
  case (arrives c)
  with i still show thesis by (simp add: nth_append)
next
  case works
  then show thesis
  proof cases
    case (proceeds j f p w)
    show thesis
    proof (cases "j = i")
      case True
      with i(2) proceeds(3) have "C (at_committed K) (snd (f (at_committed K))) \<or> only_after C T G (fst (f (at_committed K)))"
        by (simp add: only_after_Call)
      with True proceeds(1,2,4) still called show thesis by auto
    qed (use proceeds(1) i still in simp)
  next
    case (begins j l k now)
    with i still show thesis by (cases "j = i") (simp_all add: only_after_Transact)
  next
    case (refused j l k t m)
    with i still show thesis by (cases "j = i") (auto simp: only_after_Transact)
  next
    case (transacts S)
    with i still show thesis by simp
  next
    case (returns j n k r)
    show thesis
    proof (cases "j = i")
      case True
      with i(2) returns(3) have "(\<exists>x. r = Inr x \<and> T x) \<or> only_after C T G (k r)" by simp
      with True returns still returned show thesis by auto
    qed (use returns(1) i still in simp)
  qed
qed

lemma serve_run_tasks: "(serve_step E s)\<^sup>*\<^sup>* K K' \<Longrightarrow> length (tasks K) \<le> length (tasks K')"
  by (induction rule: rtranclp_induct) (auto dest: serve_step_tasks)

lemma happened_before:
  assumes "(serve_step E s)\<^sup>*\<^sup>* K K'" and i: "i < length (tasks K)" "task_after C (\<lambda>_. False) G (tasks K ! i)"
    and "tasks K' ! i = Running (Done r)" "G r"
  shows "\<exists>L L'. (serve_step E s)\<^sup>*\<^sup>* K L \<and> serve_step E s L L' \<and> C (at_committed L) (at_committed L') \<and>
    (serve_step E s)\<^sup>*\<^sup>* L' K'"
proof -
  have "task_after C (\<lambda>_. False) G (tasks K' ! i) \<or>
      (\<exists>L L'. (serve_step E s)\<^sup>*\<^sup>* K L \<and> serve_step E s L L' \<and> C (at_committed L) (at_committed L') \<and>
        (serve_step E s)\<^sup>*\<^sup>* L' K')"
    using assms(1)
  proof (induction rule: rtranclp_induct)
    case (step M N)
    have len: "i < length (tasks M)" using serve_run_tasks [OF step(1)] i(1) by simp
    from step(3) show ?case
    proof
      assume "task_after C (\<lambda>_. False) G (tasks M ! i)"
      from task_after_step [OF step(2) len this] show ?case using step(1,2) by blast
    next
      assume "\<exists>L L'. (serve_step E s)\<^sup>*\<^sup>* K L \<and> serve_step E s L L' \<and> C (at_committed L) (at_committed L') \<and>
        (serve_step E s)\<^sup>*\<^sup>* L' M"
      with step(2) show ?case by (meson rtranclp.rtrancl_into_rtrancl)
    qed
  qed (use i in simp)
  with assms(4,5) show ?thesis by (simp add: only_after_Done)
qed

end
