(* ===== verification/Server_Ledger.thy ===== *)
theory Server_Ledger
  imports Before_Answer
begin

text \<open>
  What all requests together do to the balances. A transfer that commits was asked for by a
  request with a verified token, by the owner of the account to debit; this was checked before
  its transaction began, and what was checked cannot change meanwhile. The balances are at
  any moment those of these transfers, made one after another.
\<close>

section \<open>Transactions that were asked for\<close>

text \<open>The job of a request under a verified token, as the handler passes it to the store.\<close>

definition transfer_job :: "env \<Rightarrow> Payload \<Rightarrow> string \<Rightarrow> transferRequest \<Rightarrow> job" where
  "transfer_job E p key req =
     (if key \<noteq> '''' then Keyed
        \<lparr>IdempotentTransferTxParams_TransferTxParams = transfer_params req,
         IdempotentTransferTxParams_Owner = Payload_Username p, IdempotentTransferTxParams_Key = key,
         IdempotentTransferTxParams_RequestHash = requestFingerprint E req\<rparr>
      else Plain (transfer_params req))"

definition asked_for :: "env \<Rightarrow> string \<Rightarrow> call \<Rightarrow> database \<Rightarrow> job \<Rightarrow> bool" where
  "asked_for E sk c d j \<longleftrightarrow> (\<exists>auth key req tok p. c = Http (PostTransfers auth key (Some req)) \<and>
     bearer_token auth = Some tok \<and> paseto_Decrypt E tok sk = Inr p \<and> authorized p req d \<and>
     j = transfer_job E p key req)"

lemma authorized_later:
  assumes "authorized p req d" and "history_kept E d d'"
  shows "authorized p req d'"
proof -
  from assms(1) obtain a b where a: "lookup Account_ID (transferRequest_FromAccountID req) (accounts d) = Some a"
    "Account_Owner a = Payload_Username p" "Account_Currency a = transferRequest_Currency req"
    and b: "lookup Account_ID (transferRequest_ToAccountID req) (accounts d) = Some b"
      "Account_Currency b = transferRequest_Currency req"
    and valid: "transferRequest_valid req" "transferRequest_FromAccountID req \<noteq> transferRequest_ToAccountID req"
    by (auto simp: authorized_def)
  obtain x y where "lookup Account_ID (transferRequest_FromAccountID req) (accounts d') = Some (a\<lparr>Account_Balance := x\<rparr>)"
    "lookup Account_ID (transferRequest_ToAccountID req) (accounts d') = Some (b\<lparr>Account_Balance := y\<rparr>)"
    using a(1) b(1) assms(2) unfolding history_kept_def by blast
  with a b valid show ?thesis by (simp add: authorized_def)
qed

lemma asked_for_later: "asked_for E sk c d j \<Longrightarrow> history_kept E d d' \<Longrightarrow> asked_for E sk c d' j"
  unfolding asked_for_def using authorized_later by blast

text \<open>No transaction at all.\<close>

abbreviation no_transaction :: "'r proc \<Rightarrow> bool" where
  "no_transaction \<equiv> keeps (\<lambda>_ _. True) (\<lambda>_. False)"

text \<open>
  A process that begins one transaction at most, and only if \<open>P\<close> holds of it in the tables as they
  are then, whatever has become of the tables \<open>d\<close> by each of its calls.
\<close>

inductive begins_only :: "env \<Rightarrow> (database \<Rightarrow> job \<Rightarrow> bool) \<Rightarrow> database \<Rightarrow> 'r proc \<Rightarrow> bool" for E P where
  done_begins: "begins_only E P d (Done r)"
| call_begins: "(\<And>w. history_kept E d (db w) \<Longrightarrow> begins_only E P (db (snd (f w))) (fst (f w))) \<Longrightarrow>
    begins_only E P d (Call f)"
| transact_begins: "P d j \<Longrightarrow> (\<And>r. no_transaction (k r)) \<Longrightarrow> begins_only E P d (Transact j k)"

inductive_cases begins_only_CallE: "begins_only E P d (Call f)"
inductive_cases begins_only_TransactE: "begins_only E P d (Transact j k)"

lemma begins_only_later:
  assumes "begins_only E P d p" and "history_kept E d d'" and "\<And>d d' j. P d j \<Longrightarrow> history_kept E d d' \<Longrightarrow> P d' j"
  shows "begins_only E P d' p"
  using assms(1)
proof cases
  case (call_begins f)
  then show ?thesis using assms(2) by (auto intro: begins_only.call_begins hist.Q_trans)
qed (use assms in \<open>auto intro: begins_only.intros\<close>)

lemma begins_only_calling:
  "(\<And>w x w'. history_kept E d (db w) \<Longrightarrow> run m w = (x, w') \<Longrightarrow> begins_only E P (db w') (k x)) \<Longrightarrow>
   begins_only E P d (calling m k)"
  unfolding calling_def by (rule call_begins) (auto split: prod.split)

lemma begins_none: "no_transaction p \<Longrightarrow> begins_only E P d p"
proof (induction p arbitrary: d rule: keeps.induct)
  case (call_keeps f)
  then show ?case by (auto intro: call_begins)
qed (auto intro: done_begins)

lemma begins_only_map: "begins_only E P d p \<Longrightarrow> begins_only E P d (map_proc f p)"
proof (induction rule: begins_only.induct)
  case (transact_begins d j k)
  have "no_transaction ((map_proc f \<circ> k) r)" for r using keeps_map [OF transact_begins(2)] by simp
  with transact_begins(1) show ?case by (simp add: begins_only.transact_begins)
qed (auto intro: begins_only.intros)

section \<open>The handler of transfers\<close>

lemma read_account_db:
  "run (GetAccount E i) w = (x, w') \<Longrightarrow> db w' = db w \<and> (\<forall>a. x = Inr a \<longrightarrow> lookup Account_ID i (accounts (db w)) = Some a)"
  by (auto simp: GetAccount_def sql_GetAccount_def run_query split: fault.splits option.splits)

lemma begins_validAccount:
  assumes "\<And>d' a. history_kept E d d' \<Longrightarrow> lookup Account_ID i (accounts d') = Some a \<Longrightarrow> Account_Currency a = cur \<Longrightarrow>
      begins_only E P d' (script_proc E (k a))"
  shows "begins_only E P d (script_proc E (validAccount_script i cur k))"
  unfolding validAccount_script_def script_proc.simps
  by (rule begins_only_calling) (use assms read_account_db in \<open>fastforce split: sum.splits intro: done_begins\<close>)

lemma no_transaction_calling: "(\<And>x. no_transaction (k x)) \<Longrightarrow> no_transaction (calling m k)"
  by (rule keeps_calling) (simp_all add: alwaysI on_db_def)

lemma after_no_transaction:
  "no_transaction (script_proc E (after_keyed req owner key fp r))" "no_transaction (script_proc E (after_plain req r))"
proof -
  have "no_transaction (script_proc E (replay_script owner key fp))"
    unfolding replay_script_def script_proc.simps
    by (rule no_transaction_calling) (simp add: done_keeps split: sum.split)
  then show "no_transaction (script_proc E (after_keyed req owner key fp r))" "no_transaction (script_proc E (after_plain req r))"
    by (auto simp: after_keyed_def after_plain_def done_keeps split: sum.split error.split)
qed

lemma begins_createTransfer:
  assumes token: "bearer_token auth = Some tok" "paseto_Decrypt E tok sk = Inr p"
  shows "begins_only E (asked_for E sk (Http (PostTransfers auth key body))) d (createTransfer_proc E p key body)"
    (is "begins_only E ?P d _")
proof (cases "ShouldBind transferRequest_valid body")
  case (Inl e)
  then show ?thesis by (simp add: createTransfer_proc_def createTransfer_script_def done_begins)
next
  case (Inr req)
  then have body: "body = Some req" "transferRequest_valid req"
    by (auto simp: ShouldBind_def split: option.splits if_splits)
  let ?from = "transferRequest_FromAccountID req" and ?to = "transferRequest_ToAccountID req"
  have job: "?P d2 (transfer_job E p key req)"
    if checked: "?from \<noteq> ?to" "lookup Account_ID ?from (accounts d1) = Some a" "Account_Currency a = transferRequest_Currency req"
      "Account_Owner a = Payload_Username p" "history_kept E d1 d2"
      "lookup Account_ID ?to (accounts d2) = Some b" "Account_Currency b = transferRequest_Currency req" for d1 d2 a b
  proof -
    obtain x where "lookup Account_ID ?from (accounts d2) = Some (a\<lparr>Account_Balance := x\<rparr>)"
      using checked(2,5) unfolding history_kept_def by blast
    with checked body have "authorized p req d2" by (simp add: authorized_def)
    with token body show ?thesis unfolding asked_for_def by blast
  qed
  show ?thesis
    unfolding createTransfer_proc_def createTransfer_script_def Inr sum.case
    by (auto simp: Let_def createTransferIdempotent_script_def transfer_params_def [symmetric]
      intro!: begins_validAccount done_begins transact_begins after_no_transaction)
      (use job in \<open>fastforce simp: transfer_job_def\<close>)+
qed

section \<open>Every request\<close>

lemma keeps_mono:
  "keeps W J p \<Longrightarrow> (\<And>w w'. W w w' \<Longrightarrow> W' w w') \<Longrightarrow> (\<And>j. J j \<Longrightarrow> J' j) \<Longrightarrow> keeps W' J' p"
  by (induction rule: keeps.induct) (auto intro: keeps.intros)

lemma begins_only_const: "begins_only E P d (reply_error code err)"
  by (simp add: reply_error_def done_begins)

lemma transfer_routeE:
  assumes "transfer_route req" obtains auth key body where "req = PostTransfers auth key body"
  using assms by (cases req) (auto simp: transfer_route_def)

lemma begins_handle:
  assumes maker: "Server_tokenMaker srv = PasetoMaker E sk"
  shows "begins_only E (asked_for E sk c) d (handle_proc E srv c)"
proof (cases "\<exists>req. c = Http req \<and> transfer_route req")
  case True
  then obtain auth key body where c: "c = Http (PostTransfers auth key body)"
    by (blast elim: transfer_routeE)
  have "begins_only E (asked_for E sk c) d (authMiddleware_proc (PasetoMaker E sk) auth (\<lambda>p. createTransfer_proc E p key body))"
  proof (cases "bearer_token auth")
    case None
    then show ?thesis using authMiddleware_proc_refused by (metis begins_only_const)
  next
    case (Some tok)
    show ?thesis
      unfolding authMiddleware_proc_bearer [OF Some] c
      by (rule begins_only_calling)
        (auto simp: PasetoMaker_def run_paseto_VerifyToken split: sum.splits if_splits
          intro: begins_only_const begins_createTransfer [OF Some])
  qed
  then show ?thesis using maker by (simp add: c handle_proc.simps begins_only_map)
next
  case False
  then have "keeps (on_db aside) (\<lambda>_. False) (handle_proc E srv c)"
    by (intro aside_api.calls.handle_proc_keeps [OF maker]) blast
  then show ?thesis by (intro begins_none) (auto intro: keeps_mono)
qed

text \<open>A task that has begun no transaction may begin one that was asked for; else it begins none any more.\<close>

definition serves :: "env \<Rightarrow> string \<Rightarrow> cluster \<Rightarrow> nat \<Rightarrow> task \<Rightarrow> bool" where
  "serves E sk K i t = (case t of
     Running p \<Rightarrow> begins_only E (asked_for E sk (arrived K ! i)) (tables K) p \<and> i \<notin> set (begun_by K) \<or> no_transaction p
   | Waiting n k \<Rightarrow> n < length (begun K) \<and> begun_by K ! n = i \<and> (\<forall>r. no_transaction (k r)))"

definition entitled :: "env \<Rightarrow> string \<Rightarrow> cluster \<Rightarrow> bool" where
  "entitled E sk K \<longleftrightarrow> length (tasks K) = length (arrived K) \<and> length (begun_by K) = length (begun K) \<and>
     distinct (begun_by K) \<and> (\<forall>i \<in> set (begun_by K). i < length (arrived K)) \<and>
     (\<forall>i < length (tasks K). serves E sk K i (tasks K ! i)) \<and>
     (\<forall>n < length (begun K). asked_for E sk (arrived K ! (begun_by K ! n)) (tables K) (snd (begun K ! n)))"

lemma serves_simps [simp]:
  "serves E sk K i (Running p) \<longleftrightarrow>
     begins_only E (asked_for E sk (arrived K ! i)) (tables K) p \<and> i \<notin> set (begun_by K) \<or> no_transaction p"
  "serves E sk K i (Waiting n k) \<longleftrightarrow> n < length (begun K) \<and> begun_by K ! n = i \<and> (\<forall>r. no_transaction (k r))"
  by (simp_all add: serves_def)

lemma serves_later:
  assumes "serves E sk K i t" and "history_kept E (tables K) (tables K')"
    and "arrived K' ! i = arrived K ! i" "begun K' = begun K" "begun_by K' = begun_by K"
  shows "serves E sk K' i t"
  using assms begins_only_later [OF _ assms(2) asked_for_later] by (cases t) auto

lemma entitledD: "entitled E sk K \<Longrightarrow> i < length (tasks K) \<Longrightarrow> tasks K ! i = t \<Longrightarrow> serves E sk K i t"
  by (auto simp: entitled_def)

text \<open>A step of task \<open>i\<close>, or of none, that begins no transaction.\<close>

lemma entitled_update:
  assumes ok: "entitled E sk K" and later: "history_kept E (tables K) (tables K')"
    and same: "arrived K' = arrived K" "begun K' = begun K" "begun_by K' = begun_by K"
    and tasks: "tasks K' = (tasks K)[i := t]" and t: "i < length (tasks K) \<Longrightarrow> serves E sk K' i t"
  shows "entitled E sk K'"
proof -
  have "serves E sk K' j (tasks K' ! j)" if "j < length (tasks K')" for j
  proof (cases "j = i")
    case True
    with that t tasks show ?thesis by simp
  next
    case False
    with that ok tasks have "serves E sk K j (tasks K' ! j)" by (simp add: entitled_def)
    then show ?thesis by (rule serves_later) (use later same in simp_all)
  qed
  moreover have "asked_for E sk (arrived K' ! (begun_by K' ! n)) (tables K') (snd (begun K' ! n))"
    if "n < length (begun K')" for n
    using ok that asked_for_later [OF _ later] by (simp add: entitled_def same)
  ultimately show ?thesis using ok by (simp add: entitled_def same tasks)
qed

lemma entitled_step:
  assumes "serve_step E srv K K'" and maker: "Server_tokenMaker srv = PasetoMaker E sk"
    and later: "history_kept E (tables K) (tables K')" and ok: "entitled E sk K"
  shows "entitled E sk K'"
  using assms(1)
proof cases
  case (arrives c)
  let ?n = "length (tasks K)"
  have "serves E sk K' i (tasks K' ! i)" if "i < length (tasks K')" for i
  proof (cases "i = ?n")
    case True
    with ok show ?thesis by (auto simp: arrives(1) entitled_def nth_append begins_handle [OF maker])
  next
    case False
    with that ok have "i < ?n" "serves E sk K i (tasks K ! i)" by (simp_all add: arrives(1) entitled_def)
    with serves_later [OF this(2) later] ok show ?thesis by (simp add: arrives(1) entitled_def nth_append)
  qed
  moreover have "arrived K' ! (begun_by K ! n) = arrived K ! (begun_by K ! n)" if "n < length (begun K)" for n
    using ok that by (simp add: arrives(1) entitled_def nth_append)
  ultimately show ?thesis using ok by (simp add: arrives(1) entitled_def less_SucI)
next
  case works
  then show ?thesis
  proof cases
    case (proceeds i f p w)
    have "serves E sk K i (Running (Call f))" by (rule entitledD [OF ok proceeds(2,3)])
    moreover have "begins_only E P (tables K') p" if "begins_only E P (tables K) (Call f)" for P
      using that
    proof cases
      case call_begins
      from this [of "at_committed K"] show ?thesis by (simp add: proceeds(1,4) hist.Q_refl)
    qed
    moreover have "no_transaction p" if "no_transaction (Call f)"
      using that
    proof cases
      case call_keeps
      from this(2) [of "at_committed K"] show ?thesis by (simp add: proceeds(4))
    qed
    ultimately show ?thesis
      by (intro entitled_update [OF ok later, of i "Running p"]) (auto simp: proceeds(1))
  next
    case (begins i j k now)
    have "serves E sk K i (Running (Transact j k))" by (rule entitledD [OF ok begins(2,3)])
    then have j: "asked_for E sk (arrived K ! i) (tables K) j" "\<And>r. no_transaction (k r)" "i \<notin> set (begun_by K)"
      by (auto elim: begins_only_TransactE keeps_TransactE)
    have "serves E sk K' l (tasks K' ! l)" if "l < length (tasks K')" for l
    proof (cases "l = i")
      case True
      with that j ok show ?thesis by (simp add: begins(1) entitled_def nth_append)
    next
      case False
      with that ok have "serves E sk K l (tasks K ! l)" by (simp add: begins(1) entitled_def)
      with False ok show ?thesis by (cases "tasks K ! l") (auto simp: begins(1) entitled_def nth_append)
    qed
    with ok j begins(2) show ?thesis by (auto simp: begins(1) entitled_def nth_append less_Suc_eq)
  next
    case (refused i j k t m)
    have "serves E sk K i (Running (Transact j k))" by (rule entitledD [OF ok refused(2,3)])
    then have "no_transaction (k r)" for r by (auto elim: begins_only_TransactE keeps_TransactE)
    then show ?thesis
      by (intro entitled_update [OF ok later, of i "Running (k (Inl (OtherErr m)))"]) (auto simp: refused(1))
  next
    case (transacts S)
    have "serves E sk K' i (tasks K ! i)" if "i < length (tasks K)" for i
      using ok that by (intro serves_later [OF _ later]) (simp_all add: transacts(1) entitled_def)
    then show ?thesis
      by (intro entitled_update [OF ok later, of 0 "tasks K ! 0"]) (auto simp: transacts(1))
  next
    case (returns i n k r)
    have "serves E sk K i (Waiting n k)" by (rule entitledD [OF ok returns(2,3)])
    then show ?thesis
      by (intro entitled_update [OF ok later, of i "Running (k r)"]) (auto simp: returns(1))
  qed
qed

section \<open>Answers that say the money has moved\<close>

definition says_moved :: "response \<Rightarrow> bool" where
  "says_moved rsp \<longleftrightarrow> status rsp = 200 \<and> \<not> replay_header rsp"

definition reply_moved :: "reply \<Rightarrow> bool" where
  "reply_moved r \<longleftrightarrow> (case r of HttpReply rsp \<Rightarrow> says_moved rsp | GrpcReply _ \<Rightarrow> False)"

lemma not_says_moved [simp]: "code \<noteq> 200 \<Longrightarrow> \<not> says_moved (error_response code err)" "\<not> says_moved (replay_answer fp row)"
  by (simp_all add: says_moved_def replay_answer_def)

abbreviation after_transfer :: "(reply \<Rightarrow> bool) \<Rightarrow> task \<Rightarrow> bool" where
  "after_transfer \<equiv> task_after (\<lambda>_ _. False) (\<lambda>_. True)"

lemma moved_validAccount:
  "(\<And>a. only_after C T says_moved (script_proc E (k a))) \<Longrightarrow>
   only_after C T says_moved (script_proc E (validAccount_script i cur k))"
  unfolding validAccount_script_def script_proc.simps
  by (rule only_after_calling) (auto simp: done_after split: sum.split)

lemma moved_after:
  "(\<exists>x. r = Inr x) \<or> only_after C T says_moved (script_proc E (after_keyed req owner key fp r))"
  "(\<exists>x. r = Inr x) \<or> only_after C T says_moved (script_proc E (after_plain req r))"
proof -
  have "only_after C T says_moved (script_proc E (replay_script owner key fp))"
    unfolding replay_script_def script_proc.simps
    by (rule only_after_calling) (auto simp: done_after split: sum.split)
  then show "(\<exists>x. r = Inr x) \<or> only_after C T says_moved (script_proc E (after_keyed req owner key fp r))"
    "(\<exists>x. r = Inr x) \<or> only_after C T says_moved (script_proc E (after_plain req r))"
    by (auto simp: after_keyed_def after_plain_def done_after split: sum.split error.split)
qed

lemma moved_createTransfer: "only_after C (\<lambda>_. True) says_moved (createTransfer_proc E p key body)"
proof (cases "ShouldBind transferRequest_valid body")
  case (Inl e)
  then show ?thesis by (simp add: createTransfer_proc_def createTransfer_script_def done_after)
next
  case (Inr req)
  then show ?thesis
    unfolding createTransfer_proc_def createTransfer_script_def
    by (auto simp: Let_def createTransferIdempotent_script_def intro!: moved_validAccount done_after transact_after)
      (use moved_after in blast)+
qed

lemma moved_handle:
  assumes "Server_tokenMaker srv = PasetoMaker E sk" and "transfer_route req"
  shows "after_transfer reply_moved (Running (handle_proc E srv (Http req)))"
proof -
  obtain auth key body where "req = PostTransfers auth key body" using assms(2) by (rule transfer_routeE)
  with assms(1) show ?thesis
    by (auto simp: handle_proc.simps reply_moved_def
      intro!: only_after_map authMiddleware_only_after moved_createTransfer)
qed

lemma finish_committed_by: "committed_by (finish S i c r) = (if c then committed_by S @ [i] else committed_by S)"
  by (simp add: finish_def Let_def)

lemma act_committed_by:
  assumes "act S S'" shows "set (committed_by S) \<subseteq> set (committed_by S')"
  using assms
proof (cases rule: act_cases)
  case (statement i)
  obtain p ws d where "perform (tx_prog (txs S ! i)) (tx_now (txs S ! i))
      (view (committed S) (tx_writes (txs S ! i))) = (p, ws, d)"
    by (metis prod_cases3)
  from run_statement_sel(3) [OF this] statement(5) show ?thesis by simp
qed (auto simp: finish_committed_by)

text \<open>The transaction of request \<open>i\<close> has committed.\<close>

definition moved_for :: "cluster \<Rightarrow> nat \<Rightarrow> bool" where
  "moved_for K i \<longleftrightarrow> (\<exists>n \<in> set (committed_by (engine K)). n < length (begun_by K) \<and> begun_by K ! n = i)"

lemma moved_for_step:
  assumes "serve_step E s K K'" and "moved_for K i"
  shows "moved_for K' i"
  using assms(1)
proof cases
  case works
  then show ?thesis
  proof cases
    case (transacts S)
    with assms(2) act_committed_by [of "engine K" S] show ?thesis by (auto simp: moved_for_def)
  qed (use assms(2) in \<open>auto simp: moved_for_def nth_append\<close>)
qed (use assms(2) in \<open>simp add: moved_for_def\<close>)

definition transfers_paid :: "cluster \<Rightarrow> bool" where
  "transfers_paid K \<longleftrightarrow> (\<forall>i < length (tasks K). \<forall>req. arrived K ! i = Http req \<longrightarrow> transfer_route req \<longrightarrow>
     after_transfer reply_moved (tasks K ! i) \<or> moved_for K i)"

lemma transfers_paid_step:
  assumes st: "serve_step E srv K K'" and maker: "Server_tokenMaker srv = PasetoMaker E sk"
    and ent: "entitled E sk K" and once: "once d (begun K) (engine K)" and ok: "transfers_paid K"
  shows "transfers_paid K'"
  unfolding transfers_paid_def
proof (intro allI impI)
  fix i req
  assume i: "i < length (tasks K')" and req: "arrived K' ! i = Http req" "transfer_route req"
  have len: "length (tasks K) = length (arrived K)" "length (begun_by K) = length (begun K)"
    using ent by (simp_all add: entitled_def)
  show "after_transfer reply_moved (tasks K' ! i) \<or> moved_for K' i"
  proof (cases "i < length (tasks K)")
    case True
    have "arrived K ! i = arrived K' ! i"
      using st True len(1) by (auto elim!: serve_stepE work_stepE simp: nth_append)
    with ok req True have "after_transfer reply_moved (tasks K ! i) \<or> moved_for K i"
      by (auto simp: transfers_paid_def)
    then show ?thesis
    proof
      assume "after_transfer reply_moved (tasks K ! i)"
      with st True show ?thesis
      proof (cases rule: task_after_step)
        case (returned n k x)
        have "serves E sk K i (Waiting n k)" by (rule entitledD [OF ent True returned(1)])
        then have n: "n < length (begun K)" "begun_by K ! n = i" by simp_all
        then have "n \<in> set (committed_by (engine K))" using once returned(2) unfolding once_def by blast
        with n len(2) have "moved_for K i" by (auto simp: moved_for_def)
        with st show ?thesis by (blast intro: moved_for_step)
      qed blast+
    qed (blast intro: moved_for_step [OF st])
  next
    case False
    with st i obtain c where "K' = K\<lparr>tasks := tasks K @ [Running (handle_proc E srv c)], arrived := arrived K @ [c]\<rparr>"
      by (auto elim!: serve_stepE work_stepE)
    with False i req len(1) moved_handle [OF maker] show ?thesis
      by (auto simp: nth_append less_Suc_eq)
  qed
qed

section \<open>Runs\<close>

definition lawful_run :: "env \<Rightarrow> string \<Rightarrow> database \<Rightarrow> cluster \<Rightarrow> bool" where
  "lawful_run E sk d K \<longleftrightarrow> sound E d K \<and> entitled E sk K \<and> transfers_paid K"

lemma lawful_run_open: "db_ok (db w) \<Longrightarrow> rows_complete (db w) \<Longrightarrow> lawful_run E sk (db w) (open_server w)"
  using sound_open [of w E] by (simp add: lawful_run_def entitled_def transfers_paid_def) (simp add: open_server_def)

lemma tasks_keep_any:
  assumes "(serve_step E srv)\<^sup>*\<^sup>* (open_server w) K" and "Server_tokenMaker srv = PasetoMaker E sk"
    and "json_documented E" "db_ok (db w)" "rows_complete (db w)"
  shows "tasks_keep (history_kept E) K"
proof -
  have "tasks_keep (history_kept E) (open_server w)" by (simp add: tasks_keep_def open_server_def)
  with hist_open.run_rel [OF assms(1,2) refl assms(3) sound_open [OF assms(4,5)]] show ?thesis by blast
qed

lemma open_lawful:
  assumes "(serve_step E srv)\<^sup>*\<^sup>* (open_server w) K" and "Server_tokenMaker srv = PasetoMaker E sk"
    and "json_documented E" "db_ok (db w)" "rows_complete (db w)"
  shows "lawful_run E sk (db w) K"
  using assms(1)
proof (induction rule: rtranclp_induct)
  case base
  show ?case using assms(4,5) by (rule lawful_run_open)
next
  case (step L N)
  have ok: "sound E (db w) L" "entitled E sk L" "transfers_paid L" using step(3) by (simp_all add: lawful_run_def)
  have once: "once (db w) (begun L) (engine L)" using ok(1) by (simp add: sound_def settled_def)
  have "history_kept E (tables L) (tables N)"
    by (rule hist_open.step_rel [OF step(2) assms(2,3) ok(1) tasks_keep_any [OF step(1) assms(2-5)]])
  with ok once show ?case
    unfolding lawful_run_def
    using sound_step [OF step(2) assms(2)] entitled_step [OF step(2) assms(2)]
      transfers_paid_step [OF step(2) assms(2) ok(2) once] assms(3) by blast
qed

text \<open>
  C1: Everything that both servers do to the balances, under any concurrency, is a sequence of transfers that
  were asked for. However requests arrive, their calls and statements interleave and connections
  fail, the balances are at any moment those of the committed transfers, made one after another, with the
  accounts opened meanwhile starting at 0. Each of these is the transfer of its own request, whose token
  decrypts under the key of the server and names the owner of the account to debit; a request commits at most one, a key at most one;
  and a request that is answered 200, other than by the replay of a stored answer, has committed its own.
\<close>

theorem server_serial:
  assumes "Server_tokenMaker srv = PasetoMaker E sk" and "json_documented E" "db_ok (db w)" "rows_complete (db w)"
    and "(serve_step E srv)\<^sup>*\<^sup>* (open_server w) K"
  shows "serial (map (\<lambda>n. job_transfer (snd (begun K ! n))) (committed_by (engine K))) (abs_ledger (opened (db w) (tables K))) =
      Some (abs_ledger (tables K)) \<and>
    distinct (map (\<lambda>n. begun_by K ! n) (committed_by (engine K))) \<and> distinct (committed_keys (begun K) (engine K)) \<and>
    (\<forall>n \<in> set (committed_by (engine K)).
      asked_for E sk (arrived K ! (begun_by K ! n)) (tables K) (snd (begun K ! n))) \<and>
    (\<forall>i < length (tasks K). \<forall>auth key body rsp. arrived K ! i = Http (PostTransfers auth key body) \<longrightarrow>
      tasks K ! i = Running (Done (HttpReply rsp)) \<longrightarrow> status rsp = 200 \<longrightarrow> \<not> replay_header rsp \<longrightarrow>
      (\<exists>n \<in> set (committed_by (engine K)). begun_by K ! n = i))"
proof -
  have law: "lawful_run E sk (db w) K" using assms(5,1-4) by (rule open_lawful)
  then have ser: "serialized (opened (db w) (tables K)) (begun K) (engine K)" and once: "once (db w) (begun K) (engine K)"
    and ent: "entitled E sk K" and paid: "transfers_paid K"
    by (simp_all add: lawful_run_def sound_def settled_def balanced_def)
  have serial: "serial (map (\<lambda>n. job_transfer (snd (begun K ! n))) (committed_by (engine K)))
      (abs_ledger (opened (db w) (tables K))) = Some (abs_ledger (tables K))"
    using ser by (simp add: serialized_def committed_args_def)
  have com: "distinct (committed_by (engine K))" "\<forall>n \<in> set (committed_by (engine K)). n < length (begun K)"
    "distinct (committed_keys (begun K) (engine K))"
    using once by (simp_all add: once_def)
  have beg: "distinct (begun_by K)" "length (begun_by K) = length (begun K)" using ent by (simp_all add: entitled_def)
  have "inj_on (\<lambda>n. begun_by K ! n) (set (committed_by (engine K)))"
    using beg com(2) by (auto simp: inj_on_def nth_eq_iff_index_eq)
  with com(1) have "distinct (map (\<lambda>n. begun_by K ! n) (committed_by (engine K)))" by (simp add: distinct_map)
  moreover have "\<exists>n \<in> set (committed_by (engine K)). begun_by K ! n = i"
    if answered: "i < length (tasks K)" "arrived K ! i = Http (PostTransfers auth key body)"
      "tasks K ! i = Running (Done (HttpReply rsp))" "status rsp = 200" "\<not> replay_header rsp" for i auth key body rsp
  proof -
    have "transfer_route (PostTransfers auth key body)" by (simp add: transfer_route_def)
    with paid answered have "after_transfer reply_moved (tasks K ! i) \<or> moved_for K i" by (auto simp: transfers_paid_def)
    with answered show ?thesis by (auto simp: moved_for_def only_after_Done reply_moved_def says_moved_def)
  qed
  moreover have "asked_for E sk (arrived K ! (begun_by K ! n)) (tables K) (snd (begun K ! n))"
    if "n \<in> set (committed_by (engine K))" for n
    using ent com(2) that by (simp add: entitled_def)
  ultimately show ?thesis using serial com(3) by blast
qed

theorem server_serial_witness:
  "\<exists>K. (serve_step example_env example_server)\<^sup>*\<^sup>* (open_server example_world) K \<and>
     committed_by (engine K) = [0] \<and> begun_by K = [0, 1] \<and>
     asked_for example_env ''key'' (hd (arrived K)) (tables K) (snd (begun K ! 0)) \<and>
     serial [job_transfer (snd (begun K ! 0))] (abs_ledger (opened example_db (tables K))) = Some (abs_ledger (tables K))"
proof -
  obtain K where K: "(serve_step example_env example_server)\<^sup>*\<^sup>* (open_server example_world) K" "example_end K"
    "arrived K = example_arrivals" "begun_by K = [0, 1]"
    by (rule example_played)
  have ok: "db_ok (db example_world)" "rows_complete (db example_world)" using example_db_ok example_documented(2) by simp_all
  note S = server_serial [OF example_server_maker example_documented(1) ok K(1)]
  have com: "committed_by (engine K) = [0]" using K(2) by (simp add: example_end_def)
  have "asked_for example_env ''key'' (hd (arrived K)) (tables K) (snd (begun K ! 0))"
    using S by (simp add: com K(3,4) example_arrivals_def)
  moreover have "serial [job_transfer (snd (begun K ! 0))] (abs_ledger (opened example_db (tables K))) = Some (abs_ledger (tables K))"
    using conjunct1 [OF S] by (simp only: com list.map example_world_simps)
  ultimately show ?thesis using K(1,4) com by blast
qed

end
