(* ===== verification/Server_Races.thy ===== *)
theory Server_Races
  imports Server_Ledger
begin

text \<open>
  What requests that race under one idempotency key are answered, in any run of both servers: an answer
  200 is what the row of the key says, so all of them agree, and none is told to come back later. What a
  request is answered follows from the result of its transaction, so that the invariant
  remembers that result, which the handler itself forgets.
\<close>

section \<open>Answers that agree with the tables\<close>

text \<open>What the result of a transaction says about the tables.\<close>

definition reported :: "env \<Rightarrow> job \<Rightarrow> error + TransferTxResult \<Rightarrow> database \<Rightarrow> bool" where
  "reported E j r d = (case r of Inr x \<Rightarrow> answer_stored E d j x | Inl e \<Rightarrow> unique_error e \<longrightarrow> key_found d j)"

text \<open>
  \<open>told E ok d res p\<close>: if the tables are \<open>d\<close>, and \<open>res\<close> is the result of the last transaction, and
  whatever becomes of the tables by each call of \<open>p\<close>, it ends with an answer that is \<open>ok\<close> for the
  tables and the result then. The result is a ghost: a process does not keep it.
\<close>

type_synonym outcome = "(error + TransferTxResult) option"

inductive told :: "env \<Rightarrow> (database \<Rightarrow> outcome \<Rightarrow> 'r \<Rightarrow> bool) \<Rightarrow> database \<Rightarrow> outcome \<Rightarrow> 'r proc \<Rightarrow> bool" for E ok where
  done_told: "ok d res r \<Longrightarrow> told E ok d res (Done r)"
| call_told: "(\<And>w. history_kept E d (db w) \<Longrightarrow> rows_complete (db w) \<Longrightarrow> told E ok (db (snd (f w))) res (fst (f w))) \<Longrightarrow>
    told E ok d res (Call f)"
| transact_told: "(\<And>d' r. history_kept E d d' \<Longrightarrow> reported E j r d' \<Longrightarrow> told E ok d' (Some r) (k r)) \<Longrightarrow>
    told E ok d res (Transact j k)"

inductive_simps told_Done: "told E ok d res (Done r)"
inductive_cases told_CallE: "told E ok d res (Call f)"
inductive_cases told_TransactE: "told E ok d res (Transact j k)"

definition lasting :: "env \<Rightarrow> (database \<Rightarrow> outcome \<Rightarrow> 'r \<Rightarrow> bool) \<Rightarrow> bool" where
  "lasting E ok \<longleftrightarrow> (\<forall>d d' res r. ok d res r \<longrightarrow> history_kept E d d' \<longrightarrow> ok d' res r)"

lemma told_later:
  assumes "told E ok d res p" and "history_kept E d d'" and "lasting E ok"
  shows "told E ok d' res p"
  using assms(1)
proof cases
  case (done_told r)
  with assms(2,3) show ?thesis by (auto simp: lasting_def intro: told.done_told)
next
  case (call_told f)
  then show ?thesis using assms(2) by (auto intro: told.call_told hist.Q_trans)
next
  case (transact_told j k)
  then show ?thesis using assms(2) by (auto intro: told.transact_told hist.Q_trans)
qed

lemma told_calling:
  "(\<And>w x w'. history_kept E d (db w) \<Longrightarrow> rows_complete (db w) \<Longrightarrow> run m w = (x, w') \<Longrightarrow> told E ok (db w') res (k x)) \<Longrightarrow>
   told E ok d res (calling m k)"
  unfolding calling_def by (rule call_told) (auto split: prod.split)

lemma told_map: "told E (\<lambda>d res r. ok d res (f r)) d res p \<Longrightarrow> told E ok d res (map_proc f p)"
  by (induction rule: told.induct) (auto intro: told.intros)

section \<open>The handler under a key\<close>

text \<open>An answer under key \<open>pk\<close> to a request with fingerprint \<open>fp\<close>.\<close>

definition key_answer :: "env \<Rightarrow> string \<times> string \<Rightarrow> string \<Rightarrow> database \<Rightarrow> response \<Rightarrow> bool" where
  "key_answer E pk fp d rsp \<longleftrightarrow>
     (status rsp = 200 \<longrightarrow> (\<exists>row. lookup key_of pk (idempotency_keys d) = Some row \<and>
        IdempotencyKey_RequestHash row = fp \<and> content E rsp = Inr (IdempotencyKey_ResponseBody row))) \<and>
     rsp \<noteq> error_response StatusConflict (Errorf ''Idempotency-Key is still being processed'')"

lemma key_answer_error [simp]:
  "code \<noteq> 200 \<Longrightarrow> code \<noteq> StatusConflict \<Longrightarrow> key_answer E pk fp d (error_response code err)"
  by (auto simp: key_answer_def error_response_def)

lemma key_answer_replay:
  "lookup key_of pk (idempotency_keys d) = Some row \<Longrightarrow> IdempotencyKey_ResponseBody row \<noteq> '''' \<Longrightarrow>
   key_answer E pk fp d (replay_answer fp row)"
  by (simp add: key_answer_def replay_answer_def content_def) (simp add: error_response_def)

text \<open>
  The answer to \<open>req\<close> when its transaction had the result \<open>r\<close>. Only a plain unique violation has the
  handler look at the row of the key; an error it cannot read, like the one \<open>execTx\<close> makes of a
  failed rollback, is answered with 500.
\<close>

definition overdrawn :: "error \<Rightarrow> bool" where
  "overdrawn e \<longleftrightarrow> (\<exists>name. e = PqError name ''accounts_balance_non_negative'')"

definition answer_of ::
    "string \<times> string \<Rightarrow> string \<Rightarrow> transferRequest \<Rightarrow> database \<Rightarrow> error + TransferTxResult \<Rightarrow> response \<Rightarrow> bool" where
  "answer_of pk fp req d r rsp = (case r of
     Inr x \<Rightarrow> rsp = \<lparr>status = StatusOK, replay_header = False, resp_body = TransferBody x\<rparr>
   | Inl e \<Rightarrow>
       if unique_error e then \<exists>row. lookup key_of pk (idempotency_keys d) = Some row \<and>
         IdempotencyKey_ResponseBody row \<noteq> '''' \<and>
         ((\<exists>m. rsp = error_response StatusInternalServerError (OtherErr m)) \<or> rsp = replay_answer fp row)
       else rsp = (if overdrawn e
         then error_response StatusBadRequest (insufficient_balance (transferRequest_FromAccountID req))
         else error_response StatusInternalServerError e))"

definition keyed_ok ::
    "env \<Rightarrow> string \<times> string \<Rightarrow> transferRequest \<Rightarrow> database \<Rightarrow> outcome \<Rightarrow> response \<Rightarrow> bool" where
  "keyed_ok E pk req d res rsp \<longleftrightarrow> key_answer E pk (requestFingerprint E req) d rsp \<and>
     (\<forall>r. res = Some r \<longrightarrow> answer_of pk (requestFingerprint E req) req d r rsp)"

lemma row_lasting:
  "lookup key_of pk (idempotency_keys d) = Some row \<Longrightarrow> history_kept E d d' \<Longrightarrow>
   lookup key_of pk (idempotency_keys d') = Some row"
  unfolding history_kept_def by blast

lemma keyed_ok_lasting: "lasting E (keyed_ok E pk req)"
  unfolding lasting_def keyed_ok_def key_answer_def answer_of_def
  by (fastforce dest: row_lasting split: sum.splits)

lemma told_early:
  "code \<noteq> 200 \<Longrightarrow> code \<noteq> StatusConflict \<Longrightarrow> told E (keyed_ok E pk req) d None (Done (error_response code err))"
  by (simp add: told_Done keyed_ok_def)

lemma told_validAccount:
  assumes "\<And>d' a. told E (keyed_ok E pk req) d' None (script_proc E (k a))"
  shows "told E (keyed_ok E pk req) d None (script_proc E (validAccount_script i cur k))"
  unfolding validAccount_script_def script_proc.simps
  by (rule told_calling) (auto simp: assms told_early split: sum.split)

text \<open>The row of the key is there, so the lookup finds it or loses its connection.\<close>

lemma read_found_key:
  assumes "run (GetIdempotencyKey E pk) w = (x, w')" and "lookup key_of pk (idempotency_keys (db w)) = Some row"
  shows "db w' = db w \<and> (x = Inr row \<or> (\<exists>m. x = Inl (OtherErr m)))"
  using assms by (auto simp: GetIdempotencyKey_def sql_GetIdempotencyKey_def run_query split: fault.splits)

lemma told_replay:
  assumes "unique_error e" and "lookup key_of (owner, key) (idempotency_keys d) = Some row"
  shows "told E (keyed_ok E (owner, key) req) d (Some (Inl e)) (script_proc E (replay_script owner key (requestFingerprint E req)))"
  unfolding replay_script_def script_proc.simps
proof (rule told_calling)
  fix w x w' assume w: "history_kept E d (db w)" "rows_complete (db w)" and run: "run (GetIdempotencyKey E (owner, key)) w = (x, w')"
  have row: "lookup key_of (owner, key) (idempotency_keys (db w)) = Some row" using assms(2) w(1) by (rule row_lasting)
  with w(2) have "IdempotencyKey_ResponseBody row \<noteq> ''''" by (simp add: rows_complete_def)
  with read_found_key [OF run row] row key_answer_replay [OF row this] assms(1)
  show "told E (keyed_ok E (owner, key) req) (db w') (Some (Inl e)) (script_proc E (case x of
      Inl err \<Rightarrow> Answer (error_response StatusInternalServerError err)
    | Inr stored \<Rightarrow> Answer (replay_answer (requestFingerprint E req) stored)))"
    by (auto simp: told_Done keyed_ok_def answer_of_def)
qed

lemma told_after_keyed:
  assumes "reported E j r d" and "job_claim j = Some ((owner, key), requestFingerprint E req)"
  shows "told E (keyed_ok E (owner, key) req) d (Some r) (script_proc E (after_keyed req owner key (requestFingerprint E req) r))"
proof (cases r)
  case (Inr x)
  with assms show ?thesis
    by (auto simp: after_keyed_def told_Done keyed_ok_def answer_of_def key_answer_def reported_def answer_stored_def
        content_def error_response_def)
next
  case (Inl e)
  show ?thesis
  proof (cases "unique_error e")
    case True
    with assms Inl have "(owner, key) \<in> keys d" by (auto simp: reported_def key_found_def)
    then obtain row where "lookup key_of (owner, key) (idempotency_keys d) = Some row"
      using lookup_None_iff [of key_of "(owner, key)" "idempotency_keys d"] by (auto simp: keys_def)
    from told_replay [OF True this] True Inl show ?thesis
      by (auto simp: after_keyed_def unique_error_def split: error.splits)
  next
    case False
    with Inl show ?thesis
      by (auto simp: after_keyed_def told_Done keyed_ok_def answer_of_def overdrawn_def unique_error_def split: error.splits)
  qed
qed

lemma told_createTransfer:
  assumes "key \<noteq> ''''"
  shows "told E (keyed_ok E (Payload_Username p, key) req) d None (createTransfer_proc E p key (Some req))"
proof (cases "ShouldBind transferRequest_valid (Some req)")
  case (Inl e)
  then show ?thesis by (simp add: createTransfer_proc_def createTransfer_script_def told_early)
next
  case (Inr req')
  then have "req' = req" by (simp split: if_splits)
  with Inr assms show ?thesis
    by (auto simp: createTransfer_proc_def createTransfer_script_def Let_def createTransferIdempotent_script_def
      intro!: told_validAccount told_early transact_told) (erule told_after_keyed, simp add: job_claim_def)
qed

text \<open>The request \<open>c\<close> is a transfer of user \<open>u\<close> under a key, with a verified token.\<close>

definition keyed_call :: "env \<Rightarrow> string \<Rightarrow> call \<Rightarrow> string \<times> string \<Rightarrow> transferRequest \<Rightarrow> bool" where
  "keyed_call E sk c pk req \<longleftrightarrow> (\<exists>auth tok p. c = Http (PostTransfers auth (snd pk) (Some req)) \<and> snd pk \<noteq> '''' \<and>
     bearer_token auth = Some tok \<and> paseto_Decrypt E tok sk = Inr p \<and> Payload_Username p = fst pk)"

definition call_answer :: "env \<Rightarrow> string \<Rightarrow> call \<Rightarrow> database \<Rightarrow> outcome \<Rightarrow> reply \<Rightarrow> bool" where
  "call_answer E sk c d res r \<longleftrightarrow> (\<forall>pk req rsp. keyed_call E sk c pk req \<longrightarrow> r = HttpReply rsp \<longrightarrow>
     keyed_ok E pk req d res rsp)"

lemma call_answer_lasting: "lasting E (call_answer E sk c)"
  using keyed_ok_lasting unfolding lasting_def call_answer_def by blast

lemma told_any: "(\<And>d res r. ok d res r) \<Longrightarrow> told E ok d res p"
proof (induction p arbitrary: d res)
  case (Call f)
  have "told E ok e res (fst (f w))" for e w
    by (rule Call(1) [of "f w"]) (auto intro: fsts.intros Call(2))
  then show ?case by (blast intro: call_told)
qed (auto intro: told.intros)

lemma told_handle:
  assumes maker: "Server_tokenMaker srv = PasetoMaker E sk"
  shows "told E (call_answer E sk c) d None (handle_proc E srv c)"
proof (cases "\<exists>pk req. keyed_call E sk c pk req")
  case True
  then obtain auth key req tok p where c: "c = Http (PostTransfers auth key (Some req))" "key \<noteq> ''''"
    and token: "bearer_token auth = Some tok" "paseto_Decrypt E tok sk = Inr p"
    by (auto simp: keyed_call_def)
  have answer: "call_answer E sk c d res (HttpReply rsp) \<longleftrightarrow> keyed_ok E (Payload_Username p, key) req d res rsp" for d res rsp
    using c token by (auto simp: call_answer_def keyed_call_def)
  have "told E (keyed_ok E (Payload_Username p, key) req) d None
      (authMiddleware_proc (PasetoMaker E sk) auth (\<lambda>p. createTransfer_proc E p key (Some req)))"
    unfolding authMiddleware_proc_bearer [OF token(1)]
    by (rule told_calling)
      (auto simp: PasetoMaker_def run_paseto_VerifyToken token(2) reply_error_def told_early split: if_splits
        intro: told_createTransfer [OF c(2)])
  then show ?thesis
    using maker by (simp add: c(1) handle_proc.simps told_map [where f = HttpReply] answer [unfolded c(1)])
next
  case False
  then show ?thesis by (intro told_any) (simp add: call_answer_def)
qed

section \<open>The invariant\<close>

text \<open>
  If request \<open>i\<close> goes on, the result remembered for it is that of its transaction, when it has begun
  one.
\<close>

definition result_is :: "cluster \<Rightarrow> nat \<Rightarrow> outcome \<Rightarrow> bool" where
  "result_is K i res \<longleftrightarrow> (\<forall>n < length (begun K). begun_by K ! n = i \<longrightarrow>
     res \<noteq> None \<and> tx_result (txs (engine K) ! n) = res)"

definition task_told :: "env \<Rightarrow> string \<Rightarrow> cluster \<Rightarrow> nat \<Rightarrow> task \<Rightarrow> bool" where
  "task_told E sk K i t = (case t of
     Running p \<Rightarrow> \<exists>res. result_is K i res \<and> told E (call_answer E sk (arrived K ! i)) (tables K) res p
   | Waiting n k \<Rightarrow> n < length (begun K) \<and> (\<forall>d r. history_kept E (tables K) d \<longrightarrow>
       reported E (snd (begun K ! n)) r d \<longrightarrow> told E (call_answer E sk (arrived K ! i)) d (Some r) (k r)))"

definition all_told :: "env \<Rightarrow> string \<Rightarrow> cluster \<Rightarrow> bool" where
  "all_told E sk K \<longleftrightarrow> (\<forall>i < length (tasks K). task_told E sk K i (tasks K ! i))"

lemma task_told_simps [simp]:
  "task_told E sk K i (Running p) \<longleftrightarrow>
     (\<exists>res. result_is K i res \<and> told E (call_answer E sk (arrived K ! i)) (tables K) res p)"
  "task_told E sk K i (Waiting n k) \<longleftrightarrow> n < length (begun K) \<and> (\<forall>d r. history_kept E (tables K) d \<longrightarrow>
     reported E (snd (begun K ! n)) r d \<longrightarrow> told E (call_answer E sk (arrived K ! i)) d (Some r) (k r))"
  by (simp_all add: task_told_def)

lemma all_toldD: "all_told E sk K \<Longrightarrow> i < length (tasks K) \<Longrightarrow> tasks K ! i = t \<Longrightarrow> task_told E sk K i t"
  by (auto simp: all_told_def)

text \<open>What a step keeps for a task that does not take it.\<close>

definition recorded :: "env \<Rightarrow> cluster \<Rightarrow> cluster \<Rightarrow> nat \<Rightarrow> bool" where
  "recorded E K K' i \<longleftrightarrow> history_kept E (tables K) (tables K') \<and> arrived K' ! i = arrived K ! i \<and>
     (\<exists>bs. begun K' = begun K @ bs) \<and> (\<forall>res. result_is K i res \<longrightarrow> result_is K' i res)"

lemma task_told_later: "task_told E sk K i t \<Longrightarrow> recorded E K K' i \<Longrightarrow> task_told E sk K' i t"
  using told_later [OF _ _ call_answer_lasting]
  by (cases t) (auto simp: recorded_def nth_append intro: hist.Q_trans)

lemma all_told_update:
  assumes ok: "all_told E sk K" and same: "\<And>j. j < length (tasks K) \<Longrightarrow> j \<noteq> i \<Longrightarrow> recorded E K K' j"
    and tasks: "tasks K' = (tasks K)[i := t]" and t: "i < length (tasks K) \<Longrightarrow> task_told E sk K' i t"
  shows "all_told E sk K'"
proof -
  have "task_told E sk K' j (tasks K' ! j)" if "j < length (tasks K)" for j
    using that t task_told_later [OF all_toldD [OF ok that refl] same [OF that]]
    by (cases "j = i") (simp_all add: tasks)
  then show ?thesis by (simp add: all_told_def tasks)
qed

lemma result_is_act:
  assumes "act (engine K) S" and "result_is K i res"
  shows "result_is (K\<lparr>engine := S\<rparr>) i res"
proof -
  obtain l where l: "tx_act l (engine K) S" using assms(1) by (auto simp: act_def)
  have "txs S ! n = txs (engine K) ! n" if "tx_result (txs (engine K) ! n) \<noteq> None" for n
    using that tx_act_only(2) [OF l, of n] tx_act_only(4) [OF l] by (cases "n = l") simp_all
  with assms(2) show ?thesis by (simp add: result_is_def)
qed

lemma entitled_begun:
  assumes "entitled E sk K" and "n < length (begun K)"
  shows "begun_by K ! n < length (tasks K)"
proof -
  have "begun_by K ! n \<in> set (begun_by K)" using assms by (intro nth_mem) (simp add: entitled_def)
  with assms(1) show ?thesis by (simp add: entitled_def)
qed

lemma all_told_step:
  assumes "serve_step E srv K K'" and maker: "Server_tokenMaker srv = PasetoMaker E sk"
    and later: "history_kept E (tables K) (tables K')" and sealed: "sealed E (begun K) (engine K)"
    and ent: "entitled E sk K" and ok: "all_told E sk K"
  shows "all_told E sk K'"
  using assms(1)
proof cases
  case (arrives c)
  have len: "length (tasks K) = length (arrived K)" "length (begun_by K) = length (begun K)"
    using ent by (simp_all add: entitled_def)
  have new: "begun_by K ! n \<noteq> length (tasks K)" if "n < length (begun K)" for n
    using entitled_begun [OF ent that] by simp
  have "task_told E sk K' i (tasks K' ! i)" if "i < length (tasks K')" for i
  proof (cases "i < length (tasks K)")
    case True
    with later len have "recorded E K K' i" by (simp add: arrives(1) recorded_def result_is_def nth_append)
    from task_told_later [OF all_toldD [OF ok True refl] this] True show ?thesis by (simp add: arrives(1) nth_append)
  next
    case False
    with that have i: "i = length (tasks K)" by (simp add: arrives(1))
    with new have "result_is K' i None" by (simp add: arrives(1) result_is_def)
    with i told_handle [OF maker] len show ?thesis by (auto simp: arrives(1) nth_append)
  qed
  then show ?thesis by (simp add: all_told_def)
next
  case works
  from works show ?thesis
  proof cases
    case (proceeds i f p w)
    obtain res where res: "result_is K i res" "told E (call_answer E sk (arrived K ! i)) (tables K) res (Call f)"
      using all_toldD [OF ok proceeds(2,3)] by auto
    from res(2) have "told E (call_answer E sk (arrived K ! i)) (tables K') res p"
    proof cases
      case call_told
      from this [of "at_committed K"] sealed show ?thesis
        by (simp add: proceeds(1,4) hist.Q_refl sealed_def)
    qed
    with res(1) later show ?thesis
      by (intro all_told_update [OF ok, of i _ "Running p"]) (auto simp: proceeds(1) recorded_def result_is_def)
  next
    case (begins i j k now)
    obtain res where "told E (call_answer E sk (arrived K ! i)) (tables K) res (Transact j k)"
      using all_toldD [OF ok begins(2,3)] by auto
    then have "told E (call_answer E sk (arrived K ! i)) d (Some r) (k r)"
      if "history_kept E (tables K) d" "reported E j r d" for d r
      using that by (auto elim: told_TransactE)
    moreover have "recorded E K K' l" if "l \<noteq> i" for l
      using that later ent sealed
      by (auto simp: begins(1) recorded_def result_is_def nth_append entitled_def begin_tx_def sealed_def less_Suc_eq)
    ultimately show ?thesis
      by (intro all_told_update [OF ok, of i _ "Waiting (length (begun K)) k"]) (simp_all add: begins(1))
  next
    case (refused i j k t m)
    obtain res where res: "told E (call_answer E sk (arrived K ! i)) (tables K) res (Transact j k)"
      using all_toldD [OF ok refused(2,3)] by auto
    have "reported E j (Inl (OtherErr m)) (tables K)" by (simp add: reported_def unique_error_def)
    with res have "told E (call_answer E sk (arrived K ! i)) (tables K) (Some (Inl (OtherErr m))) (k (Inl (OtherErr m)))"
      by (blast elim: told_TransactE intro: hist.Q_refl)
    moreover have "i \<notin> set (begun_by K)"
      using entitledD [OF ent refused(2,3)] by (auto elim: keeps_TransactE)
    then have "result_is K i (Some (Inl (OtherErr m)))" using ent by (auto simp: result_is_def entitled_def)
    ultimately show ?thesis using later
      by (intro all_told_update [OF ok, of i _ "Running (k (Inl (OtherErr m)))"])
        (auto simp: refused(1) recorded_def result_is_def)
  next
    case (transacts S)
    have rec: "recorded E K K' i" for i
      using later result_is_act [OF transacts(2)] by (simp add: transacts(1) recorded_def)
    have "task_told E sk K' i (tasks K ! i)" if "i < length (tasks K)" for i
      by (rule task_told_later [OF all_toldD [OF ok that refl] rec])
    with rec show ?thesis by (intro all_told_update [OF ok, of 0 _ "tasks K ! 0"]) (simp_all add: transacts(1))
  next
    case (returns i n k r)
    have k: "n < length (begun K)" "\<And>d r. history_kept E (tables K) d \<Longrightarrow> reported E (snd (begun K ! n)) r d \<Longrightarrow>
        told E (call_answer E sk (arrived K ! i)) d (Some r) (k r)"
      using all_toldD [OF ok returns(2,3)] by simp_all
    have "n < length (txs (engine K))" using sealed k(1) by (simp add: sealed_def)
    from sealedD(6,7) [OF sealed this] returns(4) have "reported E (snd (begun K ! n)) r (tables K)"
      by (auto simp: reported_def split: sum.split)
    then have "told E (call_answer E sk (arrived K ! i)) (tables K) (Some r) (k r)" by (intro k hist.Q_refl)
    moreover have "begun_by K ! n = i" using entitledD [OF ent returns(2,3)] by simp
    then have "result_is K i (Some r)"
      using ent k(1) returns(4) by (auto simp: result_is_def entitled_def nth_eq_iff_index_eq)
    ultimately show ?thesis using later
      by (intro all_told_update [OF ok, of i _ "Running (k r)"]) (auto simp: returns(1) recorded_def result_is_def)
  qed
qed

lemma open_told:
  assumes "(serve_step E srv)\<^sup>*\<^sup>* (open_server w) K" and "Server_tokenMaker srv = PasetoMaker E sk"
    and "json_documented E" "db_ok (db w)" "rows_complete (db w)"
  shows "all_told E sk K"
  using assms(1)
proof (induction rule: rtranclp_induct)
  case base
  show ?case by (simp add: all_told_def open_server_def)
next
  case (step L N)
  have law: "lawful_run E sk (db w) L" using step(1) assms(2-5) by (rule open_lawful)
  then have sound: "sound E (db w) L" and ent: "entitled E sk L" by (simp_all add: lawful_run_def)
  then have "sealed E (begun L) (engine L)" by (simp add: sound_def settled_def)
  moreover have "history_kept E (tables L) (tables N)"
    by (rule hist_open.step_rel [OF step(2) assms(2,3) sound tasks_keep_any [OF step(1) assms(2-5)]])
  ultimately show ?case using all_told_step [OF step(2) assms(2)] ent step(3) by blast
qed

section \<open>Properties\<close>

lemma keyed_answer:
  assumes "all_told E sk K" and "i < length (tasks K)" "tasks K ! i = Running (Done (HttpReply rsp))"
    and "keyed_call E sk (arrived K ! i) pk req"
  obtains res where "result_is K i res" "keyed_ok E pk req (tables K) res rsp"
  using all_toldD [OF assms(1-3)] assms(4) by (cases pk) (auto simp: told_Done call_answer_def)

lemma keyed_key_answer:
  assumes "all_told E sk K" and "i < length (tasks K)" "tasks K ! i = Running (Done (HttpReply rsp))"
    and "keyed_call E sk (arrived K ! i) pk req"
  shows "key_answer E pk (requestFingerprint E req) (tables K) rsp"
  using assms by (rule keyed_answer) (simp add: keyed_ok_def)

text \<open>A request under a key that has moved money has committed the row of its key.\<close>

lemma asked_for_key:
  assumes "asked_for E sk c d j" and "keyed_call E sk c pk req"
  shows "job_key j = Some pk"
  using assms by (cases pk) (auto simp: asked_for_def keyed_call_def transfer_job_def job_key_def)

lemma example_keyed_call:
  assumes "cs = example_arrivals" and "i < 2"
  shows "keyed_call example_env ''key'' (cs ! i) (''ann'', ''k1'') (example_request 30)"
proof -
  have "bearer_token example_header = Some (example_encrypt ''key'' (example_payload ''ann''))"
    using example_header_fields by (simp add: bearer_token_def example_header_def)
  then show ?thesis
    using less_2_cases [OF assms(2)]
    by (auto simp: assms(1) example_arrivals_def keyed_call_def example_decrypt_encrypt) (simp_all add: example_payload_def)
qed

text \<open>
  C2: Requests that race under one key agree, in any run of both servers: two requests of one user under
  one key that are both answered 200 asked for the same transfer and get the same answer, and one of the
  two answers at least is a replay, so that the money has moved once. None is ever told that the other
  is still being processed.
\<close>

theorem server_races_agree:
  assumes "Server_tokenMaker srv = PasetoMaker E sk" and "json_documented E" "db_ok (db w)" "rows_complete (db w)"
    and "(serve_step E srv)\<^sup>*\<^sup>* (open_server w) K"
    and i: "i < length (tasks K)" "keyed_call E sk (arrived K ! i) pk req" "tasks K ! i = Running (Done (HttpReply rsp))"
    and j: "j < length (tasks K)" "keyed_call E sk (arrived K ! j) pk req'" "tasks K ! j = Running (Done (HttpReply rsp'))"
    and "i \<noteq> j"
  shows "rsp \<noteq> error_response StatusConflict (Errorf ''Idempotency-Key is still being processed'') \<and>
    (status rsp = 200 \<longrightarrow> status rsp' = 200 \<longrightarrow>
       requestFingerprint E req = requestFingerprint E req' \<and> content E rsp = content E rsp' \<and>
       (replay_header rsp \<or> replay_header rsp'))"
proof -
  have told: "all_told E sk K" using assms(5,1-4) by (rule open_told)
  note answer = keyed_key_answer [OF told i(1,3,2)] keyed_key_answer [OF told j(1,3,2)]
  have law: "lawful_run E sk (db w) K" using assms(5,1-4) by (rule open_lawful)
  then have once: "once (db w) (begun K) (engine K)" and ent: "entitled E sk K" and paid: "transfers_paid K"
    by (simp_all add: lawful_run_def sound_def settled_def)
  have own: "\<exists>n \<in> set (committed_by (engine K)). begun_by K ! n = l \<and> job_key (snd (begun K ! n)) = Some pk"
    if answered: "l < length (tasks K)" "keyed_call E sk (arrived K ! l) pk req''" "tasks K ! l = Running (Done (HttpReply rsp''))"
      "status rsp'' = 200" "\<not> replay_header rsp''" for l req'' rsp''
  proof -
    obtain auth key body where "arrived K ! l = Http (PostTransfers auth key body)" using answered(2) by (auto simp: keyed_call_def)
    moreover have "transfer_route (PostTransfers auth key body)" by (simp add: transfer_route_def)
    ultimately have "after_transfer reply_moved (tasks K ! l) \<or> moved_for K l" using paid answered(1) by (auto simp: transfers_paid_def)
    with answered obtain n where n: "n \<in> set (committed_by (engine K))" "n < length (begun K)" "begun_by K ! n = l"
      using ent by (auto simp: moved_for_def only_after_Done reply_moved_def says_moved_def entitled_def)
    then have "asked_for E sk (arrived K ! l) (tables K) (snd (begun K ! n))" using ent by (auto simp: entitled_def)
    with n answered(2) asked_for_key show ?thesis by blast
  qed
  have "replay_header rsp \<or> replay_header rsp'" if ok: "status rsp = 200" "status rsp' = 200"
  proof (rule ccontr)
    assume "\<not> (replay_header rsp \<or> replay_header rsp')"
    with own [OF i ok(1)] own [OF j ok(2)] obtain n m where
      "n \<in> set (committed_by (engine K))" "begun_by K ! n = i" "job_key (snd (begun K ! n)) = Some pk"
      "m \<in> set (committed_by (engine K))" "begun_by K ! m = j" "job_key (snd (begun K ! m)) = Some pk" by blast
    moreover have "distinct (committed_keys (begun K) (engine K))" using once by (simp add: once_def)
    ultimately have "n = m"
      unfolding committed_keys_def using map_filter_distinctD by metis
    with \<open>begun_by K ! n = i\<close> \<open>begun_by K ! m = j\<close> assms(12) show False by simp
  qed
  with answer show ?thesis by (auto simp: key_answer_def)
qed

theorem server_races_agree_witness:
  "\<exists>K rsp rsp'. (serve_step example_env example_server)\<^sup>*\<^sup>* (open_server example_world) K \<and>
     tasks K ! 0 = Running (Done (HttpReply rsp)) \<and> status rsp = 200 \<and> \<not> replay_header rsp \<and>
     tasks K ! 1 = Running (Done (HttpReply rsp')) \<and> status rsp' = 200 \<and> replay_header rsp' \<and>
     content example_env rsp = content example_env rsp'"
proof -
  obtain K where K: "(serve_step example_env example_server)\<^sup>*\<^sup>* (open_server example_world) K" "example_end K"
    "length (tasks K) = 3" "arrived K = example_arrivals"
    by (rule example_played)
  obtain rsp where rsp: "tasks K ! 0 = Running (Done (HttpReply rsp))" "status rsp = 200" "\<not> replay_header rsp"
    using K(2) by (auto simp: example_end_def elim: answered_withE)
  obtain rsp' where rsp': "tasks K ! 1 = Running (Done (HttpReply rsp'))" "status rsp' = 200" "replay_header rsp'"
    using K(2) by (auto simp: example_end_def elim: answered_withE)
  have ok: "db_ok (db example_world)" "rows_complete (db example_world)" using example_db_ok example_documented(2) by simp_all
  have "content example_env rsp = content example_env rsp'"
    using server_races_agree [OF example_server_maker example_documented(1) ok K(1) _ example_keyed_call [OF K(4)] rsp(1) _
        example_keyed_call [OF K(4)] rsp'(1)] rsp(2) rsp'(2)
    by (simp add: K(3))
  with K(1) rsp rsp' show ?thesis by blast
qed

text \<open>
  C3: What a transfer under a key is answered is decided by the result of its transaction, in any run of
  both servers. If it committed, the answer is 200 with its result. If it lost the race for the key,
  that is, failed with a unique violation, the winner's answer is there by then: the loser is answered
  with that answer or, if it asked for another transfer, refused with 409; only a connection lost
  during the lookup turns this into 500. Any other error, an insufficient balance (400) apart, is
  answered with 500 without a lookup. So is a lost race whose rollback failed too, since \<open>execTx\<close>
  then makes another error of the two.
\<close>

theorem server_lost_race_is_replayed:
  assumes "Server_tokenMaker srv = PasetoMaker E sk" and "json_documented E" "db_ok (db w)" "rows_complete (db w)"
    and "(serve_step E srv)\<^sup>*\<^sup>* (open_server w) K"
    and "i < length (tasks K)" "keyed_call E sk (arrived K ! i) pk req" "tasks K ! i = Running (Done (HttpReply rsp))"
    and "n < length (begun K)" "begun_by K ! n = i"
  shows "\<exists>r. tx_result (txs (engine K) ! n) = Some r \<and> (case r of
      Inr x \<Rightarrow> rsp = \<lparr>status = StatusOK, replay_header = False, resp_body = TransferBody x\<rparr>
    | Inl e \<Rightarrow>
        if unique_error e then \<exists>row. lookup key_of pk (idempotency_keys (tables K)) = Some row \<and>
          IdempotencyKey_ResponseBody row \<noteq> '''' \<and>
          ((\<exists>m. rsp = error_response StatusInternalServerError (OtherErr m)) \<or>
           rsp = (if IdempotencyKey_RequestHash row = requestFingerprint E req then
               \<lparr>status = StatusOK, replay_header = True, resp_body = DataBody (IdempotencyKey_ResponseBody row)\<rparr>
             else error_response StatusConflict
               (Errorf ''Idempotency-Key was already used for a different transfer'')))
        else rsp = (if \<exists>name. e = PqError name ''accounts_balance_non_negative''
          then error_response StatusBadRequest (insufficient_balance (transferRequest_FromAccountID req))
          else error_response StatusInternalServerError e))"
proof -
  have "all_told E sk K" using assms(5,1-4) by (rule open_told)
  then obtain res where res: "result_is K i res" "keyed_ok E pk req (tables K) res rsp"
    using assms(6,8,7) by (rule keyed_answer)
  then obtain r where r: "tx_result (txs (engine K) ! n) = Some r" "answer_of pk (requestFingerprint E req) req (tables K) r rsp"
    using assms(9,10) by (auto simp: result_is_def keyed_ok_def)
  show ?thesis
  proof (cases r)
    case (Inr x)
    with r show ?thesis by (simp add: answer_of_def)
  next
    case (Inl e)
    with r show ?thesis
      by (cases "unique_error e") (fastforce simp: answer_of_def replay_answer_def, simp add: answer_of_def overdrawn_def)
  qed
qed

theorem server_lost_race_is_replayed_witness:
  "\<exists>K e row rsp. (serve_step example_env example_server)\<^sup>*\<^sup>* (open_server example_world) K \<and>
     begun_by K ! 1 = 1 \<and> tx_result (txs (engine K) ! 1) = Some (Inl e) \<and> unique_error e \<and>
     lookup key_of (''ann'', ''k1'') (idempotency_keys (tables K)) = Some row \<and>
     tasks K ! 1 = Running (Done (HttpReply rsp)) \<and>
     rsp = \<lparr>status = StatusOK, replay_header = True, resp_body = DataBody (IdempotencyKey_ResponseBody row)\<rparr>"
proof -
  obtain K where K: "(serve_step example_env example_server)\<^sup>*\<^sup>* (open_server example_world) K" "example_end K"
    "length (tasks K) = 3" "arrived K = example_arrivals" "begun_by K = [0, 1]"
    by (rule example_played)
  obtain rsp where rsp: "tasks K ! 1 = Running (Done (HttpReply rsp))" "status rsp = 200" "replay_header rsp"
    using K(2) by (auto simp: example_end_def elim: answered_withE)
  have ok: "db_ok (db example_world)" "rows_complete (db example_world)" using example_db_ok example_documented(2) by simp_all
  have begun: "1 < length (begun K)" using open_lawful [OF K(1) example_server_maker example_documented(1) ok] K(5)
    by (simp add: lawful_run_def entitled_def)
  obtain r where "tx_result (txs (engine K) ! 1) = Some r" "case r of
      Inr x \<Rightarrow> rsp = \<lparr>status = StatusOK, replay_header = False, resp_body = TransferBody x\<rparr>
    | Inl e \<Rightarrow>
        if unique_error e then \<exists>row. lookup key_of (''ann'', ''k1'') (idempotency_keys (tables K)) = Some row \<and>
          IdempotencyKey_ResponseBody row \<noteq> '''' \<and>
          ((\<exists>m. rsp = error_response StatusInternalServerError (OtherErr m)) \<or>
           rsp = (if IdempotencyKey_RequestHash row = requestFingerprint example_env (example_request 30) then
               \<lparr>status = StatusOK, replay_header = True, resp_body = DataBody (IdempotencyKey_ResponseBody row)\<rparr>
             else error_response StatusConflict
               (Errorf ''Idempotency-Key was already used for a different transfer'')))
        else rsp = (if \<exists>name. e = PqError name ''accounts_balance_non_negative''
          then error_response StatusBadRequest (insufficient_balance (transferRequest_FromAccountID (example_request 30)))
          else error_response StatusInternalServerError e)"
    using server_lost_race_is_replayed [OF example_server_maker example_documented(1) ok K(1) _
        example_keyed_call [OF K(4)] rsp(1) begun] K(3,5) by auto
  with rsp K(1,5) show ?thesis
    by (cases r) (auto simp: error_response_def split: if_splits)
qed

end
