(* ===== verification/Server_End.thy ===== *)
theory Server_End
  imports Interleaving
begin

text \<open>
  All requests to both servers are answered: a task that calls can call, and if all others wait for
  their transactions, one of these can go on, since they take their locks in order; and every step
  brings a handler further, or a transaction.
\<close>

section \<open>Every step brings something further\<close>

inductive further :: "task \<Rightarrow> task \<Rightarrow> bool" where
  called: "further (Running (fst (f w))) (Running (Call f))"
| waits: "further (Waiting n k) (Running (Transact j k))"
| failed: "further (Running (k' r)) (Running (Transact j' k'))"
| returned: "further (Running (k'' r')) (Waiting n' k'')"

inductive_cases further_DoneE [elim!]: "further t (Running (Done r))"
inductive_cases further_CallE: "further t (Running (Call f))"
inductive_cases further_TransactE: "further t (Running (Transact j k))"
inductive_cases further_WaitingE [elim!]: "further t (Waiting n k)"

lemma wf_further: "wf {(t, t'). further t t'}"
proof -
  let ?acc = "Wellfounded.acc {(t, t'). further t t'}"
  have waiting: "Waiting n k \<in> ?acc" if "\<And>r. Running (k r) \<in> ?acc" for n k
    by (rule accI) (use that in auto)
  have running: "Running p \<in> ?acc" for p
  proof (induction p)
    case (Done r)
    show ?case by (rule accI) auto
  next
    case (Call f)
    have called: "Running (fst (f w)) \<in> ?acc" for w
      by (rule Call [of "f w" "fst (f w)"]) (auto intro: fsts.intros)
    show ?case
    proof (rule accI)
      fix t assume "(t, Running (Call f)) \<in> {(t, t'). further t t'}"
      then have "further t (Running (Call f))" by simp
      then show "t \<in> ?acc" by (rule further_CallE) (simp only: called)
    qed
  next
    case (Transact j k)
    then have k: "Running (k r) \<in> ?acc" for r by blast
    then have "Waiting n k \<in> ?acc" for n by (rule waiting)
    note steps = this k
    show ?case
    proof (rule accI)
      fix t assume "(t, Running (Transact j k)) \<in> {(t, t'). further t t'}"
      then have "further t (Running (Transact j k))" by simp
      then show "t \<in> ?acc" by (rule further_TransactE) (simp_all only: steps)
    qed
  qed
  have "t \<in> ?acc" for t by (cases t) (auto intro: running waiting)
  then show ?thesis by (intro acc_wfI allI)
qed

lemma work_decreases:
  assumes "work_step E K K'"
  shows "(tasks K', tasks K) \<in> listrel1 {(t, t'). further t t'} \<or> tasks K' = tasks K \<and> act (engine K) (engine K')"
proof -
  have task: "((tasks K)[i := t], tasks K) \<in> listrel1 {(t, t'). further t t'}"
    if "i < length (tasks K)" "further t (tasks K ! i)" for i t
    using that by (simp add: list_update_listrel1)
  from assms show ?thesis
  proof cases
    case (proceeds i f p w)
    then have "further (Running p) (tasks K ! i)" using called [of f "at_committed K"] by simp
    with proceeds(1,2) task show ?thesis by simp
  qed (auto intro!: task intro: further.intros)
qed

lemma wf_work_step: "wf {(K', K). work_step E K K'}"
proof (rule wf_subset)
  show "wf (inv_image (listrel1 {(t, t'). further t t'} <*lex*> {(S', S). act S S'}) (\<lambda>K. (tasks K, engine K)))"
    by (intro wf_inv_image wf_lex_prod wf_act) (simp add: wf_listrel1_iff wf_further)
qed (auto dest: work_decreases)

section \<open>Something can always go on\<close>

text \<open>Transactions and the tasks that wait for them belong together.\<close>

definition attended :: "cluster \<Rightarrow> bool" where
  "attended K \<longleftrightarrow> well_locked (engine K) \<and> length (tasks K) = length (arrived K) \<and>
     length (begun K) = length (txs (engine K)) \<and>
     (\<forall>i < length (tasks K). \<forall>n k. tasks K ! i = Waiting n k \<longrightarrow> n < length (txs (engine K))) \<and>
     (\<forall>n < length (txs (engine K)). tx_result (txs (engine K) ! n) = None \<longrightarrow>
        (\<exists>i < length (tasks K). \<exists>k. tasks K ! i = Waiting n k))"

lemma attendedD:
  assumes "attended K"
  shows "well_locked (engine K)" "length (tasks K) = length (arrived K)" "length (begun K) = length (txs (engine K))"
    "i < length (tasks K) \<Longrightarrow> tasks K ! i = Waiting n k \<Longrightarrow> n < length (txs (engine K))"
  using assms by (auto simp: attended_def)

lemma attendedE:
  assumes "attended K" and "n < length (txs (engine K))" "tx_result (txs (engine K) ! n) = None"
  obtains i k where "i < length (tasks K)" "tasks K ! i = Waiting n k"
  using assms by (auto simp: attended_def)

lemma well_locked_txs: "well_locked S \<Longrightarrow> txs S' = txs S \<Longrightarrow> well_locked S'"
  by (simp add: well_locked_def)

text \<open>A task that waits for no transaction in progress goes on.\<close>

lemma attended_task:
  assumes ok: "attended K" and same: "txs (engine K') = txs (engine K)" "arrived K' = arrived K" "begun K' = begun K"
    and tasks: "tasks K' = (tasks K)[i := Running p]"
    and free: "\<And>n k. i < length (tasks K) \<Longrightarrow> tasks K ! i = Waiting n k \<Longrightarrow> tx_result (txs (engine K) ! n) \<noteq> None"
  shows "attended K'"
proof -
  note D = attendedD [OF ok]
  have "n < length (txs (engine K'))" if "l < length (tasks K')" "tasks K' ! l = Waiting n k" for l n k
    using that D(4) [of l n k] by (cases "l = i") (simp_all add: tasks same)
  moreover have "\<exists>l < length (tasks K'). \<exists>k. tasks K' ! l = Waiting n k"
    if n: "n < length (txs (engine K'))" "tx_result (txs (engine K') ! n) = None" for n
  proof -
    from n have "n < length (txs (engine K))" "tx_result (txs (engine K) ! n) = None" by (simp_all add: same)
    with ok obtain l k where l: "l < length (tasks K)" "tasks K ! l = Waiting n k" by (rule attendedE)
    with free n(2) have "l \<noteq> i" by (auto simp: same)
    with l show ?thesis by (intro exI [of _ l]) (simp add: tasks)
  qed
  moreover have "well_locked (engine K')" using D(1) same(1) by (rule well_locked_txs)
  ultimately show ?thesis using D(2,3) by (simp add: attended_def same tasks)
qed

lemma act_txs:
  assumes "act S S'"
  shows "length (txs S') = length (txs S)" "tx_result (txs S' ! n) = None \<Longrightarrow> tx_result (txs S ! n) = None"
proof -
  from assms obtain i where i: "tx_act i S S'" by (auto simp: act_def)
  then show "length (txs S') = length (txs S)" by (rule tx_act_only)
  show "tx_result (txs S ! n) = None" if "tx_result (txs S' ! n) = None"
    using tx_act_only(2,4) [OF i] that by (cases "n = i") auto
qed

lemma attended_work:
  assumes "work_step E K K'" and ok: "attended K"
  shows "attended K'"
  using assms(1)
proof cases
  case (proceeds i f p w)
  show ?thesis by (rule attended_task [OF ok, of K' i p]) (simp_all add: proceeds)
next
  case (begins i j k now)
  note D = attendedD [OF ok]
  have "n < length (txs (engine K'))" if "l < length (tasks K')" "tasks K' ! l = Waiting n k'" for l n k'
    using that D(3) D(4) [of l n k'] by (cases "l = i") (simp_all add: begins(1))
  moreover have "\<exists>l < length (tasks K'). \<exists>k. tasks K' ! l = Waiting n k"
    if n: "n < length (txs (engine K'))" "tx_result (txs (engine K') ! n) = None" for n
  proof (cases "n = length (txs (engine K))")
    case True
    with begins(2) D(3) show ?thesis by (intro exI [of _ i]) (simp add: begins(1))
  next
    case False
    with n have "n < length (txs (engine K))" "tx_result (txs (engine K) ! n) = None"
      by (simp_all add: begins(1) nth_append)
    with ok obtain l k' where l: "l < length (tasks K)" "tasks K ! l = Waiting n k'" by (rule attendedE)
    with begins(3) have "l \<noteq> i" by auto
    with l show ?thesis by (intro exI [of _ l]) (simp add: begins(1))
  qed
  ultimately show ?thesis using D(1-3) by (simp add: attended_def begins(1) well_locked_begin)
next
  case (refused i j k t m)
  show ?thesis by (rule attended_task [OF ok, of K' i]) (simp_all add: refused)
next
  case (transacts S)
  note D = attendedD [OF ok] and act = act_txs [OF transacts(2)]
  have "\<exists>l < length (tasks K). \<exists>k. tasks K ! l = Waiting n k" if "n < length (txs S)" "tx_result (txs S ! n) = None" for n
    using attendedE [OF ok] that act by metis
  with D act(1) locks.act_kept [OF transacts(2)] show ?thesis
    by (simp add: attended_def transacts(1))
next
  case (returns i n k r)
  show ?thesis by (rule attended_task [OF ok, of K' i]) (simp_all add: returns)
qed

lemma attended_arrives:
  assumes ok: "attended K"
  shows "attended (K\<lparr>tasks := tasks K @ [Running p], arrived := arrived K @ [c]\<rparr>)" (is "attended ?K")
proof -
  note D = attendedD [OF ok]
  have "n < length (txs (engine K))" if "i < length (tasks ?K)" "tasks ?K ! i = Waiting n k" for i n k
    using that D(4) [of i n k] by (cases "i < length (tasks K)") (auto simp: nth_append)
  moreover have "\<exists>i < length (tasks ?K). \<exists>k. tasks ?K ! i = Waiting n k"
    if n: "n < length (txs (engine K))" "tx_result (txs (engine K) ! n) = None" for n
  proof -
    from ok n obtain i k where "i < length (tasks K)" "tasks K ! i = Waiting n k" by (rule attendedE)
    then show ?thesis by (intro exI [of _ i]) (simp add: nth_append)
  qed
  ultimately show ?thesis using D(1-3) by (simp add: attended_def)
qed

lemma tx_step_next: "tx_step i S S' \<Longrightarrow> tx_next i S = Some S'"
  by (auto elim!: tx_stepE simp: tx_next_def at_statement_def split: prog.splits)

definition all_done :: "cluster \<Rightarrow> bool" where
  "all_done K \<longleftrightarrow> length (tasks K) = length (arrived K) \<and> (\<forall>t \<in> set (tasks K). \<exists>r. t = Running (Done r))"

lemma go_on_progress:
  assumes ok: "attended K" and "\<not> all_done K"
  obtains i K' where "go_on E i K = Some K'"
proof -
  obtain i where i: "i < length (tasks K)" "\<And>r. tasks K ! i \<noteq> Running (Done r)"
    using assms by (auto simp: all_done_def in_set_conv_nth attended_def)
  show thesis
  proof (cases "tasks K ! i")
    case (Running p)
    then have "\<forall>r. p \<noteq> Done r" using i(2) by auto
    with Running i(1) have "go_on E i K \<noteq> None" by (cases p) (simp_all add: go_on_def split: prod.split)
    then show thesis using that by blast
  next
    case (Waiting n k)
    with ok i(1) have n: "n < length (txs (engine K))" by (auto simp: attended_def)
    show thesis
    proof (cases "tx_result (txs (engine K) ! n)")
      case None
      let ?A = "{n. tx_result (txs (engine K) ! n) = None}"
      have lock: "well_locked (engine K)" using ok by (simp add: attended_def)
      have "tx_locks (txs (engine K) ! j) = {}" if "j < length (txs (engine K))" "j \<notin> ?A" for j
        using lock that nth_mem unfolding well_locked_def by fastforce
      from progress_among [OF lock, of n ?A, OF _ n None this] None
      obtain l S' where l: "tx_result (txs (engine K) ! l) = None" "tx_step l (engine K) S'" by blast
      then have "l < length (txs (engine K))" by (auto elim: tx_stepE)
      with ok l(1) obtain j k' where j: "j < length (tasks K)" "tasks K ! j = Waiting l k'" by (auto simp: attended_def)
      with that [of j] l \<open>l < _\<close> show thesis by (simp add: go_on_def tx_step_next)
    qed (use that [of i] i(1) Waiting n in \<open>simp add: go_on_def\<close>)
  qed
qed

lemma can_answer:
  assumes "attended K"
  shows "\<exists>is K'. play_on E is K = Some K' \<and> all_done K'"
  using wf_work_step [of E] assms
proof (induction K rule: wf_induct_rule)
  case (less K)
  show ?case
  proof (cases "all_done K")
    case True
    then show ?thesis by (intro exI [of _ "[]"]) simp
  next
    case False
    with less.prems obtain i L where L: "go_on E i K = Some L" by (rule go_on_progress)
    note st = go_on_step [OF L]
    with less.IH [of L] attended_work [OF st less.prems] obtain "is" K' where
      "play_on E is L = Some K'" "all_done K'" by blast
    with L show ?thesis by (intro exI [of _ "i # is"]) simp
  qed
qed

lemma attended_run:
  assumes "(serve_step E srv)\<^sup>*\<^sup>* (open_server w) K"
  shows "attended K"
  using assms
proof (induction rule: rtranclp_induct)
  case base
  show ?case by (simp add: attended_def open_server_def idle_def well_locked_def)
next
  case (step L N)
  from step(2) show ?case by cases (use step(3) attended_arrives attended_work in auto)
qed

text \<open>
  C4: All requests are answered. Whatever requests to both servers have arrived, and whatever has happened
  and failed so far, the servers are never stuck before all are answered: some handler can make its next
  call, or some transaction its next step, without any failure. There is a schedule that
  answers all that have arrived, and serving them cannot go on for ever.
\<close>

theorem server_answers_all:
  assumes "(serve_step E srv)\<^sup>*\<^sup>* (open_server w) K"
  shows "(\<not> all_done K \<longrightarrow> (\<exists>i K'. go_on E i K = Some K')) \<and>
    (\<exists>is K'. play_on E is K = Some K' \<and> all_done K' \<and> arrived K' = arrived K) \<and>
    \<not> (\<exists>f. f 0 = K \<and> (\<forall>n. work_step E (f n) (f (Suc n))))"
proof -
  have ok: "attended K" using assms by (rule attended_run)
  have "\<not> (\<exists>f. \<forall>n. work_step E (f n) (f (Suc n)))"
    using wf_work_step [of E] by (auto simp: wf_iff_no_infinite_down_chain)
  moreover have "\<exists>is K'. play_on E is K = Some K' \<and> all_done K' \<and> arrived K' = arrived K"
    using can_answer [OF ok] play_on_arrived by metis
  ultimately show ?thesis using go_on_progress [OF ok] by metis
qed

text \<open>While both attempts of a transfer wait for their transactions.\<close>

theorem server_answers_all_witness:
  "\<exists>K is K'. play_on example_env (take 12 example_schedule) example_open = Some K \<and> \<not> all_done K \<and>
     play_on example_env is K = Some K' \<and> all_done K' \<and> length (tasks K') = 3"
proof -
  have "case play_on example_env (take 12 example_schedule) example_open of
      None \<Rightarrow> False | Some K \<Rightarrow> (case tasks K ! 0 of Waiting n k \<Rightarrow> length (tasks K) = 3 | _ \<Rightarrow> False)"
    by code_simp
  then obtain K n k where K: "play_on example_env (take 12 example_schedule) example_open = Some K"
    "tasks K ! 0 = Waiting n k" "length (tasks K) = 3"
    by (auto split: option.splits task.splits)
  have run: "(serve_step example_env example_server)\<^sup>*\<^sup>* (open_server example_world) K"
    by (rule rtranclp_trans [OF arrive_all_run play_on_run]) (use K(1) in \<open>simp add: example_open_def\<close>)
  from server_answers_all [OF run] obtain "is" K' where
    K': "play_on example_env is K = Some K'" "all_done K'" "arrived K' = arrived K" by blast
  have "arrived K = example_arrivals"
    using play_on_arrived [OF K(1)] by (simp add: example_open_def arrive_all_def open_server_def)
  then have "length (tasks K') = 3" using K'(2,3) by (simp add: all_done_def example_arrivals_def)
  moreover have "\<not> all_done K" using K(2,3) nth_mem [of 0 "tasks K"] by (force simp: all_done_def)
  ultimately show ?thesis using K(1) K'(1,2) by blast
qed

end
