(* ===== verification/Concurrent_Sessions.thy ===== *)
theory Concurrent_Sessions
  imports Before_Answer
begin

text \<open>
  Signing out and renewing tokens while any other requests are served: a renewal needs a session that is
  live while it is served, and a session that has been signed out is never renewed again.
\<close>

section \<open>Renewals and sign-outs\<close>

definition says_200 :: "reply \<Rightarrow> bool" where
  "says_200 r \<longleftrightarrow> (case r of HttpReply rsp \<Rightarrow> status rsp = 200 | GrpcReply _ \<Rightarrow> False)"

lemma says_200_simps [simp]: "says_200 (HttpReply rsp) \<longleftrightarrow> status rsp = 200" "\<not> says_200 (GrpcReply r)"
  by (simp_all add: says_200_def)

text \<open>A renewal only succeeds after it has seen its session live.\<close>

definition token_live :: "env \<Rightarrow> string \<Rightarrow> string \<Rightarrow> world \<Rightarrow> bool" where
  "token_live E k tok v \<longleftrightarrow> (\<exists>q s. renewable E k tok q s (db v))"

lemma session_only_after:
  assumes "paseto_Decrypt E tok k = Inr q" and "\<And>e. only_after (\<lambda>v v'. token_live E k tok v) T G (h (Inl e))"
    and "\<And>s. Session_IsBlocked s \<or> Session_Username s \<noteq> Payload_Username q \<or> Session_RefreshToken s \<noteq> tok \<Longrightarrow>
      only_after (\<lambda>v v'. token_live E k tok v) T G (h (Inr s))"
  shows "only_after (\<lambda>v v'. token_live E k tok v) T G (calling (GetSession E (Payload_ID q)) h)"
proof (rule only_after_calling)
  fix w x w' assume run: "run (GetSession E (Payload_ID q)) w = (x, w')"
  show "token_live E k tok w \<or> only_after (\<lambda>v v'. token_live E k tok v) T G (h x)"
  proof (cases x)
    case (Inr s)
    with run have "lookup Session_ID (Payload_ID q) (sessions (db w)) = Some s"
      by (auto simp: GetSession_def sql_GetSession_def dest!: query_InrD)
    with assms(1) have "token_live E k tok w \<or> Session_IsBlocked s \<or> Session_Username s \<noteq> Payload_Username q \<or>
        Session_RefreshToken s \<noteq> tok"
      by (auto simp: token_live_def renewable_def)
    with Inr assms(3) show ?thesis by blast
  qed (simp add: assms(2))
qed

lemma renew_only_after:
  assumes "Server_tokenMaker srv = PasetoMaker E k"
  shows "only_after (\<lambda>v v'. \<exists>req. body = Some req \<and> token_live E k (renewAccessTokenRequest_RefreshToken req) v)
    T says_200 (handle_proc E srv (Http (PostTokensRenewAccess body)))"
proof (cases "ShouldBind renewAccessTokenRequest_valid body")
  case (Inr req)
  then have body: "body = Some req" by simp
  have "only_after (\<lambda>v v'. token_live E k (renewAccessTokenRequest_RefreshToken req) v) T (\<lambda>rsp. status rsp = 200)
      (renewAccessToken_proc E srv body)"
    unfolding renewAccessToken_proc_def Inr sum.case assms
    by (rule only_after_calling, simp add: PasetoMaker_def run_paseto_VerifyToken split: sum.splits if_splits)
      (auto intro!: session_only_after only_after_error)
  then show ?thesis using body by (simp add: handle_proc.simps only_after_map)
qed (simp add: handle_proc.simps renewAccessToken_proc_def reply_error_def done_after)

text \<open>Session \<open>i\<close> of user \<open>u\<close>, if there is one, is blocked.\<close>

definition signed_out :: "uuid \<Rightarrow> string \<Rightarrow> database \<Rightarrow> bool" where
  "signed_out i u d \<longleftrightarrow> (\<forall>s. lookup Session_ID i (sessions d) = Some s \<longrightarrow> Session_Username s = u \<longrightarrow> Session_IsBlocked s)"

lemma signed_out_block:
  assumes "d' = d\<lparr>sessions := update_where P block (sessions d)\<rparr>"
    and "\<And>s. Session_ID s = i \<Longrightarrow> Session_Username s = u \<Longrightarrow> \<not> Session_IsBlocked s \<Longrightarrow> P s"
  shows "signed_out i u d'"
  unfolding signed_out_def
proof (intro allI impI)
  fix s assume s: "lookup Session_ID i (sessions d') = Some s" "Session_Username s = u"
  then have "s \<in> set (update_where P block (sessions d))" "Session_ID s = i"
    using lookup_SomeD assms(1) by fastforce+
  with s(2) assms(2) show "Session_IsBlocked s" by (auto simp: set_update_where)
qed

text \<open>A request of \<open>u\<close> that signs out session \<open>i\<close>: everywhere, or with the refresh token of the session.\<close>

definition signs_out :: "env \<Rightarrow> string \<Rightarrow> string \<Rightarrow> uuid \<Rightarrow> call \<Rightarrow> bool" where
  "signs_out E k u i c \<longleftrightarrow> (\<exists>auth tok p. bearer_token auth = Some tok \<and> paseto_Decrypt E tok k = Inr p \<and>
     Payload_Username p = u \<and>
     (c = Http (PostUsersLogoutAll auth) \<or>
      (\<exists>req q. c = Http (PostUsersLogout auth (Some req)) \<and>
         paseto_Decrypt E (logoutRequest_RefreshToken req) k = Inr q \<and> Payload_ID q = i)))"

lemma logoutAll_only_after:
  "only_after (\<lambda>v v'. signed_out i (Payload_Username p) (db v')) T (\<lambda>rsp. status rsp = 200) (logoutAll_proc E p)"
  (is "only_after ?C _ _ _")
  unfolding logoutAll_proc_def
proof (rule only_after_calling)
  fix w x w' assume run: "run (BlockUserSessions E (Payload_Username p)) w = (x, w')"
  show "?C w w' \<or> only_after ?C T (\<lambda>rsp. status rsp = 200) (case x of
      Inl err \<Rightarrow> reply_error StatusInternalServerError err
    | Inr revoked \<Rightarrow> reply StatusOK (LogoutAllBody \<lparr>logoutAllResponse_SessionsRevoked = revoked\<rparr>))"
  proof (cases x)
    case (Inr n)
    with run have "sql_BlockUserSessions (Payload_Username p) (server_now E w) (db w) = (Inr n, db w')"
      by (auto simp: BlockUserSessions_def dest: query_InrD)
    then have "db w' = (db w)\<lparr>sessions := update_where (open_session (Payload_Username p)) block (sessions (db w))\<rparr>"
      by (simp add: sql_BlockUserSessions_def)
    then have "?C w w'" by (rule signed_out_block) (simp add: open_session_def)
    then show ?thesis ..
  qed (simp add: only_after_error)
qed

lemma block_only_after:
  assumes "\<And>e. only_after (\<lambda>v v'. signed_out i u (db v')) T G (h (Inl e))"
  shows "only_after (\<lambda>v v'. signed_out i u (db v')) T G (calling (BlockSession E i) h)" (is "only_after ?C _ _ _")
proof (rule only_after_calling)
  fix w x w' assume run: "run (BlockSession E i) w = (x, w')"
  show "?C w w' \<or> only_after ?C T G (h x)"
  proof (cases x)
    case (Inr s)
    with run have "sql_BlockSession i (server_now E w) (db w) = (Inr s, db w')"
      by (auto simp: BlockSession_def dest: query_InrD)
    then have "db w' = (db w)\<lparr>sessions := update_where (\<lambda>r. Session_ID r = i) block (sessions (db w))\<rparr>"
      by (auto simp: sql_BlockSession_def split: option.splits)
    then have "?C w w'" by (rule signed_out_block) simp
    then show ?thesis ..
  qed (simp add: assms)
qed

lemma open_only_after:
  assumes "\<And>e. only_after (\<lambda>v v'. signed_out i u (db v')) T G (h (Inl e))"
    and "\<And>s. Session_ID s = i \<Longrightarrow> \<not> Session_IsBlocked s \<Longrightarrow> only_after (\<lambda>v v'. signed_out i u (db v')) T G (h (Inr s))"
  shows "only_after (\<lambda>v v'. signed_out i u (db v')) T G (calling (GetSession E i) h)" (is "only_after ?C _ _ _")
proof (rule only_after_calling)
  fix w x w' assume run: "run (GetSession E i) w = (x, w')"
  show "?C w w' \<or> only_after ?C T G (h x)"
  proof (cases x)
    case (Inr s)
    with run have s: "lookup Session_ID i (sessions (db w)) = Some s" "db w' = db w"
      by (auto simp: GetSession_def sql_GetSession_def dest!: query_InrD split: option.splits)
    show ?thesis
    proof (cases "Session_IsBlocked s")
      case True
      with s show ?thesis by (simp add: signed_out_def)
    next
      case False
      with assms(2) Inr lookup_SomeD [OF s(1)] show ?thesis by simp
    qed
  qed (simp add: assms(1))
qed

lemma logout_only_after:
  assumes "Server_tokenMaker srv = PasetoMaker E k"
    and "paseto_Decrypt E (logoutRequest_RefreshToken req) k = Inr q"
  shows "only_after (\<lambda>v v'. signed_out (Payload_ID q) u (db v')) T (\<lambda>rsp. status rsp = 200) (logout_proc E srv p (Some req))"
proof (cases "ShouldBind logoutRequest_valid (Some req)")
  case (Inr req')
  then have req: "req' = req" by (simp split: if_splits)
  have session: "only_after (\<lambda>v v'. signed_out (Payload_ID q) u (db v')) T (\<lambda>rsp. status rsp = 200)
      (calling (GetSession E (Payload_ID q)) (\<lambda>s. case s of
        Inl err \<Rightarrow> if err = ErrNoRows then reply_error StatusNotFound err else reply_error StatusInternalServerError err
      | Inr session \<Rightarrow>
          if Session_Username session \<noteq> Payload_Username p then
            reply_error StatusUnauthorized (Errorf ''session doesn't belong to the authenticated user'')
          else if Session_IsBlocked session then
            reply StatusOK (LogoutBody \<lparr>logoutResponse_SessionID = Session_ID session\<rparr>)
          else calling (BlockSession E (Session_ID session)) (\<lambda>b. case b of
            Inl err \<Rightarrow> reply_error StatusInternalServerError err
          | Inr blocked \<Rightarrow> reply StatusOK (LogoutBody \<lparr>logoutResponse_SessionID = Session_ID blocked\<rparr>))))"
    by (rule open_only_after) (auto intro!: only_after_error block_only_after)
  show ?thesis
    unfolding logout_proc_def Inr sum.case assms(1) req
    by (rule only_after_calling)
      (auto simp: PasetoMaker_def run_paseto_VerifyToken assms(2) split: if_splits intro: session only_after_error)
qed (simp add: logout_proc_def reply_error_def done_after)

lemma signs_out_only_after:
  assumes "Server_tokenMaker srv = PasetoMaker E k" and "signs_out E k u i c"
  shows "only_after (\<lambda>v v'. signed_out i u (db v')) T says_200 (handle_proc E srv c)"
  using assms
  by (auto simp: signs_out_def handle_proc.simps intro!: only_after_map authMiddleware_only_after logoutAll_only_after
      logout_only_after)

section \<open>Runs\<close>

abbreviation arrive :: "env \<Rightarrow> Server \<Rightarrow> call \<Rightarrow> cluster \<Rightarrow> cluster" where
  "arrive E s c \<equiv> arrive_all E s [c]"

lemma arrive_tasks: "tasks (arrive E s c K) = tasks K @ [Running (handle_proc E s c)]" "engine (arrive E s c K) = engine K"
  by (simp_all add: arrive_all_def)

text \<open>A request is answered 200 only after its call has been made.\<close>

lemma answered_after:
  assumes "(serve_step E s)\<^sup>*\<^sup>* (arrive E s c K) K'" and "only_after C (\<lambda>_. False) says_200 (handle_proc E s c)"
    and "tasks K' ! length (tasks K) = Running (Done (HttpReply rsp))" "status rsp = 200"
  obtains L L' where "(serve_step E s)\<^sup>*\<^sup>* (arrive E s c K) L" "serve_step E s L L'"
    "C (at_committed L) (at_committed L')" "(serve_step E s)\<^sup>*\<^sup>* L' K'"
  using happened_before [OF assms(1), of "length (tasks K)" C says_200 "HttpReply rsp"] assms(2-)
  by (auto simp: arrive_tasks)

lemma sessions_run:
  assumes "Server_tokenMaker srv = PasetoMaker E k" "json_documented E" "db_ok (db w)" "rows_complete (db w)"
    and "(serve_step E srv)\<^sup>*\<^sup>* (open_server w) K" "(serve_step E srv)\<^sup>*\<^sup>* K K'"
  shows "sessions_kept (tables K) (tables K')"
proof -
  have sound: "sound E (db w) K" using assms(5,1-4) by (rule open_run)
  have "tasks_keep sessions_kept (open_server w)" by (simp add: tasks_keep_def open_server_def)
  with sess_open.run_rel [OF assms(5,1) refl assms(2) sound_open [OF assms(3,4)]] have "tasks_keep sessions_kept K" by blast
  with sess_open.run_rel [OF assms(6,1) refl assms(2) sound] show ?thesis by blast
qed

lemma sessions_kept_user:
  "sessions_kept d d' \<Longrightarrow> lookup Session_ID i (sessions d) = Some s \<Longrightarrow>
   \<exists>s'. lookup Session_ID i (sessions d') = Some s' \<and> Session_Username s' = Session_Username s"
  unfolding sessions_kept_def by (metis block_simps(2))

text \<open>
  C7: An access token is only renewed for a session that is live while the renewal is served: if it is
  answered 200, then at a moment between its arrival and its answer the session of the
  presented token existed, was not blocked, belonged to its user and held this token, whatever else
  was served at the time.
\<close>

theorem concurrent_renewal_is_live:
  assumes "Server_tokenMaker srv = PasetoMaker E k"
    and "(serve_step E srv)\<^sup>*\<^sup>* (arrive E srv (Http (PostTokensRenewAccess body)) K) K'"
    and "tasks K' ! length (tasks K) = Running (Done (HttpReply rsp))" "status rsp = 200"
  shows "\<exists>L req q s. (serve_step E srv)\<^sup>*\<^sup>* (arrive E srv (Http (PostTokensRenewAccess body)) K) L \<and>
    (serve_step E srv)\<^sup>*\<^sup>* L K' \<and> body = Some req \<and>
    renewable E k (renewAccessTokenRequest_RefreshToken req) q s (tables L)"
proof -
  obtain L L' where L: "(serve_step E srv)\<^sup>*\<^sup>* (arrive E srv (Http (PostTokensRenewAccess body)) K) L"
    "serve_step E srv L L'" "(serve_step E srv)\<^sup>*\<^sup>* L' K'"
    and live: "\<exists>req. body = Some req \<and> token_live E k (renewAccessTokenRequest_RefreshToken req) (at_committed L)"
    by (rule answered_after [OF assms(2) renew_only_after [OF assms(1)] assms(3,4)])
  from L(2,3) have "(serve_step E srv)\<^sup>*\<^sup>* L K'" by (rule converse_rtranclp_into_rtranclp)
  with L(1) live show ?thesis by (auto simp: token_live_def)
qed

definition example_token :: string where
  "example_token = example_encrypt ''key'' (example_payload ''ann'')"

definition example_renewal :: call where
  "example_renewal = Http (PostTokensRenewAccess (Some \<lparr>renewAccessTokenRequest_RefreshToken = example_token\<rparr>))"

theorem concurrent_renewal_is_live_witness:
  "\<exists>L q s. (serve_step example_env example_server)\<^sup>*\<^sup>*
      (arrive example_env example_server example_renewal (open_server (session_world False))) L \<and>
    renewable example_env ''key'' example_token q s (tables L)"
proof -
  have "case play_on example_env [0, 0, 0, 0] (arrive example_env example_server example_renewal (open_server (session_world False))) of
      None \<Rightarrow> False | Some K \<Rightarrow> answered_with K 0 200 False"
    by code_simp
  then obtain K where K: "play_on example_env [0, 0, 0, 0] (arrive example_env example_server example_renewal
      (open_server (session_world False))) = Some K" "answered_with K 0 200 False"
    by (auto split: option.splits)
  from K(2) obtain rsp where rsp: "tasks K ! 0 = Running (Done (HttpReply rsp))" "status rsp = 200"
    by (rule answered_withE)
  have "length (tasks (open_server (session_world False))) = 0" by (simp add: open_server_def)
  with concurrent_renewal_is_live [OF example_server_maker play_on_run [OF K(1), unfolded example_renewal_def] _ rsp(2)] rsp(1)
  show ?thesis by (auto simp: example_renewal_def)
qed

lemma renewal_refused:
  assumes maker: "Server_tokenMaker srv = PasetoMaker E k"
    and start: "json_documented E" "db_ok (db w)" "rows_complete (db w)" "(serve_step E srv)\<^sup>*\<^sup>* (open_server w) K"
    and run: "(serve_step E srv)\<^sup>*\<^sup>* (arrive E srv (Http (PostTokensRenewAccess (Some req))) K) K'"
    and blocked: "lookup Session_ID i (sessions (tables K)) = Some s" "Session_IsBlocked s"
    and token: "paseto_Decrypt E (renewAccessTokenRequest_RefreshToken req) k = Inr q" "Payload_ID q = i"
    and answer: "tasks K' ! length (tasks K) = Running (Done (HttpReply rsp))"
  shows "status rsp \<noteq> 200"
proof
  assume 200: "status rsp = 200"
  let ?c = "Http (PostTokensRenewAccess (Some req))"
  obtain L where L: "(serve_step E srv)\<^sup>*\<^sup>* (arrive E srv ?c K) L"
    "token_live E k (renewAccessTokenRequest_RefreshToken req) (at_committed L)"
    by (rule answered_after [OF run renew_only_after [OF maker] answer 200]) auto
  have "sessions_kept (tables K) (tables L)"
    by (rule sessions_run [OF maker start rtranclp_trans [OF arrive_all_run L(1)]])
  then obtain s' where "lookup Session_ID i (sessions (tables L)) = Some s'" "Session_IsBlocked s'"
    using blocked by (rule sessions_kept_blocked)
  with L(2) token show False by (auto simp: token_live_def renewable_def)
qed

text \<open>
  C6: Signing out holds against concurrent requests: once a \<open>POST /users/logout\<close> for a session, or
  a \<open>POST /users/logout_all\<close> of its user, has been answered 200, a renewal for the session that arrives
  later is never answered 200, if the session was there when the sign-out arrived; whatever is
  served between, before and during both and however the calls of all these requests are interleaved.
\<close>

theorem concurrent_signout:
  assumes maker: "Server_tokenMaker srv = PasetoMaker E k"
    and start: "json_documented E" "db_ok (db w)" "rows_complete (db w)" "(serve_step E srv)\<^sup>*\<^sup>* (open_server w) K"
    and session: "lookup Session_ID i (sessions (tables K)) = Some s" "signs_out E k (Session_Username s) i c"
    and signout: "(serve_step E srv)\<^sup>*\<^sup>* (arrive E srv c K) K1"
      "tasks K1 ! length (tasks K) = Running (Done (HttpReply rsp))" "status rsp = 200"
    and renewal: "(serve_step E srv)\<^sup>*\<^sup>* (arrive E srv (Http (PostTokensRenewAccess (Some req))) K1) K2"
      "tasks K2 ! length (tasks K1) = Running (Done (HttpReply rsp'))"
    and token: "paseto_Decrypt E (renewAccessTokenRequest_RefreshToken req) k = Inr q" "Payload_ID q = i"
  shows "status rsp' \<noteq> 200"
proof -
  obtain L L' where L: "(serve_step E srv)\<^sup>*\<^sup>* (arrive E srv c K) L" "serve_step E srv L L'"
      "signed_out i (Session_Username s) (db (at_committed L'))" "(serve_step E srv)\<^sup>*\<^sup>* L' K1"
    by (rule answered_after [OF signout(1) signs_out_only_after [OF maker session(2)] signout(2,3)])
  have to_L': "(serve_step E srv)\<^sup>*\<^sup>* K L'"
    using arrive_all_run L(1,2) by (meson rtranclp_trans rtranclp.rtrancl_into_rtrancl)
  obtain s' where s': "lookup Session_ID i (sessions (tables L')) = Some s'" "Session_Username s' = Session_Username s"
    using sessions_kept_user [OF sessions_run [OF maker start to_L'] session(1)] by blast
  with L(3) have "Session_IsBlocked s'" by (simp add: signed_out_def)
  moreover have "sessions_kept (tables L') (tables K1)"
    by (rule sessions_run [OF maker start(1-3) rtranclp_trans [OF start(4) to_L'] L(4)])
  ultimately obtain s1 where s1: "lookup Session_ID i (sessions (tables K1)) = Some s1" "Session_IsBlocked s1"
    using sessions_kept_blocked s'(1) by blast
  have "(serve_step E srv)\<^sup>*\<^sup>* (open_server w) K1"
    using start(4) to_L' L(4) by (meson rtranclp_trans)
  from renewal_refused [OF maker start(1-3) this renewal(1) s1 token renewal(2)] show ?thesis .
qed

definition example_logout :: call where
  "example_logout = Http (PostUsersLogout example_header (Some \<lparr>logoutRequest_RefreshToken = example_token\<rparr>))"

theorem concurrent_signout_witness:
  "\<exists>K1 rsp K2 rsp'.
    (serve_step example_env example_server)\<^sup>*\<^sup>*
      (arrive example_env example_server example_logout (open_server (session_world False))) K1 \<and>
    tasks K1 ! 0 = Running (Done (HttpReply rsp)) \<and> status rsp = 200 \<and>
    (serve_step example_env example_server)\<^sup>*\<^sup>* (arrive example_env example_server example_renewal K1) K2 \<and>
    tasks K2 ! 1 = Running (Done (HttpReply rsp')) \<and> status rsp' \<noteq> 200"
proof -
  let ?K = "open_server (session_world False)"
  have "case play_on example_env [0, 0, 0, 0] (arrive example_env example_server example_logout ?K) of
      None \<Rightarrow> False
    | Some K1 \<Rightarrow> answered_with K1 0 200 False \<and> length (tasks K1) = 1 \<and>
        (case play_on example_env [1, 1] (arrive example_env example_server example_renewal K1) of
           None \<Rightarrow> False | Some K2 \<Rightarrow> answered_with K2 1 401 False)"
    by code_simp
  then obtain K1 K2 where K1: "play_on example_env [0, 0, 0, 0] (arrive example_env example_server example_logout ?K) = Some K1"
    "answered_with K1 0 200 False" "length (tasks K1) = 1"
    and K2: "play_on example_env [1, 1] (arrive example_env example_server example_renewal K1) = Some K2" "answered_with K2 1 401 False"
    by (auto split: option.splits)
  obtain rsp where rsp: "tasks K1 ! 0 = Running (Done (HttpReply rsp))" "status rsp = 200" by (rule answered_withE [OF K1(2)])
  obtain rsp' where rsp': "tasks K2 ! 1 = Running (Done (HttpReply rsp'))" by (rule answered_withE [OF K2(2)])
  have open_: "length (tasks ?K) = 0" "tables ?K = db (session_world False)" by (simp_all add: open_server_def idle_def)
  have ok: "db_ok (db (session_world False))" "rows_complete (db (session_world False))"
    using example_documented(2) by (simp_all add: session_world_def ok_defs example_defs example_session_def rows_complete_def)
  have "bearer_token example_header = Some example_token"
    using example_header_fields by (simp add: bearer_token_def example_header_def example_token_def)
  moreover have token: "paseto_Decrypt example_env example_token ''key'' = Inr (example_payload ''ann'')"
    "Payload_ID (example_payload ''ann'') = 7"
    by (simp_all add: example_token_def example_decrypt_encrypt example_payload_def)
  ultimately have out: "signs_out example_env ''key'' (Session_Username (example_session False)) 7 example_logout"
    unfolding signs_out_def example_logout_def by (force simp: example_payload_def)
  have session: "lookup Session_ID 7 (sessions (tables ?K)) = Some (example_session False)" by (simp add: open_)
  have "status rsp' \<noteq> 200"
    using concurrent_signout [OF example_server_maker example_documented(1) ok rtranclp.rtrancl_refl session out
        play_on_run [OF K1(1)] _ rsp(2) play_on_run [OF K2(1), unfolded example_renewal_def] _ _ token(2)]
      rsp(1) rsp' token(1) by (simp add: open_ K1(3))
  with rsp rsp' play_on_run [OF K1(1)] play_on_run [OF K2(1)] show ?thesis by blast
qed

end
