(* ===== verification/Tx_Alone.thy ===== *)
theory Tx_Alone
  imports Concurrent_Constraints
begin

text \<open>
  A transaction that nothing interleaves with: a call of the store, as Store has it, with its
  failures, is a run of Concurrency in which the other transactions hold no locks.
\<close>

section \<open>Statements\<close>

text \<open>After a statement a transaction sees the tables that the statement leaves.\<close>

lemma update_where_row:
  "distinct (map key rows) \<Longrightarrow> lookup key k rows = Some r \<Longrightarrow>
   update_where (\<lambda>x. key x = k) f rows = update_where (\<lambda>x. key x = k) (\<lambda>_. f r) rows"
  unfolding update_where_def by (intro map_cong) (auto dest!: lookup_SomeD simp: distinct_map inj_on_def)

lemma view_append: "view C (ws @ vs) = view (view C ws) vs"
  by (simp add: view_def)

lemma view_rollback: "view (rollback_to C d) ws = rollback_to (view C ws) d"
proof (induction ws arbitrary: C)
  case (Cons w ws)
  have "apply_write w (rollback_to C d) = rollback_to (apply_write w C) d"
    by (cases w) (simp_all add: apply_write_def rollback_to_def)
  with Cons show ?case by (simp add: view_def)
qed (simp add: view_def)

lemma rollback_rollback [simp]: "rollback_to (rollback_to C d) d' = rollback_to C d'" "rollback_to C C = C"
  by (simp_all add: rollback_to_def)

lemma rollback_view [simp]: "rollback_to C (view C ws) = C"
  by (simp add: rollback_to_def)

lemma perform_view:
  assumes "perform q now v = (p, vs, d)" and ok: "db_ok v"
  shows "view (rollback_to v d) vs = d"
proof (cases q)
  case (Return r)
  with assms(1) show ?thesis by (auto simp: view_def)
next
  case (Transfer_stmt arg k)
  with assms(1) show ?thesis
    by (auto simp: view_def apply_write_def wrote_def rollback_to_def sql_CreateTransfer_def Let_def split: sum.splits if_splits)
next
  case (Entry_stmt arg k)
  with assms(1) show ?thesis
    by (auto simp: view_def apply_write_def wrote_def rollback_to_def sql_CreateEntry_def Let_def split: sum.splits if_splits)
next
  case (Balance_stmt arg k)
  show ?thesis
  proof (cases "lookup Account_ID (AddAccountBalanceParams_ID arg) (accounts v)")
    case None
    with Balance_stmt assms(1) show ?thesis by (auto simp: view_def wrote_def sql_AddAccountBalance_def)
  next
    case (Some a)
    have "distinct (map Account_ID (accounts v))" using ok by (simp add: db_ok_def accounts_ok_def ids_within_def)
    note row = update_where_row [OF this Some, of "add_to_balance (AddAccountBalanceParams_Amount arg)"]
    with Balance_stmt assms(1) Some lookup_SomeD [OF Some] show ?thesis
      by (auto simp: view_def apply_write_def wrote_def rollback_to_def sql_AddAccountBalance_def Let_def split: if_splits)
  qed
next
  case (Claim_stmt arg k)
  with assms(1) show ?thesis
    by (auto simp: view_def apply_write_def wrote_def rollback_to_def sql_CreateIdempotencyKey_def Let_def
      split: sum.splits if_splits)
next
  case (Complete_stmt arg k)
  let ?pk = "(CompleteIdempotencyKeyParams_Owner arg, CompleteIdempotencyKeyParams_Key arg)"
  show ?thesis
  proof (cases "lookup key_of ?pk (idempotency_keys v)")
    case None
    with Complete_stmt assms(1) show ?thesis by (auto simp: view_def wrote_def sql_CompleteIdempotencyKey_def Let_def)
  next
    case (Some row)
    have "distinct (map key_of (idempotency_keys v))" using ok by (simp add: db_ok_def keys_ok_def)
    note same = update_where_row [OF this Some, of "\<lambda>k. k\<lparr>IdempotencyKey_ResponseBody := CompleteIdempotencyKeyParams_ResponseBody arg\<rparr>"]
    have "key_of (row\<lparr>IdempotencyKey_ResponseBody := b\<rparr>) = ?pk" for b
      using lookup_SomeD [OF Some] by (simp add: key_of_def)
    with Complete_stmt assms(1) Some same show ?thesis
      by (auto simp: view_def apply_write_def wrote_def rollback_to_def sql_CompleteIdempotencyKey_def Let_def)
  qed
qed

text \<open>A program that returns the error of a statement at once.\<close>

primrec prompt :: "'r prog \<Rightarrow> bool" where
  "prompt (Return r) = True"
| "prompt (Transfer_stmt arg k) \<longleftrightarrow> (\<forall>e. k (Inl e) = Return (Inl e)) \<and> (\<forall>x. prompt (k (Inr x)))"
| "prompt (Entry_stmt arg k) \<longleftrightarrow> (\<forall>e. k (Inl e) = Return (Inl e)) \<and> (\<forall>x. prompt (k (Inr x)))"
| "prompt (Balance_stmt arg k) \<longleftrightarrow> (\<forall>e. k (Inl e) = Return (Inl e)) \<and> (\<forall>x. prompt (k (Inr x)))"
| "prompt (Claim_stmt arg k) \<longleftrightarrow> (\<forall>e. k (Inl e) = Return (Inl e)) \<and> (\<forall>x. prompt (k (Inr x)))"
| "prompt (Complete_stmt arg k) \<longleftrightarrow> (\<forall>e. k (Inl e) = Return (Inl e)) \<and> (\<forall>x. prompt (k (Inr x)))"

lemma prompt_try: "prompt p \<Longrightarrow> (\<And>x. prompt (f x)) \<Longrightarrow> prompt (try_prog p f)"
  by (induction p) (auto split: sum.splits)

lemma prompt_transferTx: "prompt (transferTx_prog arg)"
  by (auto simp: transferTx_prog_def addMoney_prog_def Let_def split: sum.split)

lemma prompt_job: "prompt (job_prog E j)"
proof (cases j)
  case (Keyed arg)
  then show ?thesis
    by (auto simp: job_prog_def claimAndTransfer_prog_def prompt_transferTx split: sum.split intro!: prompt_try)
qed (simp add: job_prog_def prompt_transferTx)

lemma exec_statement:
  assumes "perform q (server_now E w) (db w) = (p, vs, d)" and "at_statement q" "prompt q"
  shows "run (exec_prog E q) w = (case net E (tick w) of
      NoFault \<Rightarrow> run (exec_prog E p) (w\<lparr>db := d, tick := Suc (tick w)\<rparr>)
    | FaultBefore m \<Rightarrow> (Inl (OtherErr m), w\<lparr>tick := Suc (tick w)\<rparr>)
    | FaultAfter m \<Rightarrow> (Inl (OtherErr m), w\<lparr>db := d, tick := Suc (tick w)\<rparr>))"
    and "prompt p"
proof -
  show "run (exec_prog E q) w = (case net E (tick w) of
      NoFault \<Rightarrow> run (exec_prog E p) (w\<lparr>db := d, tick := Suc (tick w)\<rparr>)
    | FaultBefore m \<Rightarrow> (Inl (OtherErr m), w\<lparr>tick := Suc (tick w)\<rparr>)
    | FaultAfter m \<Rightarrow> (Inl (OtherErr m), w\<lparr>db := d, tick := Suc (tick w)\<rparr>))"
    using assms
    by (cases q)
      (auto simp: at_statement_def CreateTransfer_def CreateEntry_def AddAccountBalance_def CreateIdempotencyKey_def
        CompleteIdempotencyKey_def run_query split: prod.splits fault.splits)
  have rest: "prompt (k r)" if "\<forall>e. k (Inl e) = Return (Inl e)" "\<forall>x. prompt (k (Inr x))" for k :: "error + 'b \<Rightarrow> 'a prog" and r
    using that by (cases r) simp_all
  show "prompt p"
    using assms by (cases q) (auto simp: at_statement_def rest split: prod.splits)
qed

section \<open>Transactions\<close>

text \<open>
  Transaction \<open>n\<close> runs its program; it ends with the result of the program, or a connection was lost on the way.
\<close>

definition ran :: "'r system \<Rightarrow> nat \<Rightarrow> world \<Rightarrow> error + 'r \<Rightarrow> world \<Rightarrow> 'r system \<Rightarrow> bool" where
  "ran S n w r w' S' \<longleftrightarrow> act\<^sup>*\<^sup>* S S' \<and>
     (\<exists>T. txs S' = (txs S)[n := T] \<and> tx_result T = None \<and>
        (tx_prog T = Return r \<and> db w' = view (committed S') (tx_writes T) \<or> (\<exists>m. r = Inl (OtherErr m)))) \<and>
     committed S' = rollback_to (committed S) (db w') \<and> tick w \<le> tick w' \<and> tx_start w' = tx_start w"

lemma ran_here:
  assumes "n < length (txs S)" "tx_result (txs S ! n) = None" "db w = view (committed S) (tx_writes (txs S ! n))"
    and "tx_prog (txs S ! n) = Return r \<and> db w' = db w \<or> (\<exists>m. r = Inl (OtherErr m))"
    and "db w' = db w" "tick w \<le> tick w'" "tx_start w' = tx_start w"
  shows "ran S n w r w' S"
  using assms unfolding ran_def by (intro conjI exI [of _ "txs S ! n"]) auto

lemma ran_step:
  assumes "act S S1" and "txs S1 = (txs S)[n := T1]" "committed S1 = rollback_to (committed S) d1" "tick w \<le> tick w1"
    and "tx_start w1 = tx_start w" and "ran S1 n w1 r w' S'"
  shows "ran S n w r w' S'"
  using assms unfolding ran_def by (auto intro: converse_rtranclp_into_rtranclp)

lemma engine_runs:
  assumes "run (exec_prog E q) w = (r, w')" and "tx_prog (txs S ! n) = q" "prompt q" "constrained S"
    and n: "n < length (txs S)" "tx_result (txs S ! n) = None"
    and alone: "\<And>j. j < length (txs S) \<Longrightarrow> j \<noteq> n \<Longrightarrow> tx_locks (txs S ! j) = {}"
    and "db w = view (committed S) (tx_writes (txs S ! n))" "server_now E w = tx_now (txs S ! n)" "tx_start w = Some t0"
  shows "\<exists>S'. ran S n w r w' S'"
  using wf_after_stmt assms
proof (induction q arbitrary: S w rule: wf_induct_rule)
  case (less q)
  show ?case
  proof (cases "at_statement q")
    case False
    then obtain r0 where q: "q = Return r0" by (cases q) (simp_all add: at_statement_def)
    with less.prems(1) have "r0 = r" "w' = w" by simp_all
    with q less.prems show ?thesis by (intro exI [of _ S] ran_here) simp_all
  next
    case True
    let ?T = "txs S ! n"
    obtain p vs d where perf: "perform q (server_now E w) (db w) = (p, vs, d)" by (metis prod_cases3)
    let ?S = "run_statement S n"
    from perf less.prems have perf': "perform (tx_prog ?T) (tx_now ?T) (view (committed S) (tx_writes ?T)) = (p, vs, d)" by simp
    note sel = run_statement_sel [OF perf']
    have "may_run S n" using less.prems(7) by (auto simp: may_run_def split: option.split)
    with less.prems(2,5,6) True have act: "act S ?S" by (auto simp: act_def tx_act_def intro: tx_step.statement)
    have c: "constrained ?S" by (rule constraints.act_kept [OF act less.prems(4)])
    note ok = constrainedD(2,3) [OF less.prems(4,5)]
    have seen: "view (committed ?S) (tx_writes ?T @ vs) = d"
      using perform_view [OF perf'] db_ok_view [OF ok] by (simp add: sel(2) view_append view_rollback)
    note exec = exec_statement [OF perf True less.prems(3)]
    have T: "txs ?S ! n = ?T\<lparr>tx_prog := p, tx_writes := tx_writes ?T @ vs,
        tx_locks := (if vs = [] then tx_locks ?T else tx_locks ?T \<union> set_option (wants (tx_prog ?T)))\<rparr>"
      using less.prems(5) by (simp add: sel(1))
    have n': "n < length (txs ?S)" "tx_result (txs ?S ! n) = None" using less.prems(5,6) by (simp_all add: sel(1))
    show ?thesis
    proof (cases "net E (tick w)")
      case NoFault
      let ?w = "w\<lparr>db := d, tick := Suc (tick w)\<rparr>"
      have after: "(p, q) \<in> {(p, q). after_stmt p q}" using perform_after [OF perf True] by simp
      have now: "server_now E ?w = tx_now (txs ?S ! n)" using less.prems(9,10) by (simp add: server_now_def T)
      obtain S' where "ran ?S n ?w r w' S'"
        using less.IH [OF after, of ?w ?S] NoFault exec less.prems(1,7,10) c n' now seen T by (auto simp: sel(1))
      then have "ran S n w r w' S'"
        by (intro ran_step [OF act sel(1) sel(2), of w ?w]) simp_all
      then show ?thesis ..
    next
      case (FaultBefore m)
      with less.prems exec(1) show ?thesis by (intro exI [of _ S] ran_here) auto
    next
      case (FaultAfter m)
      let ?w = "w\<lparr>db := d, tick := Suc (tick w)\<rparr>"
      from FaultAfter less.prems(1) exec(1) have r: "r = Inl (OtherErr m)" "w' = ?w" by simp_all
      have "ran ?S n ?w r w' ?S" by (rule ran_here [OF n']) (simp_all add: r seen T)
      then have "ran S n w r w' ?S" by (intro ran_step [OF act sel(1) sel(2), of w ?w]) simp_all
      then show ?thesis ..
    qed
  qed
qed

end
