(* ===== verification/Sequential_Runs.thy ===== *)
theory Sequential_Runs
  imports Before_Answer Tx_Alone
begin

text \<open>
  Requests that are served one after another, as the functions of the handlers have it, with whatever
  failures, are a run of the concurrent servers: what is proved of all such runs holds there.
\<close>

section \<open>A call of the store\<close>

text \<open>A transaction that has ended with a result.\<close>

definition ended_with :: "'r tx \<Rightarrow> error + 'r \<Rightarrow> bool" where
  "ended_with T r \<longleftrightarrow> tx_result T = Some r \<and> tx_locks T = {}"

lemma finish_ended:
  assumes "n < length (txs S)"
  shows "\<exists>T. txs (finish S n c r) = (txs S)[n := T] \<and> ended_with T r"
  by (auto simp: ended_with_def)

lemma finish_act:
  assumes "n < length (txs S)" "tx_result (txs S ! n) = None"
    and "c \<Longrightarrow> \<exists>x. tx_prog (txs S ! n) = Return (Inr x) \<and> (r = Inr x \<or> (\<exists>m. r = Inl (OtherErr m)))"
    and "\<not> c \<Longrightarrow> (\<exists>m. r = Inl (OtherErr m)) \<or> (\<exists>e. r = Inl e \<and> tx_prog (txs S ! n) = Return (Inl e)) \<or>
      (\<exists>e m. r = Inl (TxErr e (OtherErr m)) \<and> ((\<exists>m'. e = OtherErr m') \<or> tx_prog (txs S ! n) = Return (Inl e)))"
  shows "act S (finish S n c r)"
  using assms unfolding act_def tx_act_def
  by (cases c) (auto intro: tx_step.intros tx_fault.intros)

lemma committed_finish_by: "committed (finish S n c r) = (if c then view (committed S) (tx_writes (txs S ! n)) else committed S)"
  by (simp add: finish_def Let_def)

text \<open>After its function, a transaction is committed or rolled back, and the answer to that may be lost.\<close>

lemma end_runs:
  assumes ran: "ran S n w0 r1 w1 S1" and n: "n < length (txs S)" and "db w = committed S"
    and "run (case r1 of
        Inl err \<Rightarrow> Rollback E (db w) \<bind> (\<lambda>rb. case rb of Inl rbErr \<Rightarrow> ret (Inl (TxErr err rbErr)) | Inr _ \<Rightarrow> ret (Inl err))
      | Inr x \<Rightarrow> Commit E (db w) \<bind> (\<lambda>c. case c of Inl err \<Rightarrow> ret (Inl err) | Inr _ \<Rightarrow> ret (Inr x))) w1 = (r, w')"
  shows "\<exists>S' T. act\<^sup>*\<^sup>* S S' \<and> txs S' = (txs S)[n := T] \<and> ended_with T r \<and> committed S' = db w' \<and>
    tick w0 \<le> tick w' \<and> tx_start w' = None"
proof -
  obtain T where run: "act\<^sup>*\<^sup>* S S1" "txs S1 = (txs S)[n := T]" "tx_result T = None"
    and T: "tx_prog T = Return r1 \<and> db w1 = view (committed S1) (tx_writes T) \<or> (\<exists>m. r1 = Inl (OtherErr m))"
    and C: "committed S1 = rollback_to (committed S) (db w1)" "tick w0 \<le> tick w1"
    using ran unfolding ran_def by blast
  have n1: "n < length (txs S1)" "txs S1 ! n = T" using n run(2) by simp_all
  have fin: "\<exists>S' T. act\<^sup>*\<^sup>* S S' \<and> txs S' = (txs S)[n := T] \<and> ended_with T r \<and> committed S' = db w' \<and>
      tick w0 \<le> tick w' \<and> tx_start w' = None"
    if "act S1 (finish S1 n c r)" "committed (finish S1 n c r) = db w'" "tick w1 \<le> tick w'" "tx_start w' = None" for c
  proof -
    from finish_ended [OF n1(1)] obtain U where "txs (finish S1 n c r) = (txs S)[n := U]" "ended_with U r"
      using run(2) by auto
    with that run(1) C(2) show ?thesis by (meson order_trans rtranclp.rtrancl_into_rtrancl)
  qed
  show ?thesis
  proof (cases r1)
    case (Inl e)
    with assms(4) have "r = Inl e \<or> (\<exists>m. r = Inl (TxErr e (OtherErr m)))" "db w' = rollback_to (committed S) (db w1)"
      "tick w' = Suc (tick w1)" "tx_start w' = None"
      by (auto simp: Rollback_def assms(3) Let_def split: fault.splits)
    with T Inl n1 run(3) C show ?thesis
      by (intro fin [of False] finish_act) (auto simp: committed_finish_by)
  next
    case (Inr x)
    with T have prog: "tx_prog T = Return (Inr x)" "db w1 = view (committed S1) (tx_writes T)" by auto
    show ?thesis
    proof (cases "net E (tick w1)")
      case (FaultBefore m)
      with assms(3,4) Inr have "r = Inl (OtherErr m)" "db w' = rollback_to (committed S) (db w1)"
        "tick w' = Suc (tick w1)" "tx_start w' = None"
        by (auto simp: Commit_def Let_def)
      with n1 run(3) C show ?thesis
        by (intro fin [of False] finish_act) (auto simp: committed_finish_by)
    next
      case NoFault
      with assms(4) Inr have "r = Inr x" "db w' = db w1" "tick w' = Suc (tick w1)" "tx_start w' = None"
        by (auto simp: Commit_def Let_def)
      with n1 run(3) prog show ?thesis
        by (intro fin [of True] finish_act) (auto simp: committed_finish_by)
    next
      case (FaultAfter m)
      with assms(4) Inr have "r = Inl (OtherErr m)" "db w' = db w1" "tick w' = Suc (tick w1)" "tx_start w' = None"
        by (auto simp: Commit_def Let_def)
      with n1 run(3) prog show ?thesis
        by (intro fin [of True] finish_act) (auto simp: committed_finish_by)
    qed
  qed
qed

lemma store_call_exec: "store_call E j = execTx E (exec_prog E (job_prog E j))"
  by (cases j) (simp_all add: store_call_def job_prog_def TransferTx_def IdempotentTransferTx_def exec_transferTx_prog
    exec_claimAndTransfer_prog)

lemma store_call_runs:
  assumes run: "run (store_call E j) w = (r, w')" and "constrained S" "db w = committed S"
    and "\<forall>T \<in> set (txs S). tx_locks T = {}"
  obtains (refused) m where "r = Inl (OtherErr m)" "w' = w\<lparr>tick := Suc (tick w)\<rparr>"
  | (served) now S' T where "act\<^sup>*\<^sup>* (begin_tx E (now, j) S) S'" "txs S' = txs S @ [T]" "ended_with T r"
      "committed S' = db w'" "tick w \<le> tick w'" "tx_start w' = None"
proof (cases "net E (tick w)")
  case NoFault
  let ?now = "pg_timestamp E (db_clock E (tick w))" and ?n = "length (txs S)"
  let ?S = "begin_tx E (?now, j) S"
  obtain r1 w1 where fn: "run (exec_prog E (job_prog E j)) (in_tx E w) = (r1, w1)" by fastforce
  have new: "txs ?S ! ?n = fresh_tx E (?now, j)" by simp
  have "server_now E (in_tx E w) = tx_now (txs ?S ! ?n)"
    by (simp add: server_now_def in_tx_def fresh_tx_def)
  then obtain S1 where ran: "ran ?S ?n (in_tx E w) r1 w1 S1"
    using engine_runs [OF fn, of ?S ?n] assms(3,4) constrained_begin [OF assms(2)]
    by (auto simp: prompt_job nth_append view_def in_tx_def)
  have "run (case r1 of
        Inl err \<Rightarrow> Rollback E (db w) \<bind> (\<lambda>rb. case rb of Inl rbErr \<Rightarrow> ret (Inl (TxErr err rbErr)) | Inr _ \<Rightarrow> ret (Inl err))
      | Inr x \<Rightarrow> Commit E (db w) \<bind> (\<lambda>c. case c of Inl err \<Rightarrow> ret (Inl err) | Inr _ \<Rightarrow> ret (Inr x))) w1 = (r, w')"
    using run NoFault fn by (auto simp: store_call_exec execTx_def BeginTx_def in_tx_def split: sum.splits)
  from end_runs [OF ran _ _ this] assms(3) obtain S' T where
    "act\<^sup>*\<^sup>* ?S S'" "txs S' = (txs ?S)[?n := T]" "ended_with T r" "committed S' = db w'" "tick (in_tx E w) \<le> tick w'" "tx_start w' = None"
    by auto
  then show thesis by (intro served [of ?now S' T]) (simp_all add: in_tx_def)
next
  case (FaultBefore m)
  with run show thesis by (intro refused [of m]) (simp_all add: store_call_exec run_execTx)
next
  case (FaultAfter m)
  with run show thesis by (intro refused [of m]) (simp_all add: store_call_exec run_execTx)
qed

section \<open>Calls outside of transactions\<close>

definition steady :: "world \<Rightarrow> world \<Rightarrow> bool" where
  "steady w w' \<longleftrightarrow> tx_start w' = tx_start w"

interpretation steady_run: run_relation steady
  by unfold_locales (simp_all add: steady_def)

lemma steady_prims: "always steady (query E s)" "always steady (time_Now E)" "always steady (draw f)"
  by (auto intro!: alwaysI simp: steady_def run_time_Now run_draw dest: query_db)

lemmas steady_intros = steady_run.always_intros steady_prims

lemma steady_tokens:
  "always steady (CreateToken (PasetoMaker E k) u dur)" "always steady (VerifyToken (PasetoMaker E k) tok)"
  unfolding PasetoMaker_def paseto_CreateToken_def paseto_VerifyToken_def NewPayload_def Payload_Valid_def
  by (simp_all, (intro steady_intros)+)

interpretation steady_calls: call_contract steady "PasetoMaker E k" E for E k
proof unfold_locales
  show "always steady (HashPassword E pw)" for pw
    unfolding HashPassword_def by (intro steady_intros)
  then show "always steady (add_password E req)" for req
    unfolding add_password_def fail_def by (intro steady_intros)
  show "always steady (authorizeUser s ctx)" if "Server_tokenMaker s = PasetoMaker E k" for s ctx
    unfolding authorizeUser_def Let_def that by (intro steady_intros steady_tokens)
qed (simp_all add: steady_tokens steady_prims CreateUser_def GetUser_def UpdateUser_def CreateAccount_def GetAccount_def
  ListAccounts_def GetIdempotencyKey_def CreateSession_def GetSession_def BlockSession_def BlockUserSessions_def Ping_def)

section \<open>A process\<close>

text \<open>Between requests no transaction is open.\<close>

definition quiet :: "env \<Rightarrow> database \<Rightarrow> cluster \<Rightarrow> bool" where
  "quiet E d K \<longleftrightarrow> sound E d K \<and> (\<forall>T \<in> set (txs (engine K)). tx_locks T = {}) \<and> tx_start (outer K) = None"

lemma act_work: "act\<^sup>*\<^sup>* S S' \<Longrightarrow> engine K = S \<Longrightarrow> (work_step E)\<^sup>*\<^sup>* K (K\<lparr>engine := S'\<rparr>)"
proof (induction rule: rtranclp_induct)
  case (step T U)
  from transacts [of "K\<lparr>engine := T\<rparr>" U E] step(2) have "work_step E (K\<lparr>engine := T\<rparr>) (K\<lparr>engine := U\<rparr>)" by simp
  with step(3) [OF step(4)] show ?case by (rule rtranclp.rtrancl_into_rtrancl)
qed (cases K, simp)

lemma sound_works: "(work_step E)\<^sup>*\<^sup>* K K' \<Longrightarrow> sound E d K \<Longrightarrow> json_documented E \<Longrightarrow> sound E d K'"
  by (induction rule: rtranclp_induct) (auto intro: sound_work)

lemma proc_runs:
  assumes "run (exec_proc E p) (at_committed K) = (r, w')" and "keeps steady (\<lambda>_. True) p"
    and "i < length (tasks K)" "tasks K ! i = Running p" and "quiet E d K" and json: "json_documented E"
  shows "\<exists>K'. (work_step E)\<^sup>*\<^sup>* K K' \<and> tasks K' = (tasks K)[i := Running (Done r)] \<and> arrived K' = arrived K \<and>
    at_committed K' = w' \<and> quiet E d K'"
  using assms(1-5)
proof (induction p arbitrary: K)
  case (Done x)
  then have "(tasks K)[i := Running (Done r)] = tasks K" by (auto simp: list_update_same_conv)
  with Done show ?case by (intro exI [of _ K]) simp
next
  case (Call f)
  obtain p w where f: "f (at_committed K) = (p, w)" by fastforce
  let ?K = "to_task (after_outer K w) i (Running p)"
  have st: "work_step E K ?K" using Call.prems(3,4) f by (rule proceeds)
  have keep: "steady v (snd (f v))" "keeps steady (\<lambda>_. True) (fst (f v))" for v
    using Call.prems(2) by (auto elim: keeps_CallE)
  have "tx_start w = None" using keep(1) [of "at_committed K"] Call.prems(5) f
    by (simp add: steady_def at_committed_def quiet_def)
  moreover have "outer ?K = w" "txs (engine ?K) = txs (engine K)" by (simp_all add: after_outer_def)
  ultimately have "quiet E d ?K" using Call.prems(5) sound_work [OF st _ json] by (simp add: quiet_def)
  moreover have "run (exec_proc E p) (at_committed ?K) = (r, w')" using Call.prems(1) f by simp
  moreover have "keeps steady (\<lambda>_. True) p" using keep(2) [of "at_committed K"] f by simp
  ultimately obtain K' where "(work_step E)\<^sup>*\<^sup>* ?K K'" "tasks K' = (tasks ?K)[i := Running (Done r)]" "arrived K' = arrived ?K"
    "at_committed K' = w'" "quiet E d K'"
    using Call.IH [of "(p, w)" p ?K] f Call.prems(3) by (metis fsts.intros length_list_update nth_list_update_eq prod.sel(1) rangeI to_task_sel(1) after_outer_sel(1))
  with st show ?case by (intro exI [of _ K']) (auto intro: converse_rtranclp_into_rtranclp)
next
  case (Transact j k)
  obtain x w1 where x: "run (store_call E j) (at_committed K) = (x, w1)" by fastforce
  with Transact.prems(1) have rest: "run (exec_proc E (k x)) w1 = (r, w')" by simp
  have sound: "sound E d K" and locks: "\<forall>T \<in> set (txs (engine K)). tx_locks T = {}" and out: "tx_start (outer K) = None"
    using Transact.prems(5) by (simp_all add: quiet_def)
  have c: "constrained (engine K)" and len: "length (txs (engine K)) = length (begun K)"
    using sound by (simp_all add: sound_def settled_def sealed_def)
  have keep: "keeps steady (\<lambda>_. True) (k x)" using Transact.prems(2) by (auto elim: keeps_TransactE)
  note IH = Transact.IH [OF rangeI, of x]
  show ?case
  proof (cases rule: store_call_runs [OF x c at_committed_sel locks, case_names refused served])
    case (refused m)
    let ?K = "to_task (at_tick (Suc (tick (outer K))) K) i (Running (k x))"
    have st: "work_step E K ?K"
      using work_step.refused [OF Transact.prems(3,4), of "Suc (tick (outer K))" E m] by (simp add: refused(1))
    have "at_committed ?K = w1" by (simp add: refused(2) at_committed_def at_tick_def to_task_def)
    moreover have "quiet E d ?K"
      using Transact.prems(5) sound_work [OF st sound json] by (simp add: quiet_def at_tick_def to_task_def)
    ultimately obtain K' where "(work_step E)\<^sup>*\<^sup>* ?K K'" "tasks K' = (tasks K)[i := Running (Done r)]" "arrived K' = arrived K"
      "at_committed K' = w'" "quiet E d K'"
      using IH [of ?K] rest keep Transact.prems(3) by auto
    with st show ?thesis by (intro exI [of _ K']) (auto intro: converse_rtranclp_into_rtranclp)
  next
    case (served now S' T)
    let ?n = "length (begun K)"
    let ?K = "to_task (with_tx E K i (now, j)) i (Waiting ?n k)"
    let ?L = "to_task (at_tick (tick w1) (?K\<lparr>engine := S'\<rparr>)) i (Running (k x))"
    have "work_step E K ?K" using Transact.prems(3,4) by (rule begins)
    moreover have "(work_step E)\<^sup>*\<^sup>* ?K (?K\<lparr>engine := S'\<rparr>)" by (rule act_work [OF served(1)]) simp
    moreover have "work_step E (?K\<lparr>engine := S'\<rparr>) ?L"
    proof (rule returns)
      show "tx_result (txs (engine (?K\<lparr>engine := S'\<rparr>)) ! ?n) = Some x"
        using served(2,3) len by (simp add: ended_with_def nth_append)
      show "tick (outer (?K\<lparr>engine := S'\<rparr>)) \<le> tick w1" using served(5) by (simp add: at_committed_def)
    qed (use Transact.prems(3) in simp_all)
    ultimately have st: "(work_step E)\<^sup>*\<^sup>* K ?L"
      by (meson converse_rtranclp_into_rtranclp rtranclp.rtrancl_into_rtrancl)
    have "at_committed ?L = w1"
      using served(4,6) out by (simp add: at_committed_def at_tick_def to_task_def with_tx_def)
    moreover have "quiet E d ?L"
      using sound_works [OF st sound json] locks served(2,3) out
      by (auto simp: quiet_def at_tick_def to_task_def with_tx_def ended_with_def)
    moreover have "tasks ?L = (tasks K)[i := Running (k x)]" "arrived ?L = arrived K" by simp_all
    ultimately obtain K' where "(work_step E)\<^sup>*\<^sup>* ?L K'" "tasks K' = (tasks K)[i := Running (Done r)]" "arrived K' = arrived K"
      "at_committed K' = w'" "quiet E d K'"
      using IH [of ?L] rest keep Transact.prems(3) by auto
    with st show ?thesis by (intro exI [of _ K']) (auto intro: rtranclp_trans)
  qed
qed

section \<open>Requests\<close>

lemma works_serve: "(work_step E)\<^sup>*\<^sup>* K K' \<Longrightarrow> (serve_step E s)\<^sup>*\<^sup>* K K'"
  by (induction rule: rtranclp_induct) (auto intro: works rtranclp.rtrancl_into_rtrancl)

lemma request_runs:
  assumes "run (handle E srv c) (at_committed K) = (r, w')" and maker: "Server_tokenMaker srv = PasetoMaker E k"
    and "quiet E d K" "json_documented E"
  obtains K' where "(serve_step E srv)\<^sup>*\<^sup>* K K'" "tasks K' = tasks K @ [Running (Done r)]" "arrived K' = arrived K @ [c]"
    "at_committed K' = w'" "quiet E d K'"
proof -
  let ?K = "K\<lparr>tasks := tasks K @ [Running (handle_proc E srv c)], arrived := arrived K @ [c]\<rparr>"
  have st: "serve_step E srv K ?K" by (rule arrives)
  have "sound E d ?K" using assms(3,4) sound_step [OF st maker] by (simp add: quiet_def)
  then have "quiet E d ?K" using assms(3) by (simp add: quiet_def)
  moreover have "run (exec_proc E (handle_proc E srv c)) (at_committed ?K) = (r, w')"
    using assms(1) by (simp add: exec_handle at_committed_def)
  ultimately obtain K' where "(work_step E)\<^sup>*\<^sup>* ?K K'" "tasks K' = tasks K @ [Running (Done r)]" "arrived K' = arrived K @ [c]"
    "at_committed K' = w'" "quiet E d K'"
    using proc_runs [of E "handle_proc E srv c" ?K r w' "length (tasks K)" d] assms(4)
      steady_calls.handle_proc_keeps [OF maker, of c "\<lambda>_. True"] by auto
  with st that show thesis by (blast intro: converse_rtranclp_into_rtranclp works_serve)
qed

lemma requests_run:
  assumes "run_all (handle E srv) calls (at_committed K) = (rs, w')" and maker: "Server_tokenMaker srv = PasetoMaker E k"
    and "quiet E d K" and json: "json_documented E"
  shows "\<exists>K'. (serve_step E srv)\<^sup>*\<^sup>* K K' \<and> tasks K' = tasks K @ map (\<lambda>r. Running (Done r)) rs \<and>
    arrived K' = arrived K @ calls \<and> at_committed K' = w' \<and> quiet E d K'"
  using assms(1,3)
proof (induction calls arbitrary: K rs)
  case Nil
  then show ?case by (intro exI [of _ K]) simp
next
  case (Cons c calls)
  obtain r w1 where c: "run (handle E srv c) (at_committed K) = (r, w1)" by fastforce
  obtain rs' where rest: "run_all (handle E srv) calls w1 = (rs', w')" "rs = r # rs'"
    using Cons.prems(1) c by (auto split: prod.splits)
  obtain L where L: "(serve_step E srv)\<^sup>*\<^sup>* K L" "tasks L = tasks K @ [Running (Done r)]" "arrived L = arrived K @ [c]"
    "at_committed L = w1" "quiet E d L"
    by (rule request_runs [OF c maker Cons.prems(2) json])
  from Cons.IH [of L rs'] L rest obtain K' where "(serve_step E srv)\<^sup>*\<^sup>* L K'"
    "tasks K' = tasks L @ map (\<lambda>r. Running (Done r)) rs'" "arrived K' = arrived L @ calls" "at_committed K' = w'" "quiet E d K'"
    by auto
  with L rest(2) show ?case by (intro exI [of _ K']) (auto intro: rtranclp_trans)
qed

text \<open>
  C8: The concurrent servers do what the handlers do. Any requests to both servers, served one after
  another by the functions of the handlers and of the store, under any pattern of failures, are
  also a run of the concurrent servers: it gives each request the same answer and leaves the same
  tables and the same world, by statements of transactions, their commits and their losses.
\<close>

theorem sequential_runs_are_runs:
  assumes "Server_tokenMaker srv = PasetoMaker E k" and "json_documented E" "db_ok (db w)" "rows_complete (db w)"
    and "tx_start w = None"
  shows "\<exists>K. (serve_step E srv)\<^sup>*\<^sup>* (open_server w) K \<and> arrived K = calls \<and>
    tasks K = map (\<lambda>r. Running (Done r)) (fst (run_all (handle E srv) calls w)) \<and>
    at_committed K = snd (run_all (handle E srv) calls w)"
proof -
  have start: "at_committed (open_server w) = w" "tasks (open_server w) = []" "arrived (open_server w) = []"
    by (simp_all add: at_committed_def open_server_def idle_def)
  obtain rs w' where run: "run_all (handle E srv) calls w = (rs, w')" by fastforce
  have "quiet E (db w) (open_server w)"
    using sound_open [OF assms(3,4)] assms(5) by (simp add: quiet_def) (simp add: open_server_def idle_def)
  with requests_run [of E srv calls "open_server w" rs w'] run assms(1,2) show ?thesis
    by (simp add: start) blast
qed

text \<open>A transfer under a key.\<close>

theorem sequential_runs_are_runs_witness:
  "\<exists>K. (serve_step example_env example_server)\<^sup>*\<^sup>* (open_server example_world) K \<and> arrived K = [hd example_arrivals] \<and>
     answered_with K 0 200 False \<and> length (transfers (tables K)) = 1"
proof -
  let ?run = "run (handle example_env example_server (hd example_arrivals)) example_world"
  have ok: "db_ok (db example_world)" "rows_complete (db example_world)" using example_db_ok example_documented(2) by simp_all
  have "tx_start example_world = None" by simp
  from sequential_runs_are_runs [OF example_server_maker example_documented(1) ok this, of "[hd example_arrivals]"] obtain K where
    K: "(serve_step example_env example_server)\<^sup>*\<^sup>* (open_server example_world) K" "arrived K = [hd example_arrivals]"
    "tasks K = map (\<lambda>r. Running (Done r)) (fst (run_all (handle example_env example_server) [hd example_arrivals] example_world))"
    "at_committed K = snd (run_all (handle example_env example_server) [hd example_arrivals] example_world)" by blast
  have "case ?run of
      (HttpReply a, w) \<Rightarrow> status a = 200 \<and> \<not> replay_header a \<and> length (transfers (db w)) = 1
    | _ \<Rightarrow> False"
    by code_simp
  then obtain a w where run: "?run = (HttpReply a, w)" and a: "status a = 200" "\<not> replay_header a" "length (transfers (db w)) = 1"
    by (cases "fst ?run") (auto split: prod.splits)
  have "tasks K ! 0 = Running (Done (HttpReply a))" using K(3) by (simp add: run del: handle.simps)
  moreover have "tables K = db w" using K(4) at_committed_sel [of K] by (simp add: run del: handle.simps)
  ultimately show ?thesis using K(1,2) a by (auto simp: answered_with_def)
qed

end
