(* ===== verification/Gateway.thy ===== *)
theory Gateway
  imports Api_Contract
begin

text \<open>
  The generated code around the gRPC service: \<open>pb/service_bank_grpc.pb.go\<close> (service and client
  interfaces, the handlers that run the interceptor) and the HTTP gateway
  \<open>pb/service_bank.pb.gw.go\<close>, which turns HTTP requests into calls of the service. The
  gateway's runtime library is a parameter: how it decodes a body and annotates a context (for
  a server called in the process, and for a client).
  Every request through either is a call of the service or changes nothing.
\<close>

section \<open>Service and client\<close>

text \<open>\<open>BankServer\<close> and \<open>BankClient\<close> have the same three methods.\<close>

record Bank =
  Bank_CreateUser :: "Context \<Rightarrow> CreateUserRequest \<Rightarrow> pbUser rpc"
  Bank_UpdateUser :: "Context \<Rightarrow> UpdateUserRequest \<Rightarrow> pbUser rpc"
  Bank_LoginUser :: "Context \<Rightarrow> LoginUserRequest \<Rightarrow> LoginUserResponse rpc"

text \<open>The server of package \<open>gapi\<close>.\<close>

definition bank_server :: "env \<Rightarrow> Server \<Rightarrow> Bank" where
  "bank_server E server =
     \<lparr>Bank_CreateUser = (\<lambda>ctx. rpc_CreateUser E), Bank_UpdateUser = rpc_UpdateUser E server,
      Bank_LoginUser = rpc_LoginUser E server\<rparr>"

definition Bank_CreateUser_FullMethodName :: string where
  "Bank_CreateUser_FullMethodName = ''/pb.Bank/CreateUser''"

definition Bank_UpdateUser_FullMethodName :: string where
  "Bank_UpdateUser_FullMethodName = ''/pb.Bank/UpdateUser''"

definition Bank_LoginUser_FullMethodName :: string where
  "Bank_LoginUser_FullMethodName = ''/pb.Bank/LoginUser''"

text \<open>
  The handlers of the service: decode, then call the method, within the interceptor if there
  is one. An interceptor gets the full method name and the call.
\<close>

type_synonym 'm interceptor = "string \<Rightarrow> 'm rpc \<Rightarrow> 'm rpc"

definition method_handler ::
    "string \<Rightarrow> (Context \<Rightarrow> 'q \<Rightarrow> 'm rpc) \<Rightarrow> Context \<Rightarrow> status_error + 'q \<Rightarrow> 'm interceptor option \<Rightarrow> 'm rpc"
where
  "method_handler fullMethod meth ctx dec interceptor =
     (case dec of
        Inl err \<Rightarrow> ret (Inl err)
      | Inr inp \<Rightarrow>
          (case interceptor of
             None \<Rightarrow> meth ctx inp
           | Some icpt \<Rightarrow> icpt fullMethod (meth ctx inp)))"

definition Bank_CreateUser_Handler where
  "Bank_CreateUser_Handler srv = method_handler Bank_CreateUser_FullMethodName (Bank_CreateUser srv)"

definition Bank_UpdateUser_Handler where
  "Bank_UpdateUser_Handler srv = method_handler Bank_UpdateUser_FullMethodName (Bank_UpdateUser srv)"

definition Bank_LoginUser_Handler where
  "Bank_LoginUser_Handler srv = method_handler Bank_LoginUser_FullMethodName (Bank_LoginUser srv)"

text \<open>The interceptor of the program: the call within the logger, the log line dropped.\<close>

definition logged :: "env \<Rightarrow> 'm interceptor" where
  "logged E fullMethod handler = do { rl \<leftarrow> GrpcLogger E fullMethod handler; ret (fst rl) }"

section \<open>The gateway\<close>

text \<open>An HTTP request as the gateway reads it.\<close>

record gateway_request =
  gw_Method :: string
  gw_Path :: string
  gw_Header :: "string \<Rightarrow> string list"
  gw_RemoteAddr :: string
  gw_Body :: string

text \<open>
  The outcome of decoding a body: a message, \<open>io.EOF\<close> (nothing to decode), or another error.
\<close>

datatype 'm decoded = Decoded 'm | DecodeEOF | DecodeError error

record gateway_runtime =
  Decode_CreateUserRequest :: "string \<Rightarrow> CreateUserRequest decoded"
  Decode_UpdateUserRequest :: "string \<Rightarrow> UpdateUserRequest decoded"
  Decode_LoginUserRequest :: "string \<Rightarrow> LoginUserRequest decoded"
  AnnotateIncomingContext :: "gateway_request \<Rightarrow> string \<Rightarrow> status_error + Context"
  AnnotateContext :: "gateway_request \<Rightarrow> string \<Rightarrow> status_error + Context"

text \<open>Messages as they are before decoding.\<close>

definition zero_CreateUserRequest :: CreateUserRequest where
  "zero_CreateUserRequest = \<lparr>CreateUserRequest_Username = '''', CreateUserRequest_FullName = '''',
     CreateUserRequest_Email = '''', CreateUserRequest_Password = ''''\<rparr>"

definition zero_UpdateUserRequest :: UpdateUserRequest where
  "zero_UpdateUserRequest = \<lparr>UpdateUserRequest_Username = '''', UpdateUserRequest_FullName = None,
     UpdateUserRequest_Email = None, UpdateUserRequest_Password = None\<rparr>"

definition zero_LoginUserRequest :: LoginUserRequest where
  "zero_LoginUserRequest = \<lparr>LoginUserRequest_Username = '''', LoginUserRequest_Password = ''''\<rparr>"

text \<open>\<open>err != nil && !errors.Is(err, io.EOF)\<close>: an empty body is an empty message.\<close>

definition decode_into :: "'m \<Rightarrow> 'm decoded \<Rightarrow> ('m \<Rightarrow> 'r rpc) \<Rightarrow> 'r rpc" where
  "decode_into zero d call =
     (case d of
        DecodeError err \<Rightarrow> ret (Inl (status_Errorf CodeInvalidArgument err))
      | DecodeEOF \<Rightarrow> call zero
      | Decoded protoReq \<Rightarrow> call protoReq)"

definition local_request_Bank_CreateUser_0 ::
    "gateway_runtime \<Rightarrow> Context \<Rightarrow> Bank \<Rightarrow> gateway_request \<Rightarrow> pbUser rpc" where
  "local_request_Bank_CreateUser_0 G ctx server req =
     decode_into zero_CreateUserRequest (Decode_CreateUserRequest G (gw_Body req))
       (\<lambda>protoReq. Bank_CreateUser server ctx protoReq)"

definition local_request_Bank_UpdateUser_0 ::
    "gateway_runtime \<Rightarrow> Context \<Rightarrow> Bank \<Rightarrow> gateway_request \<Rightarrow> pbUser rpc" where
  "local_request_Bank_UpdateUser_0 G ctx server req =
     decode_into zero_UpdateUserRequest (Decode_UpdateUserRequest G (gw_Body req))
       (\<lambda>protoReq. Bank_UpdateUser server ctx protoReq)"

definition local_request_Bank_LoginUser_0 ::
    "gateway_runtime \<Rightarrow> Context \<Rightarrow> Bank \<Rightarrow> gateway_request \<Rightarrow> LoginUserResponse rpc" where
  "local_request_Bank_LoginUser_0 G ctx server req =
     decode_into zero_LoginUserRequest (Decode_LoginUserRequest G (gw_Body req))
       (\<lambda>protoReq. Bank_LoginUser server ctx protoReq)"

text \<open>The same through a client connection.\<close>

definition request_Bank_CreateUser_0 ::
    "gateway_runtime \<Rightarrow> Context \<Rightarrow> Bank \<Rightarrow> gateway_request \<Rightarrow> pbUser rpc" where
  "request_Bank_CreateUser_0 G ctx client req =
     decode_into zero_CreateUserRequest (Decode_CreateUserRequest G (gw_Body req))
       (\<lambda>protoReq. Bank_CreateUser client ctx protoReq)"

definition request_Bank_UpdateUser_0 ::
    "gateway_runtime \<Rightarrow> Context \<Rightarrow> Bank \<Rightarrow> gateway_request \<Rightarrow> pbUser rpc" where
  "request_Bank_UpdateUser_0 G ctx client req =
     decode_into zero_UpdateUserRequest (Decode_UpdateUserRequest G (gw_Body req))
       (\<lambda>protoReq. Bank_UpdateUser client ctx protoReq)"

definition request_Bank_LoginUser_0 ::
    "gateway_runtime \<Rightarrow> Context \<Rightarrow> Bank \<Rightarrow> gateway_request \<Rightarrow> LoginUserResponse rpc" where
  "request_Bank_LoginUser_0 G ctx client req =
     decode_into zero_LoginUserRequest (Decode_LoginUserRequest G (gw_Body req))
       (\<lambda>protoReq. Bank_LoginUser client ctx protoReq)"

section \<open>Routes of the gateway\<close>

text \<open>A reply: \<open>runtime.HTTPError\<close>, \<open>runtime.ForwardResponseMessage\<close>, or no route.\<close>

datatype gateway_reply =
    GwError status_error
  | GwMessage rpc_reply
  | GwNotRouted

text \<open>\<open>NewPattern\<close> with literal segments only matches the path made of them.\<close>

definition literal_pattern :: "string list \<Rightarrow> string" where
  "literal_pattern segments = concat (map (\<lambda>s. ''/'' @ s) segments)"

definition pattern_Bank_CreateUser_0 :: string where
  "pattern_Bank_CreateUser_0 = literal_pattern [''v1'', ''create_user'']"

definition pattern_Bank_UpdateUser_0 :: string where
  "pattern_Bank_UpdateUser_0 = literal_pattern [''v1'', ''update_user'']"

definition pattern_Bank_LoginUser_0 :: string where
  "pattern_Bank_LoginUser_0 = literal_pattern [''v1'', ''login_user'']"

text \<open>The body of the handlers: annotate the context, call, and answer.\<close>

definition gateway_handler ::
    "(gateway_request \<Rightarrow> string \<Rightarrow> status_error + Context) \<Rightarrow> string \<Rightarrow>
     (Context \<Rightarrow> gateway_request \<Rightarrow> 'm rpc) \<Rightarrow> ('m \<Rightarrow> rpc_reply) \<Rightarrow>
     gateway_request \<Rightarrow> gateway_reply op" where
  "gateway_handler annotate fullMethod call forward req =
     (case annotate req fullMethod of
        Inl err \<Rightarrow> ret (GwError err)
      | Inr annotatedContext \<Rightarrow> do {
          r \<leftarrow> call annotatedContext req;
          case r of
            Inl err \<Rightarrow> ret (GwError err)
          | Inr resp \<Rightarrow> ret (GwMessage (forward resp))
        })"

definition RegisterBankHandlerServer ::
    "gateway_runtime \<Rightarrow> Bank \<Rightarrow> gateway_request \<Rightarrow> gateway_reply op" where
  "RegisterBankHandlerServer G server req =
     (if gw_Method req = ''POST'' \<and> gw_Path req = pattern_Bank_CreateUser_0 then
        gateway_handler (AnnotateIncomingContext G) ''/pb.Bank/CreateUser''
          (\<lambda>ctx. local_request_Bank_CreateUser_0 G ctx server) UserReply req
      else if gw_Method req = ''PATCH'' \<and> gw_Path req = pattern_Bank_UpdateUser_0 then
        gateway_handler (AnnotateIncomingContext G) ''/pb.Bank/UpdateUser''
          (\<lambda>ctx. local_request_Bank_UpdateUser_0 G ctx server) UserReply req
      else if gw_Method req = ''POST'' \<and> gw_Path req = pattern_Bank_LoginUser_0 then
        gateway_handler (AnnotateIncomingContext G) ''/pb.Bank/LoginUser''
          (\<lambda>ctx. local_request_Bank_LoginUser_0 G ctx server) LoginReply req
      else ret GwNotRouted)"

definition RegisterBankHandlerClient ::
    "gateway_runtime \<Rightarrow> Bank \<Rightarrow> gateway_request \<Rightarrow> gateway_reply op" where
  "RegisterBankHandlerClient G client req =
     (if gw_Method req = ''POST'' \<and> gw_Path req = pattern_Bank_CreateUser_0 then
        gateway_handler (AnnotateContext G) ''/pb.Bank/CreateUser''
          (\<lambda>ctx. request_Bank_CreateUser_0 G ctx client) UserReply req
      else if gw_Method req = ''PATCH'' \<and> gw_Path req = pattern_Bank_UpdateUser_0 then
        gateway_handler (AnnotateContext G) ''/pb.Bank/UpdateUser''
          (\<lambda>ctx. request_Bank_UpdateUser_0 G ctx client) UserReply req
      else if gw_Method req = ''POST'' \<and> gw_Path req = pattern_Bank_LoginUser_0 then
        gateway_handler (AnnotateContext G) ''/pb.Bank/LoginUser''
          (\<lambda>ctx. request_Bank_LoginUser_0 G ctx client) LoginReply req
      else ret GwNotRouted)"

section \<open>The service as an interface\<close>

text \<open>
  Whatever relation between the worlds before and after a call the three methods of a service
  keep, its gRPC handlers with any interceptor that keeps it, and the gateway in front of it,
  keep too.
\<close>

locale bank_service = run_relation R for R :: "world \<Rightarrow> world \<Rightarrow> bool" +
  fixes B :: Bank
  assumes CreateUser_kept: "always R (Bank_CreateUser B ctx cu)"
    and UpdateUser_kept: "always R (Bank_UpdateUser B ctx uu)"
    and LoginUser_kept: "always R (Bank_LoginUser B ctx lu)"
begin

lemma method_handler_kept:
  "(\<And>inp. always R (meth ctx inp)) \<Longrightarrow> (\<And>name m. always R m \<Longrightarrow> always R (icpt name m)) \<Longrightarrow>
   always R (method_handler fullMethod meth ctx dec (Some icpt))"
  by (auto simp: method_handler_def intro: always_ret split: sum.split)

lemma handlers_kept:
  assumes "\<And>name m. always R m \<Longrightarrow> always R (icpt name m)" "\<And>name m. always R m \<Longrightarrow> always R (icpt' name m)"
  shows "always R (Bank_CreateUser_Handler B ctx dc (Some icpt))"
    "always R (Bank_UpdateUser_Handler B ctx du (Some icpt))"
    "always R (Bank_LoginUser_Handler B ctx dl (Some icpt'))"
  unfolding Bank_CreateUser_Handler_def Bank_UpdateUser_Handler_def Bank_LoginUser_Handler_def
  by (intro method_handler_kept CreateUser_kept UpdateUser_kept LoginUser_kept; rule assms; assumption)+

lemma decode_into_kept: "(\<And>m. always R (call m)) \<Longrightarrow> always R (decode_into zero d call)"
  by (cases d) (auto simp: decode_into_def always_ret)

lemma gateway_handler_kept:
  "(\<And>ctx. always R (call ctx req)) \<Longrightarrow> always R (gateway_handler annotate name call fwd req)"
  unfolding gateway_handler_def by (intro always_intros)

lemma gateway_kept:
  "always R (RegisterBankHandlerServer G B req)" "always R (RegisterBankHandlerClient G B req)"
  unfolding RegisterBankHandlerServer_def RegisterBankHandlerClient_def
    local_request_Bank_CreateUser_0_def local_request_Bank_UpdateUser_0_def
    local_request_Bank_LoginUser_0_def request_Bank_CreateUser_0_def request_Bank_UpdateUser_0_def
    request_Bank_LoginUser_0_def
  by (intro always_if gateway_handler_kept decode_into_kept always_ret
      CreateUser_kept UpdateUser_kept LoginUser_kept)+

end

context api_contract
begin

lemma bank_service_axiom:
  assumes "Server_tokenMaker s = M"
  shows "bank_service (on_db Q) (bank_server E s)"
  by unfold_locales (simp_all add: bank_server_def rpc_methods_rel [OF assms])

lemma logged_kept: "always (on_db Q) m \<Longrightarrow> always (on_db Q) (logged E name m)"
  unfolding logged_def GrpcLogger_def Let_def by (intro always_intros time_Now_rel)

end

text \<open>The server of the program, with any configuration.\<close>

interpretation ok_bank: bank_service "on_db ok_kept"
    "bank_server E \<lparr>Server_config = c, Server_tokenMaker = PasetoMaker E k\<rparr>" for E c k
  by (rule ok_api.bank_service_axiom) simp

interpretation money_bank: bank_service "on_db money_kept"
    "bank_server E \<lparr>Server_config = c, Server_tokenMaker = PasetoMaker E k\<rparr>" for E c k
  by (rule money_api.bank_service_axiom) simp

interpretation hist_bank: bank_service "on_db (history_kept E)"
    "bank_server E \<lparr>Server_config = c, Server_tokenMaker = PasetoMaker E k\<rparr>" for E c k
  by (rule hist_api.bank_service_axiom) simp

section \<open>Properties\<close>

text \<open>What an HTTP request means to the service: the method it is for and its message.\<close>

definition message :: "'m \<Rightarrow> 'm decoded \<Rightarrow> ('m \<Rightarrow> rpc_request) \<Rightarrow> status_error + rpc_request" where
  "message zero d rpc =
     (case d of
        DecodeError err \<Rightarrow> Inl (status_Errorf CodeInvalidArgument err)
      | DecodeEOF \<Rightarrow> Inr (rpc zero)
      | Decoded m \<Rightarrow> Inr (rpc m))"

definition gateway_route ::
    "gateway_runtime \<Rightarrow> gateway_request \<Rightarrow> (string \<times> (status_error + rpc_request)) option" where
  "gateway_route G req =
     (if gw_Method req = ''POST'' \<and> gw_Path req = ''/v1/create_user'' then
        Some (''/pb.Bank/CreateUser'', message
          \<lparr>CreateUserRequest_Username = '''', CreateUserRequest_FullName = '''',
           CreateUserRequest_Email = '''', CreateUserRequest_Password = ''''\<rparr>
          (Decode_CreateUserRequest G (gw_Body req)) RpcCreateUser)
      else if gw_Method req = ''PATCH'' \<and> gw_Path req = ''/v1/update_user'' then
        Some (''/pb.Bank/UpdateUser'', message
          \<lparr>UpdateUserRequest_Username = '''', UpdateUserRequest_FullName = None,
           UpdateUserRequest_Email = None, UpdateUserRequest_Password = None\<rparr>
          (Decode_UpdateUserRequest G (gw_Body req)) RpcUpdateUser)
      else if gw_Method req = ''POST'' \<and> gw_Path req = ''/v1/login_user'' then
        Some (''/pb.Bank/LoginUser'', message
          \<lparr>LoginUserRequest_Username = '''', LoginUserRequest_Password = ''''\<rparr>
          (Decode_LoginUserRequest G (gw_Body req)) RpcLoginUser)
      else None)"

lemma patterns [simp]:
  "pattern_Bank_CreateUser_0 = ''/v1/create_user''" "pattern_Bank_UpdateUser_0 = ''/v1/update_user''"
  "pattern_Bank_LoginUser_0 = ''/v1/login_user''"
  by (simp_all add: pattern_Bank_CreateUser_0_def pattern_Bank_UpdateUser_0_def
      pattern_Bank_LoginUser_0_def literal_pattern_def)

text \<open>The answer of the service to a message, and its effect.\<close>

definition rpc_answer ::
    "env \<Rightarrow> Server \<Rightarrow> status_error + Context \<Rightarrow> status_error + rpc_request \<Rightarrow> world \<Rightarrow> gateway_reply \<times> world"
where
  "rpc_answer E s ctx msg w =
     (case (ctx, msg) of
        (Inl err, _) \<Rightarrow> (GwError err, w)
      | (Inr _, Inl err) \<Rightarrow> (GwError err, w)
      | (Inr c, Inr r) \<Rightarrow> (case run (serve_rpc E s c r) w of
          (Inl err, w') \<Rightarrow> (GwError err, w') | (Inr m, w') \<Rightarrow> (GwMessage m, w')))"

lemma run_gateway_handler:
  assumes "\<And>ctx. call ctx req = decode_into zero d (meth ctx)"
    and "\<And>ctx m. serve_rpc E s ctx (rpc m) = try_do (meth ctx m) (\<lambda>x. ret (Inr (fwd x)))"
  shows "run (gateway_handler annotate name call fwd req) w =
    rpc_answer E s (annotate req name) (message zero d rpc) w"
  by (cases d) (auto simp: gateway_handler_def assms decode_into_def message_def run_try_do
      rpc_answer_def split: sum.splits prod.splits)

text \<open>
  C31: The HTTP gateway is the gRPC service: a request on one of its three routes is the call
  of that RPC with the decoded message (an empty body being the empty message) and the
  annotated context, with the same answer and the same effect; a request without a route,
  or with a context or a body that cannot be decoded, changes nothing.
\<close>

theorem gateway_is_the_service:
  "run (RegisterBankHandlerServer G (bank_server E s) req) w =
    (case gateway_route G req of
       None \<Rightarrow> (GwNotRouted, w)
     | Some (name, msg) \<Rightarrow> rpc_answer E s (AnnotateIncomingContext G req name) msg w)"
proof -
  have "run (gateway_handler (AnnotateIncomingContext G) name (\<lambda>ctx. local_request_Bank_CreateUser_0 G ctx (bank_server E s))
      UserReply req) w = rpc_answer E s (AnnotateIncomingContext G req name)
        (message zero_CreateUserRequest (Decode_CreateUserRequest G (gw_Body req)) RpcCreateUser) w" for name
    by (rule run_gateway_handler [where meth = "\<lambda>ctx. rpc_CreateUser E"])
      (simp_all add: local_request_Bank_CreateUser_0_def bank_server_def serve_rpc_def)
  moreover have "run (gateway_handler (AnnotateIncomingContext G) name (\<lambda>ctx. local_request_Bank_UpdateUser_0 G ctx (bank_server E s))
      UserReply req) w = rpc_answer E s (AnnotateIncomingContext G req name)
        (message zero_UpdateUserRequest (Decode_UpdateUserRequest G (gw_Body req)) RpcUpdateUser) w" for name
    by (rule run_gateway_handler [where meth = "rpc_UpdateUser E s"])
      (simp_all add: local_request_Bank_UpdateUser_0_def bank_server_def serve_rpc_def)
  moreover have "run (gateway_handler (AnnotateIncomingContext G) name (\<lambda>ctx. local_request_Bank_LoginUser_0 G ctx (bank_server E s))
      LoginReply req) w = rpc_answer E s (AnnotateIncomingContext G req name)
        (message zero_LoginUserRequest (Decode_LoginUserRequest G (gw_Body req)) RpcLoginUser) w" for name
    by (rule run_gateway_handler [where meth = "rpc_LoginUser E s"])
      (simp_all add: local_request_Bank_LoginUser_0_def bank_server_def serve_rpc_def)
  ultimately show ?thesis
    by (simp add: RegisterBankHandlerServer_def gateway_route_def zero_CreateUserRequest_def
        zero_UpdateUserRequest_def zero_LoginUserRequest_def)
qed

text \<open>The empty message violates the rules of all its fields.\<close>

lemma empty_signup_fields:
  "map violation_Field (validateCreateUserRequest E zero_CreateUserRequest) =
     [''username'', ''password'', ''full_name'', ''email'']"
  unfolding validateCreateUserRequest_def map_append violation_field Validate_None
  by (simp add: zero_CreateUserRequest_def)

text \<open>
  A sign-up through the gateway with an empty body is not a decoding error: it reaches
  the service as the empty message and is answered \<open>InvalidArgument\<close> with a violation for
  each of the four fields.
\<close>

theorem gateway_empty_signup:
  assumes "gw_Method req = ''POST''" and "gw_Path req = ''/v1/create_user''"
    and "Decode_CreateUserRequest G (gw_Body req) = DecodeEOF"
    and "AnnotateIncomingContext G req ''/pb.Bank/CreateUser'' = Inr ctx"
  shows "\<exists>st. run (RegisterBankHandlerServer G (bank_server E s) req) w = (GwError st, w) \<and>
    status_code st = CodeInvalidArgument \<and>
    map violation_Field (status_details st) = [''username'', ''password'', ''full_name'', ''email'']"
proof -
  have "validateCreateUserRequest E zero_CreateUserRequest \<noteq> []"
    using empty_signup_fields [of E] by auto
  with assms empty_signup_fields [of E] show ?thesis
    by (simp add: RegisterBankHandlerServer_def gateway_handler_def local_request_Bank_CreateUser_0_def
        decode_into_def bank_server_def rpc_CreateUser_def Let_def invalidArgumentError_def)
qed

definition example_gateway :: gateway_runtime where
  "example_gateway =
     \<lparr>Decode_CreateUserRequest = (\<lambda>b. if b = [] then DecodeEOF else DecodeError (OtherErr ''syntax'')),
      Decode_UpdateUserRequest = (\<lambda>b. DecodeEOF), Decode_LoginUserRequest = (\<lambda>b. DecodeEOF),
      AnnotateIncomingContext = (\<lambda>req name. Inr \<lparr>incoming_metadata = Some (gw_Header req), peer_addr = None\<rparr>),
      AnnotateContext = (\<lambda>req name. Inr \<lparr>incoming_metadata = Some (gw_Header req), peer_addr = None\<rparr>)\<rparr>"

definition example_post :: "string \<Rightarrow> gateway_request" where
  "example_post path = \<lparr>gw_Method = ''POST'', gw_Path = path, gw_Header = (\<lambda>_. []),
     gw_RemoteAddr = ''10.0.0.1'', gw_Body = ''''\<rparr>"

theorem gateway_empty_signup_witness:
  "\<exists>st. run (RegisterBankHandlerServer example_gateway (bank_server example_env example_server)
     (example_post ''/v1/create_user'')) start_world = (GwError st, start_world) \<and>
     status_code st = CodeInvalidArgument"
  using gateway_empty_signup [of "example_post ''/v1/create_user''" example_gateway _ example_env
      example_server start_world]
  by (auto simp: example_gateway_def example_post_def)

end
