(* ===== verification/Settings.thy ===== *)
theory Settings
  imports Util
begin

text \<open>
  \<open>util/config.go\<close>: \<open>LoadConfig\<close>. The library viper is a parameter: a record of the calls the
  code makes on viper's state \<open>'v\<close>. What the code relies on is the hypothesis
  \<open>viper_documented\<close> of the property, which says what each call changes of viper's state:
  the path, name and type decide which file \<open>ReadInConfig\<close> looks for and how it is read,
  \<open>BindEnv\<close> and \<open>AutomaticEnv\<close> which keys come from the environment, and \<open>Unmarshal\<close> prefers
  the environment to the file.
\<close>

section \<open>The library\<close>

text \<open>\<open>FileNotFound\<close> is a \<open>viper.ConfigFileNotFoundError\<close>, \<open>ReadFailed\<close> any other error.\<close>

datatype read_result = ReadOk | FileNotFound error | ReadFailed error

record 'v viper =
  AddConfigPath :: "string \<Rightarrow> 'v \<Rightarrow> 'v"
  SetConfigName :: "string \<Rightarrow> 'v \<Rightarrow> 'v"
  SetConfigType :: "string \<Rightarrow> 'v \<Rightarrow> 'v"
  AutomaticEnv :: "'v \<Rightarrow> 'v"
  BindEnv :: "string \<Rightarrow> 'v \<Rightarrow> error option \<times> 'v"
  ReadInConfig :: "'v \<Rightarrow> read_result \<times> 'v"
  Unmarshal :: "Config \<Rightarrow> 'v \<Rightarrow> Config \<times> error option"

section \<open>Loading\<close>

text \<open>The zero value of the struct, and the \<open>mapstructure\<close> tags of its fields.\<close>

definition zero_Config :: Config where
  "zero_Config = \<lparr>Config_Environment = '''', Config_DbDriver = '''', Config_DbSource = '''',
     Config_MigrationURL = '''', Config_HTTPServerAddress = '''', Config_GRPCServerAddress = '''',
     Config_TokenSymmetricKey = '''', Config_AccessTokenDuration = 0, Config_RefreshTokenDuration = 0\<rparr>"

definition Config_tags :: "string list" where
  "Config_tags = [''ENVIRONMENT'', ''DB_DRIVER'', ''DB_SOURCE'', ''MIGRATION_URL'',
     ''HTTP_SERVER_ADDRESS'', ''GRPC_SERVER_ADDRESS'', ''TOKEN_SYMMETRIC_KEY'',
     ''ACCESS_TOKEN_DURATION'', ''REFRESH_TOKEN_DURATION'']"

definition configKeys :: "string list" where
  "configKeys = [
     ''ENVIRONMENT'',
     ''DB_DRIVER'',
     ''DB_SOURCE'',
     ''MIGRATION_URL'',
     ''HTTP_SERVER_ADDRESS'',
     ''GRPC_SERVER_ADDRESS'',
     ''TOKEN_SYMMETRIC_KEY'',
     ''ACCESS_TOKEN_DURATION'',
     ''REFRESH_TOKEN_DURATION'']"

text \<open>The loop over the keys; it stops at the first error.\<close>

fun bind_keys :: "'v viper \<Rightarrow> string list \<Rightarrow> 'v \<Rightarrow> error option \<times> 'v" where
  "bind_keys V [] v = (None, v)"
| "bind_keys V (key # keys) v =
     (case BindEnv V key v of
        (Some err, v1) \<Rightarrow> (Some err, v1)
      | (None, v1) \<Rightarrow> bind_keys V keys v1)"

definition LoadConfig :: "'v viper \<Rightarrow> string \<Rightarrow> 'v \<Rightarrow> Config \<times> error option" where
  "LoadConfig V path v =
     (let v1 = AddConfigPath V path v;
          v2 = SetConfigName V ''app'' v1;
          v3 = SetConfigType V ''env'' v2;
          v4 = AutomaticEnv V v3 in
      case bind_keys V configKeys v4 of
        (Some err, v5) \<Rightarrow> (zero_Config, Some err)
      | (None, v5) \<Rightarrow>
          (case ReadInConfig V v5 of
             (ReadFailed err, v6) \<Rightarrow> (zero_Config, Some err)
           | (_, v6) \<Rightarrow> Unmarshal V zero_Config v6))"

section \<open>What is documented of viper\<close>

text \<open>
  The part of viper's state that the code sets or reads. Keys are case-insensitive and are written in
  capitals here; \<open>vs_loaded\<close> are the values read from a file.
\<close>

record viper_state =
  vs_paths :: "string list"
  vs_name :: string
  vs_type :: string
  vs_auto :: bool
  vs_bound :: "string set"
  vs_loaded :: "string \<Rightarrow> string option"

definition fresh_viper :: viper_state where
  "fresh_viper = \<lparr>vs_paths = [], vs_name = ''config'', vs_type = '''', vs_auto = False, vs_bound = {},
     vs_loaded = (\<lambda>_. None)\<rparr>"

text \<open>
  The library works over the environment (variables that are set and not empty) and the files by
  directory and name (with their text, or the error of reading them), and knows the extensions
  \<open>exts\<close>. It looks in the paths for a file of the name with one of the extensions or, when the type
  is set, with none.
\<close>

primrec first_found :: "'a option list \<Rightarrow> 'a option" where
  "first_found [] = None"
| "first_found (x # xs) = (case x of None \<Rightarrow> first_found xs | Some y \<Rightarrow> Some y)"

definition config_names :: "string list \<Rightarrow> string \<Rightarrow> string \<Rightarrow> string list" where
  "config_names exts name typ = map (\<lambda>ext. name @ ''.'' @ ext) exts @ (if typ = '''' then [] else [name])"

definition config_file ::
    "string list \<Rightarrow> (string \<Rightarrow> string \<Rightarrow> (error + string) option) \<Rightarrow> viper_state \<Rightarrow> (error + string) option" where
  "config_file exts file S =
     first_found [file dir name. dir \<leftarrow> vs_paths S, name \<leftarrow> config_names exts (vs_name S) (vs_type S)]"

text \<open>
  The value of a key is that of the environment if the key is bound to it or, under
  \<open>AutomaticEnv\<close>, if the file has it; otherwise that of the file.
\<close>

definition setting :: "(string \<Rightarrow> string option) \<Rightarrow> viper_state \<Rightarrow> string \<Rightarrow> string option" where
  "setting environ S key =
     (if environ key \<noteq> None \<and> (key \<in> vs_bound S \<or> vs_auto S \<and> vs_loaded S key \<noteq> None)
      then environ key else vs_loaded S key)"

text \<open>
  \<open>st\<close> reads the state off the library's own, \<open>parse\<close> reads the text of a file of a type, and
  \<open>decode\<close> is mapstructure, which fills the fields from the values of their tags.
\<close>

definition viper_documented ::
    "'v viper \<Rightarrow> ('v \<Rightarrow> viper_state) \<Rightarrow> string list \<Rightarrow> (string \<Rightarrow> string option) \<Rightarrow>
     (string \<Rightarrow> string \<Rightarrow> (error + string) option) \<Rightarrow> (string \<Rightarrow> string \<Rightarrow> error + (string \<Rightarrow> string option)) \<Rightarrow>
     ((string \<Rightarrow> string option) \<Rightarrow> Config \<Rightarrow> Config \<times> error option) \<Rightarrow> bool" where
  "viper_documented V st exts environ file parse decode \<longleftrightarrow>
     (\<forall>s v. s \<noteq> '''' \<longrightarrow>
        st (AddConfigPath V s v) = (st v)\<lparr>vs_paths := vs_paths (st v) @ [s]\<rparr> \<and>
        st (SetConfigName V s v) = (st v)\<lparr>vs_name := s\<rparr> \<and>
        st (SetConfigType V s v) = (st v)\<lparr>vs_type := s\<rparr>) \<and>
     (\<forall>v. st (AutomaticEnv V v) = (st v)\<lparr>vs_auto := True\<rparr>) \<and>
     (\<forall>key v. key \<noteq> '''' \<longrightarrow> fst (BindEnv V key v) = None \<and>
        st (snd (BindEnv V key v)) = (st v)\<lparr>vs_bound := insert key (vs_bound (st v))\<rparr>) \<and>
     (\<forall>v. vs_type (st v) \<in> set exts \<longrightarrow> (case config_file exts file (st v) of
          None \<Rightarrow> (\<exists>err. fst (ReadInConfig V v) = FileNotFound err) \<and> st (snd (ReadInConfig V v)) = st v
        | Some (Inl err) \<Rightarrow> fst (ReadInConfig V v) = ReadFailed err
        | Some (Inr text) \<Rightarrow> (case parse (vs_type (st v)) text of
            Inl err \<Rightarrow> fst (ReadInConfig V v) = ReadFailed err
          | Inr values \<Rightarrow> fst (ReadInConfig V v) = ReadOk \<and>
              st (snd (ReadInConfig V v)) = (st v)\<lparr>vs_loaded := values\<rparr>))) \<and>
     (\<forall>c v. Unmarshal V c v = decode (setting environ (st v)) c) \<and>
     (\<forall>f g c. (\<forall>key \<in> set Config_tags. f key = g key) \<longrightarrow> decode f c = decode g c)"

lemma viper_documentedD:
  assumes "viper_documented V st exts environ file parse decode"
  shows "s \<noteq> '''' \<Longrightarrow> st (AddConfigPath V s v) = (st v)\<lparr>vs_paths := vs_paths (st v) @ [s]\<rparr>"
    and "s \<noteq> '''' \<Longrightarrow> st (SetConfigName V s v) = (st v)\<lparr>vs_name := s\<rparr>"
    and "s \<noteq> '''' \<Longrightarrow> st (SetConfigType V s v) = (st v)\<lparr>vs_type := s\<rparr>"
    and "st (AutomaticEnv V v) = (st v)\<lparr>vs_auto := True\<rparr>"
    and "s \<noteq> '''' \<Longrightarrow> fst (BindEnv V s v) = None"
    and "s \<noteq> '''' \<Longrightarrow> st (snd (BindEnv V s v)) = (st v)\<lparr>vs_bound := insert s (vs_bound (st v))\<rparr>"
    and "Unmarshal V c v = decode (setting environ (st v)) c"
    and "(\<And>key. key \<in> set Config_tags \<Longrightarrow> f key = g key) \<Longrightarrow> decode f c = decode g c"
  using assms by (simp_all add: viper_documented_def)

lemma viper_reads:
  assumes "viper_documented V st exts environ file parse decode" and "vs_type (st v) \<in> set exts"
    and "ReadInConfig V v = (r, v')"
  shows "case config_file exts file (st v) of
      None \<Rightarrow> (\<exists>err. r = FileNotFound err) \<and> st v' = st v
    | Some (Inl err) \<Rightarrow> r = ReadFailed err
    | Some (Inr text) \<Rightarrow> (case parse (vs_type (st v)) text of
        Inl err \<Rightarrow> r = ReadFailed err
      | Inr values \<Rightarrow> r = ReadOk \<and> st v' = (st v)\<lparr>vs_loaded := values\<rparr>)"
  using assms(1) [unfolded viper_documented_def, THEN conjunct2, THEN conjunct2, THEN conjunct2, THEN conjunct1,
      THEN spec, of v] assms(2,3) by (cases "config_file exts file (st v)") (auto split: sum.splits)

lemma bind_keys_documented:
  assumes "viper_documented V st exts environ file parse decode" and "'''' \<notin> set keys"
  shows "\<exists>v'. bind_keys V keys v = (None, v') \<and> st v' = (st v)\<lparr>vs_bound := vs_bound (st v) \<union> set keys\<rparr>"
  using assms(2)
proof (induction keys arbitrary: v)
  case (Cons key keys)
  then have "key \<noteq> ''''" by auto
  note viper_documentedD(5,6) [OF assms(1) this, of v]
  with Cons.IH [of "snd (BindEnv V key v)"] Cons.prems show ?case by (auto split: prod.split)
qed simp

section \<open>Properties\<close>

text \<open>The values of the environment before those of the file.\<close>

definition over :: "(string \<Rightarrow> string option) \<Rightarrow> (string \<Rightarrow> string option) \<Rightarrow> string \<Rightarrow> string option" where
  "over environ values key = (case environ key of None \<Rightarrow> values key | Some s \<Rightarrow> Some s)"

lemma setting_bound: "key \<in> vs_bound S \<Longrightarrow> setting environ S key = over environ (vs_loaded S) key"
  by (auto simp: setting_def over_def)

text \<open>
  C34: The configuration comes from the environment and, for what it does not set, from the file
  named \<open>app\<close> in the given directory, \<open>app.env\<close> or one with another extension that viper knows, which is
  read as a file of type \<open>env\<close>. A missing file is not an error, a file that cannot be read or
  parsed is; and every field of the struct can be set from the environment alone, since its key is
  bound.
\<close>

theorem LoadConfig_environment_over_file:
  assumes "viper_documented V st exts environ file parse decode"
    and "st v = fresh_viper" and "path \<noteq> ''''" and "''env'' \<in> set exts"
  shows "set configKeys = set Config_tags \<and> LoadConfig V path v =
    (case first_found (map (file path) (map (\<lambda>ext. ''app.'' @ ext) exts @ [''app''])) of
       None \<Rightarrow> decode environ zero_Config
     | Some (Inl err) \<Rightarrow> (zero_Config, Some err)
     | Some (Inr text) \<Rightarrow> (case parse ''env'' text of
         Inl err \<Rightarrow> (zero_Config, Some err)
       | Inr values \<Rightarrow> decode (over environ values) zero_Config))"
proof
  note D = viper_documentedD [OF assms(1)]
  show tags: "set configKeys = set Config_tags" by (simp add: configKeys_def Config_tags_def)
  let ?v4 = "AutomaticEnv V (SetConfigType V ''env'' (SetConfigName V ''app'' (AddConfigPath V path v)))"
  let ?S = "\<lparr>vs_paths = [path], vs_name = ''app'', vs_type = ''env'', vs_auto = True, vs_bound = set Config_tags,
    vs_loaded = (\<lambda>_. None)\<rparr>"
  have v4: "st ?v4 = ?S\<lparr>vs_bound := {}\<rparr>" using assms(2,3) by (simp add: D(1-4) fresh_viper_def)
  have "'''' \<notin> set configKeys" by (simp add: configKeys_def)
  from bind_keys_documented [OF assms(1) this, of ?v4] obtain v5 where
    v5: "bind_keys V configKeys ?v4 = (None, v5)" "st v5 = ?S"
    unfolding v4 tags by auto
  obtain r v6 where r: "ReadInConfig V v5 = (r, v6)" by fastforce
  have env: "Unmarshal V zero_Config v6 = decode (over environ (vs_loaded (st v6))) zero_Config"
    if "vs_bound (st v6) = set Config_tags"
    unfolding D(7) by (rule D(8)) (simp add: that setting_bound)
  have "over environ (\<lambda>_. None) = environ" by (auto simp: over_def fun_eq_iff split: option.split)
  then show "LoadConfig V path v =
    (case first_found (map (file path) (map (\<lambda>ext. ''app.'' @ ext) exts @ [''app''])) of
       None \<Rightarrow> decode environ zero_Config
     | Some (Inl err) \<Rightarrow> (zero_Config, Some err)
     | Some (Inr text) \<Rightarrow> (case parse ''env'' text of
         Inl err \<Rightarrow> (zero_Config, Some err)
       | Inr values \<Rightarrow> decode (over environ values) zero_Config))"
    using viper_reads [OF assms(1) _ r] assms(4) v5 r env
    by (auto simp: LoadConfig_def Let_def config_file_def config_names_def
        split: option.splits sum.splits)
qed

section \<open>An example\<close>

text \<open>A library with this behaviour, whose files have one key in a line, over one directory.\<close>

definition example_decode_config ::
    "(string \<Rightarrow> string option) \<Rightarrow> Config \<Rightarrow> Config \<times> error option" where
  "example_decode_config get c =
     (c\<lparr>Config_DbSource := (case get ''DB_SOURCE'' of None \<Rightarrow> Config_DbSource c | Some s \<Rightarrow> s),
        Config_DbDriver := (case get ''DB_DRIVER'' of None \<Rightarrow> Config_DbDriver c | Some s \<Rightarrow> s)\<rparr>, None)"

definition example_environ :: "string \<Rightarrow> string option" where
  "example_environ key = (if key = ''DB_SOURCE'' then Some ''from the environment'' else None)"

definition example_files :: "string \<Rightarrow> string \<Rightarrow> (error + string) option" where
  "example_files dir name =
     (if dir = ''.'' \<and> name = ''app.env'' then Some (Inr ''from the file'')
      else if dir = ''.'' \<and> name = ''config.env'' then Some (Inr ''from another file'') else None)"

definition example_parse :: "string \<Rightarrow> string \<Rightarrow> error + (string \<Rightarrow> string option)" where
  "example_parse typ text =
     (if typ = ''env'' then Inr (\<lambda>key. if key = ''DB_SOURCE'' \<or> key = ''DB_DRIVER'' then Some text else None)
      else Inl (OtherErr ''not JSON''))"

definition example_exts :: "string list" where
  "example_exts = [''json'', ''env'']"

definition example_viper :: "viper_state viper" where
  "example_viper = \<lparr>AddConfigPath = (\<lambda>s v. v\<lparr>vs_paths := vs_paths v @ [s]\<rparr>),
     SetConfigName = (\<lambda>s v. v\<lparr>vs_name := s\<rparr>), SetConfigType = (\<lambda>s v. v\<lparr>vs_type := s\<rparr>),
     AutomaticEnv = (\<lambda>v. v\<lparr>vs_auto := True\<rparr>),
     BindEnv = (\<lambda>key v. (None, v\<lparr>vs_bound := insert key (vs_bound v)\<rparr>)),
     ReadInConfig = (\<lambda>v. case config_file example_exts example_files v of
         None \<Rightarrow> (FileNotFound (OtherErr ''no file''), v)
       | Some (Inl err) \<Rightarrow> (ReadFailed err, v)
       | Some (Inr text) \<Rightarrow> (case example_parse (vs_type v) text of
           Inl err \<Rightarrow> (ReadFailed err, v)
         | Inr values \<Rightarrow> (ReadOk, v\<lparr>vs_loaded := values\<rparr>))),
     Unmarshal = (\<lambda>c v. example_decode_config (setting example_environ v) c)\<rparr>"

lemma example_viper_documented:
  "viper_documented example_viper id example_exts example_environ example_files example_parse example_decode_config"
  unfolding viper_documented_def
  by (intro conjI allI impI)
    (simp_all add: example_viper_def example_decode_config_def Config_tags_def split: option.split sum.split)

theorem LoadConfig_environment_over_file_witness:
  "Config_DbSource (fst (LoadConfig example_viper ''.'' fresh_viper)) = ''from the environment'' \<and>
   Config_DbDriver (fst (LoadConfig example_viper ''.'' fresh_viper)) = ''from the file''"
proof -
  from LoadConfig_environment_over_file [OF example_viper_documented, of fresh_viper "''.''"] show ?thesis
    by (simp add: example_decode_config_def example_environ_def example_files_def example_parse_def
        example_exts_def over_def)
qed

end
