(* ===== verification/Startup.thy ===== *)
theory Startup
  imports Gateway Settings
begin

text \<open>
  \<open>main.go\<close>: the start of the process and the HTTP server that listens in the deployed
  service. A run of the program is the sequence of what it does that others can see; what the
  operating system, the driver and the migration library answer is the record \<open>boot\<close>. The
  two servers are two goroutines, so their events interleave; \<open>log.Fatal\<close> ends the process.
\<close>

section \<open>The HTTP server of the gateway\<close>

text \<open>
  \<open>http.ServeMux\<close> on a clean path: a pattern that ends in a slash matches every path below it,
  any other only itself; the longest match wins; and a path that lacks only the final slash
  of a pattern is redirected to it.
\<close>

definition pattern_matches :: "string \<Rightarrow> string \<Rightarrow> bool" where
  "pattern_matches p path \<longleftrightarrow>
     p = path \<or> (p \<noteq> [] \<and> last p = CHR ''/'' \<and> take (length p) path = p)"

datatype mux_target = MuxHandler string | MuxRedirect string | MuxNotFound

fun longest :: "string list \<Rightarrow> mux_target" where
  "longest [] = MuxNotFound"
| "longest (p # ps) =
     (case longest ps of
        MuxHandler q \<Rightarrow> if length p < length q then MuxHandler q else MuxHandler p
      | _ \<Rightarrow> MuxHandler p)"

definition mux_target :: "string list \<Rightarrow> string \<Rightarrow> mux_target" where
  "mux_target patterns path =
     (if path \<notin> set patterns \<and> path @ ''/'' \<in> set patterns then MuxRedirect (path @ ''/'')
      else longest (filter (\<lambda>p. pattern_matches p path) patterns))"

definition gateway_patterns :: "string list" where
  "gateway_patterns = [''/health/live'', ''/health/ready'', ''/'', ''/swagger/'']"

datatype mux_reply =
    ProbeReply response
  | GatewayReply gateway_reply
  | StaticFile string
  | RedirectReply string
  | NotFoundReply

definition gateway_mux :: "env \<Rightarrow> gateway_runtime \<Rightarrow> Server \<Rightarrow> gateway_request \<Rightarrow> mux_reply op" where
  "gateway_mux E G server req =
     (case mux_target gateway_patterns (gw_Path req) of
        MuxNotFound \<Rightarrow> ret NotFoundReply
      | MuxRedirect path \<Rightarrow> ret (RedirectReply path)
      | MuxHandler p \<Rightarrow>
          if p = ''/health/live'' then do { r \<leftarrow> health_Live; ret (ProbeReply r) }
          else if p = ''/health/ready'' then do { r \<leftarrow> health_Ready (Ping E); ret (ProbeReply r) }
          else if p = ''/swagger/'' then ret (StaticFile (drop (length ''/swagger/'') (gw_Path req)))
          else do { r \<leftarrow> RegisterBankHandlerServer G (bank_server E server) req; ret (GatewayReply r) })"

section \<open>The start of the process\<close>

text \<open>\<open>gapi.NewServer\<close>.\<close>

definition gapi_NewServer :: "env \<Rightarrow> Config \<Rightarrow> error + Server" where
  "gapi_NewServer E config =
     (case NewPasetoMaker E (Config_TokenSymmetricKey config) of
        Inl err \<Rightarrow> Inl (Wrapf ''cannot create token maker: '' err)
      | Inr maker \<Rightarrow> Inr \<lparr>Server_config = config, Server_tokenMaker = maker\<rparr>)"

datatype migrate_result = UpOk | UpErrNoChange | UpFailed error

record boot =
  boot_LoadConfig :: "string \<Rightarrow> Config \<times> error option"
  boot_sql_Open :: "string \<Rightarrow> string \<Rightarrow> error option"
  boot_migrate_New :: "string \<Rightarrow> string \<Rightarrow> error option"
  boot_migrate_Up :: "string \<Rightarrow> string \<Rightarrow> migrate_result"
  boot_fs_New :: "error option"
  boot_Listen :: "string \<Rightarrow> error option"
  boot_Serve :: "string \<Rightarrow> error option"

text \<open>A server that \<open>boot_Serve\<close> gives no error for serves for ever.\<close>

datatype which_server = GrpcServer | GatewayServer | GinServer

datatype event =
    Opened string string
  | Migrated string string
  | Listening which_server string
  | Fatal string error

definition runDBMigration :: "boot \<Rightarrow> string \<Rightarrow> string \<Rightarrow> event list" where
  "runDBMigration B migrationURL dbSource =
     (case boot_migrate_New B migrationURL dbSource of
        Some err \<Rightarrow> [Fatal ''cannot create new migrate instance:'' err]
      | None \<Rightarrow>
          (case boot_migrate_Up B migrationURL dbSource of
             UpFailed err \<Rightarrow> [Fatal ''failed to run migrate up:'' err]
           | _ \<Rightarrow> [Migrated migrationURL dbSource]))"

definition runGrpcServer :: "env \<Rightarrow> boot \<Rightarrow> Config \<Rightarrow> event list" where
  "runGrpcServer E B config =
     (case gapi_NewServer E config of
        Inl err \<Rightarrow> [Fatal ''cannot create server:'' err]
      | Inr server \<Rightarrow>
          (case boot_Listen B (Config_GRPCServerAddress config) of
             Some err \<Rightarrow> [Fatal ''cannot create listener:'' err]
           | None \<Rightarrow>
               Listening GrpcServer (Config_GRPCServerAddress config) #
               (case boot_Serve B (Config_GRPCServerAddress config) of
                  Some err \<Rightarrow> [Fatal ''cannot start gRPC server:'' err]
                | None \<Rightarrow> [])))"

text \<open>\<open>RegisterBankHandlerServer\<close> always returns \<open>nil\<close>.\<close>

definition runGatewayServer :: "env \<Rightarrow> boot \<Rightarrow> Config \<Rightarrow> event list" where
  "runGatewayServer E B config =
     (case gapi_NewServer E config of
        Inl err \<Rightarrow> [Fatal ''cannot create server:'' err]
      | Inr server \<Rightarrow>
          (case boot_fs_New B of
             Some err \<Rightarrow> [Fatal ''cannot create statik filesystem:'' err]
           | None \<Rightarrow>
               (case boot_Listen B (Config_HTTPServerAddress config) of
                  Some err \<Rightarrow> [Fatal ''cannot create listener:'' err]
                | None \<Rightarrow>
                    Listening GatewayServer (Config_HTTPServerAddress config) #
                    (case boot_Serve B (Config_HTTPServerAddress config) of
                       Some err \<Rightarrow> [Fatal ''cannot start HTTP gateway server:'' err]
                     | None \<Rightarrow> []))))"

text \<open>\<open>Server.Start\<close> of package \<open>api\<close>: \<open>router.Run\<close> listens and then serves.\<close>

definition Server_Start :: "boot \<Rightarrow> string \<Rightarrow> event list \<times> error option" where
  "Server_Start B address =
     (case boot_Listen B address of
        Some err \<Rightarrow> ([], Some err)
      | None \<Rightarrow> ([Listening GinServer address], boot_Serve B address))"

definition runGinServer :: "env \<Rightarrow> boot \<Rightarrow> Config \<Rightarrow> event list" where
  "runGinServer E B config =
     (case NewServer E config of
        Inl err \<Rightarrow> [Fatal ''cannot create server:'' err]
      | Inr server \<Rightarrow>
          (case Server_Start B (Config_HTTPServerAddress config) of
             (es, Some err) \<Rightarrow> es @ [Fatal ''cannot start server:'' err]
           | (es, None) \<Rightarrow> es))"

text \<open>\<open>log.Fatal\<close> exits: nothing happens after it, in any goroutine.\<close>

fun until_fatal :: "event list \<Rightarrow> event list" where
  "until_fatal [] = []"
| "until_fatal (e # es) = (case e of Fatal _ _ \<Rightarrow> [e] | _ \<Rightarrow> e # until_fatal es)"

text \<open>The runs of \<open>main\<close>: the two servers start in parallel once the rest has succeeded.\<close>

definition main_runs :: "env \<Rightarrow> boot \<Rightarrow> event list set" where
  "main_runs E B =
     (case boot_LoadConfig B ''.'' of
        (_, Some err) \<Rightarrow> {[Fatal ''cannot load config:'' err]}
      | (config, None) \<Rightarrow>
          (case boot_sql_Open B (Config_DbDriver config) (Config_DbSource config) of
             Some err \<Rightarrow> {[Fatal ''cannot connect to db:'' err]}
           | None \<Rightarrow>
               (\<lambda>servers. until_fatal
                  (Opened (Config_DbDriver config) (Config_DbSource config) #
                   runDBMigration B (Config_MigrationURL config) (Config_DbSource config) @ servers))
               ` shuffles (runGatewayServer E B config) (runGrpcServer E B config)))"

section \<open>Properties\<close>

lemma set_until_fatal: "set (until_fatal es) \<subseteq> set es"
  by (induction es) (auto split: event.splits)

lemma fatal_kept: "\<forall>m err. Fatal m err \<notin> set (until_fatal es) \<Longrightarrow> until_fatal es = es"
  by (induction es) (auto split: event.splits)

lemma gapi_NewServer_Inr: "gapi_NewServer E c = Inr s \<Longrightarrow> length (Config_TokenSymmetricKey c) = 32"
  by (auto simp: gapi_NewServer_def NewPasetoMaker_def split: sum.splits if_splits)

lemma servers_listen:
  "Listening s a \<in> set (runGatewayServer E B c) \<union> set (runGrpcServer E B c) \<Longrightarrow>
   length (Config_TokenSymmetricKey c) = 32 \<and>
   (s = GatewayServer \<and> a = Config_HTTPServerAddress c \<or> s = GrpcServer \<and> a = Config_GRPCServerAddress c)"
  by (auto simp: runGatewayServer_def runGrpcServer_def dest: gapi_NewServer_Inr
      split: sum.splits option.splits)

text \<open>A run stops at the configuration or the database, at the migrations, or gets to the servers.\<close>

lemma main_runs_cases:
  assumes "r \<in> main_runs E B"
  obtains (early) m err where "r = [Fatal m err]"
  | (migration) a b m err where "r = [Opened a b, Fatal m err]"
  | (servers) c t where "boot_LoadConfig B ''.'' = (c, None)"
      "r = Opened (Config_DbDriver c) (Config_DbSource c) #
         Migrated (Config_MigrationURL c) (Config_DbSource c) # until_fatal t"
      "set t = set (runGatewayServer E B c) \<union> set (runGrpcServer E B c)"
proof -
  obtain c e where c: "boot_LoadConfig B ''.'' = (c, e)" by fastforce
  show thesis
  proof (cases "e = None \<and> boot_sql_Open B (Config_DbDriver c) (Config_DbSource c) = None")
    case False
    then have "\<exists>m err. r = [Fatal m err]"
      using assms c by (cases e) (auto simp: main_runs_def split: option.splits)
    then show thesis using early by blast
  next
    case True
    with assms c obtain t where t: "t \<in> shuffles (runGatewayServer E B c) (runGrpcServer E B c)"
      "r = until_fatal (Opened (Config_DbDriver c) (Config_DbSource c) #
         runDBMigration B (Config_MigrationURL c) (Config_DbSource c) @ t)"
      by (auto simp: main_runs_def)
    show thesis
      using t(2) c True set_shuffles [OF t(1)] migration servers
      by (auto simp: runDBMigration_def split: option.splits migrate_result.splits)
  qed
qed

lemma servers_listen_unless_fatal:
  assumes "set t = set (runGatewayServer E B c) \<union> set (runGrpcServer E B c)" and "\<forall>m err. Fatal m err \<notin> set t"
  shows "\<exists>a b. Listening GatewayServer a \<in> set t \<and> Listening GrpcServer b \<in> set t"
  using assms(2) unfolding assms(1)
  by (auto simp: runGatewayServer_def runGrpcServer_def split: sum.splits option.splits)

text \<open>
  C33: Nothing is served before the database is open and its migrations have been applied: a
  run of the program in which a server listens begins with exactly these two steps, with the
  values of a configuration that was loaded without error and whose token key has the
  length the token maker needs; and it listens on the configured address. If nothing fails,
  in every run both servers listen.
\<close>

theorem servers_start_after_migration:
  assumes "r \<in> main_runs E B"
  shows "(Listening s a \<in> set r \<longrightarrow> (\<exists>c rest. boot_LoadConfig B ''.'' = (c, None) \<and>
      r = Opened (Config_DbDriver c) (Config_DbSource c) #
        Migrated (Config_MigrationURL c) (Config_DbSource c) # rest \<and>
      length (Config_TokenSymmetricKey c) = 32 \<and>
      (s = GatewayServer \<and> a = Config_HTTPServerAddress c \<or>
       s = GrpcServer \<and> a = Config_GRPCServerAddress c))) \<and>
    ((\<forall>m err. Fatal m err \<notin> set r) \<longrightarrow>
      (\<exists>a b. Listening GatewayServer a \<in> set r \<and> Listening GrpcServer b \<in> set r))"
  using assms
proof (cases rule: main_runs_cases)
  case (servers c t)
  have "Listening s a \<in> set r \<Longrightarrow> Listening s a \<in> set t"
    using servers(2) set_until_fatal [of t] by auto
  moreover have "until_fatal t = t" if "\<forall>m err. Fatal m err \<notin> set r"
    using that servers(2) fatal_kept [of t] by auto
  ultimately show ?thesis
    using servers servers_listen [of s a E B c] servers_listen_unless_fatal [OF servers(3)]
    by (metis Un_iff list.set_intros(2))
qed auto

definition example_boot_config :: Config where
  "example_boot_config = Server_config example_server
     \<lparr>Config_TokenSymmetricKey := replicate 32 (CHR ''k''), Config_HTTPServerAddress := ''0.0.0.0:8080'',
      Config_GRPCServerAddress := ''0.0.0.0:9090''\<rparr>"

definition example_boot :: boot where
  "example_boot = \<lparr>boot_LoadConfig = (\<lambda>_. (example_boot_config, None)), boot_sql_Open = (\<lambda>_ _. None),
     boot_migrate_New = (\<lambda>_ _. None), boot_migrate_Up = (\<lambda>_ _. UpErrNoChange), boot_fs_New = None,
     boot_Listen = (\<lambda>_. None), boot_Serve = (\<lambda>_. None)\<rparr>"

definition example_run :: "event list" where
  "example_run = [Opened '''' '''', Migrated '''' '''', Listening GrpcServer ''0.0.0.0:9090'',
     Listening GatewayServer ''0.0.0.0:8080'']"

lemma example_run: "example_run \<in> main_runs example_env example_boot"
  by (simp add: main_runs_def example_boot_def example_run_def runDBMigration_def runGatewayServer_def
      runGrpcServer_def gapi_NewServer_def NewPasetoMaker_def example_boot_config_def example_server_def
      image_iff)

theorem servers_start_after_migration_witness:
  "(\<exists>rest. example_run = Opened (Config_DbDriver example_boot_config) (Config_DbSource example_boot_config) #
      Migrated (Config_MigrationURL example_boot_config) (Config_DbSource example_boot_config) # rest) \<and>
   (\<exists>a. Listening GatewayServer a \<in> set example_run)"
  using servers_start_after_migration [OF example_run, of GatewayServer "''0.0.0.0:8080''"]
  by (simp add: example_run_def example_boot_def)

lemma mux_target_probes:
  "mux_target gateway_patterns ''/health/live'' = MuxHandler ''/health/live''"
  "mux_target gateway_patterns ''/health/ready'' = MuxHandler ''/health/ready''"
  by (simp_all add: mux_target_def gateway_patterns_def pattern_matches_def)

text \<open>
  The two HTTP servers answer the probes identically: what listens in the deployed
  service gives on \<open>/health/live\<close> and \<open>/health/ready\<close> the response and the effect of the
  router's handlers. The first is 200 whatever the state of the database and changes
  nothing; the second is 200 exactly when the database answers a ping, else 503, and leaves
  the database as it is.
\<close>

theorem probes_agree:
  "run (gateway_mux E G s (req\<lparr>gw_Path := ''/health/live''\<rparr>)) w =
     map_prod ProbeReply id (run (serve E srv GetHealthLive) w) \<and>
   run (gateway_mux E G s (req\<lparr>gw_Path := ''/health/ready''\<rparr>)) w =
     map_prod ProbeReply id (run (serve E srv GetHealthReady) w) \<and>
   status (fst (run (serve E srv GetHealthLive) w)) = 200 \<and> snd (run (serve E srv GetHealthLive) w) = w \<and>
   status (fst (run (serve E srv GetHealthReady) w)) = (if net E (tick w) = NoFault then 200 else 503) \<and>
   db (snd (run (serve E srv GetHealthReady) w)) = db w"
proof -
  have "status (fst (run (serve E srv GetHealthLive) w)) = 200 \<and> snd (run (serve E srv GetHealthLive) w) = w \<and>
    status (fst (run (serve E srv GetHealthReady) w)) = (if net E (tick w) = NoFault then 200 else 503) \<and>
    db (snd (run (serve E srv GetHealthReady) w)) = db w"
    by (simp add: live_def health_Live_def ready_def health_Ready_def health_write_def Ping_def run_query
        run_JSON split: fault.split)
  then show ?thesis
    by (simp add: gateway_mux_def mux_target_probes live_def ready_def map_prod_def split: prod.split)
qed

text \<open>
  Every path that is neither a probe nor below \<open>/swagger\<close> is the gateway's: its three routes
  are reached.
\<close>

lemma gateway_mux_rest:
  assumes "gw_Path req = CHR ''/'' # p" and "gw_Path req \<noteq> ''/health/live''" "gw_Path req \<noteq> ''/health/ready''"
    and "gw_Path req \<noteq> ''/swagger''" and "take (length ''/swagger/'') (gw_Path req) \<noteq> ''/swagger/''"
  shows "run (gateway_mux E G s req) w =
    map_prod GatewayReply id (run (RegisterBankHandlerServer G (bank_server E s) req) w)"
proof -
  have slash: "path @ [c] = q \<longleftrightarrow> q \<noteq> [] \<and> last q = c \<and> path = butlast q" for path q and c :: char
    by (metis append_butlast_last_id butlast_snoc last_snoc snoc_eq_iff_butlast)
  have "gw_Path req @ ''/'' \<notin> set gateway_patterns"
    using assms by (auto simp: gateway_patterns_def slash)
  moreover have "gw_Path req \<noteq> ''/swagger/''"
  proof
    assume "gw_Path req = ''/swagger/''"
    with assms(5) show False by simp
  qed
  then have "filter (\<lambda>p. pattern_matches p (gw_Path req)) gateway_patterns = [''/'']"
    using assms by (simp add: gateway_patterns_def pattern_matches_def eq_commute [of _ "gw_Path req"])
  ultimately have "mux_target gateway_patterns (gw_Path req) = MuxHandler ''/''"
    by (simp add: mux_target_def)
  then show ?thesis by (simp add: gateway_mux_def split: prod.split)
qed

end
