(* ===== verification/Deployment.thy ===== *)
theory Deployment
  imports Startup
begin

text \<open>
  The deployed program as a whole: every way in that \<open>main.go\<close> opens. A request reaches the
  HTTP server of the gateway (through \<open>HttpLogger\<close> and the mux), the gRPC server (through the
  generated handlers with \<open>GrpcLogger\<close> as their interceptor) or, where \<open>runGinServer\<close> is
  used, the Gin router; all on one database.
\<close>

datatype entrance =
    ViaGateway gateway_request
  | ViaGrpcCreateUser Context "status_error + CreateUserRequest"
  | ViaGrpcUpdateUser Context "status_error + UpdateUserRequest"
  | ViaGrpcLoginUser Context "status_error + LoginUserRequest"
  | ViaGin request

text \<open>What a request got back.\<close>

datatype outcome =
    MuxOutcome mux_reply
  | UserOutcome "status_error + pbUser"
  | LoginOutcome "status_error + LoginUserResponse"
  | GinOutcome response

text \<open>\<open>HttpLogger\<close> reads the clock before and after the handler.\<close>

definition http_logged :: "env \<Rightarrow> 'a op \<Rightarrow> 'a op" where
  "http_logged E handler = do { startTime \<leftarrow> time_Now E; r \<leftarrow> handler; now \<leftarrow> time_Now E; ret r }"

fun enter :: "env \<Rightarrow> gateway_runtime \<Rightarrow> Server \<Rightarrow> entrance \<Rightarrow> outcome op" where
  "enter E G s (ViaGateway req) = do { r \<leftarrow> http_logged E (gateway_mux E G s req); ret (MuxOutcome r) }"
| "enter E G s (ViaGrpcCreateUser ctx dec) =
     do { r \<leftarrow> Bank_CreateUser_Handler (bank_server E s) ctx dec (Some (logged E)); ret (UserOutcome r) }"
| "enter E G s (ViaGrpcUpdateUser ctx dec) =
     do { r \<leftarrow> Bank_UpdateUser_Handler (bank_server E s) ctx dec (Some (logged E)); ret (UserOutcome r) }"
| "enter E G s (ViaGrpcLoginUser ctx dec) =
     do { r \<leftarrow> Bank_LoginUser_Handler (bank_server E s) ctx dec (Some (logged E)); ret (LoginOutcome r) }"
| "enter E G s (ViaGin req) = do { r \<leftarrow> serve E s req; ret (GinOutcome r) }"

context api_contract
begin

lemma gateway_mux_rel:
  assumes "Server_tokenMaker s = M"
  shows "always (on_db Q) (gateway_mux E G s req)"
  using health_rel bank_service.gateway_kept(1) [OF bank_service_axiom [OF assms]]
  by (auto simp: gateway_mux_def live_def ready_def always_ret intro!: always_bind split: mux_target.split)

lemma enter_rel:
  assumes "Server_tokenMaker s = M"
  shows "always (on_db Q) (enter E G s e)"
proof -
  note bank = bank_service.handlers_kept [OF bank_service_axiom [OF assms], of "logged E" "logged E"]
  show ?thesis
    by (cases e) (auto simp: http_logged_def intro!: always_bind always_ret bank logged_kept time_Now_rel
        gateway_mux_rel [OF assms] serve_rel [OF assms])
qed

lemma enter_all_rel:
  assumes "Server_tokenMaker s = M"
  shows "Q (db w) (db (snd (run_all (enter E G s) es w)))"
  using run_all_rel [of "enter E G s" w es] enter_rel [OF assms] by (simp add: on_db_def)

end

lemma gapi_NewServer_maker:
  "gapi_NewServer E c = Inr s \<Longrightarrow> Server_tokenMaker s = PasetoMaker E (Config_TokenSymmetricKey c)"
  by (auto simp: gapi_NewServer_def NewPasetoMaker_def split: if_splits)

text \<open>The Gin server and the gRPC server of one configuration are made of the same parts.\<close>

lemma same_server: "NewServer E c = gapi_NewServer E c"
  by (simp add: NewServer_def gapi_NewServer_def)

text \<open>
  C19: The books are safe whichever door the requests come through: after any requests to the
  HTTP gateway, to the gRPC server and to the Gin router of the deployed program, in any
  order and under any failures, the constraints of the schema hold, the total of all
  balances is the same, each balance still agrees with its entries, and the old transfers,
  entries, accounts and keys are still there.
\<close>

theorem deployment_keeps_the_books:
  assumes "gapi_NewServer E c = Inr s" and "db_ok (db w)"
    and "w' = snd (run_all (enter E G s) es w)"
  shows "db_ok (db w') \<and> seq_le (db w) (db w') \<and> total_balance (db w') = total_balance (db w) \<and>
    ledger_kept (db w) (db w') \<and> history_kept E (db w) (db w')"
proof -
  note maker = gapi_NewServer_maker [OF assms(1)]
  from ok_api.enter_all_rel [OF maker, of w G es] money_api.enter_all_rel [OF maker, of w G es]
    ledger_api.enter_all_rel [OF maker, of w G es] hist_api.enter_all_rel [OF maker, of w G es]
  show ?thesis unfolding assms(3) using assms(2) by (simp add: ok_kept_def money_kept_def)
qed

definition example_deployed_server :: Server where
  "example_deployed_server = \<lparr>Server_config = example_boot_config,
     Server_tokenMaker = PasetoMaker example_env (Config_TokenSymmetricKey example_boot_config)\<rparr>"

definition example_entrances :: "entrance list" where
  "example_entrances = [ViaGateway (example_post ''/v1/create_user''),
     ViaGin (PostTransfers ''Bearer x'' '''' (Some (example_request 30)))]"

theorem deployment_keeps_the_books_witness:
  "total_balance (db (snd (run_all (enter example_env example_gateway example_deployed_server)
     example_entrances example_world))) = 105"
proof -
  have "gapi_NewServer example_env example_boot_config = Inr example_deployed_server"
    by (simp add: gapi_NewServer_def NewPasetoMaker_def example_boot_config_def example_deployed_server_def)
  from deployment_keeps_the_books [OF this _ refl, of example_world example_gateway example_entrances]
  show ?thesis
    using example_db_ok by (simp add: total_balance_def example_db_def example_account_def del: run_all.simps)
qed

end
