(* ===== verification/Random_Data.thy ===== *)
theory Random_Data
  imports Util
begin

text \<open>
  \<open>util/random.go\<close>: the random values the tests are made of. The generator \<open>math/rand\<close> is a
  parameter that answers the \<open>k\<close>-th call; its documented contract (a value below the bound,
  and a panic for a bound that is not positive) is the hypothesis of the property. \<open>None\<close> is a
  panic.
\<close>

record rand =
  Int63n :: "nat \<Rightarrow> int64 \<Rightarrow> int64"
  Intn :: "nat \<Rightarrow> int64 \<Rightarrow> int64"

definition rand_documented :: "rand \<Rightarrow> bool" where
  "rand_documented R \<longleftrightarrow> (\<forall>k n. 0 < sint n \<longrightarrow>
     0 \<le> sint (Int63n R k n) \<and> sint (Int63n R k n) < sint n \<and>
     0 \<le> sint (Intn R k n) \<and> sint (Intn R k n) < sint n)"

type_synonym 'a drawn = "(nat, 'a option) state"

definition and_then :: "'a drawn \<Rightarrow> ('a \<Rightarrow> 'b drawn) \<Rightarrow> 'b drawn" where
  "and_then m f = m \<bind> (\<lambda>r. case r of None \<Rightarrow> ret None | Some x \<Rightarrow> f x)"

definition call_rand :: "(nat \<Rightarrow> int64 \<Rightarrow> int64) \<Rightarrow> int64 \<Rightarrow> int64 drawn" where
  "call_rand f n = State (\<lambda>k. if sint n \<le> 0 then (None, k) else (Some (f k n), Suc k))"

definition alphabet :: string where
  "alphabet = ''abcdefghijklmnopqrstuvwxyz''"

definition RandomInt :: "rand \<Rightarrow> int64 \<Rightarrow> int64 \<Rightarrow> int64 drawn" where
  "RandomInt R lo hi = and_then (call_rand (Int63n R) (hi - lo + 1)) (\<lambda>x. ret (Some (lo + x)))"

text \<open>The loop that fills the buffer.\<close>

fun random_bytes :: "rand \<Rightarrow> nat \<Rightarrow> string drawn" where
  "random_bytes R 0 = ret (Some [])"
| "random_bytes R (Suc n) =
     and_then (call_rand (Intn R) (word_of_int (int (length alphabet)))) (\<lambda>i.
     and_then (random_bytes R n) (\<lambda>s. ret (Some (alphabet ! nat (sint i) # s))))"

definition RandomString :: "rand \<Rightarrow> int64 \<Rightarrow> string drawn" where
  "RandomString R n = (if sint n < 0 then ret None else random_bytes R (nat (sint n)))"

definition RandomOwner :: "rand \<Rightarrow> string drawn" where
  "RandomOwner R = RandomString R 6"

definition RandomMoney :: "rand \<Rightarrow> int64 drawn" where
  "RandomMoney R = RandomInt R 0 1000"

definition RandomCurrency :: "rand \<Rightarrow> string drawn" where
  "RandomCurrency R =
     (let currencies = [USD, EUR, CAD]; n = length currencies in
      and_then (RandomInt R 0 (word_of_int (int n) - 1)) (\<lambda>i. ret (Some (currencies ! nat (sint i)))))"

definition RandomEmail :: "rand \<Rightarrow> string drawn" where
  "RandomEmail R =
     and_then (RandomString R 6) (\<lambda>a.
     and_then (RandomString R 6) (\<lambda>b. ret (Some (a @ ''@'' @ b @ ''.com''))))"

section \<open>Properties\<close>

lemma run_and_then:
  "run (and_then m f) k =
     (case run m k of (None, k1) \<Rightarrow> (None, k1) | (Some x, k1) \<Rightarrow> run (f x) k1)"
  by (simp add: and_then_def split: prod.splits option.splits)

lemma rand_documentedD:
  assumes "rand_documented R" and "0 < sint n"
  shows "0 \<le> sint (Int63n R k n) \<and> sint (Int63n R k n) < sint n"
    and "0 \<le> sint (Intn R k n) \<and> sint (Intn R k n) < sint n"
  using assms by (simp_all add: rand_documented_def)

lemma run_RandomInt:
  assumes "rand_documented R" and "sint lo \<le> sint hi" and "sint hi - sint lo < max_int64"
  shows "\<exists>x. run (RandomInt R lo hi) k = (Some x, Suc k) \<and> sint lo \<le> sint x \<and> sint x \<le> sint hi"
proof -
  let ?n = "hi - lo + 1"
  have "?n = word_of_int (sint hi - sint lo + 1)" by simp
  moreover have "in_int64 (sint hi - sint lo + 1)" using assms(2,3) by (simp add: in_int64_def)
  ultimately have n: "sint ?n = sint hi - sint lo + 1" by (metis sint64_of_int)
  let ?x = "Int63n R k ?n"
  have x: "0 \<le> sint ?x" "sint ?x \<le> sint hi - sint lo"
    using rand_documentedD(1) [OF assms(1), of ?n k] assms(2) n by simp_all
  have "in_int64 (sint lo + sint ?x)"
    using x sint64_bounds [of lo] sint64_bounds [of hi] unfolding in_int64_def by linarith
  then have "sint (lo + ?x) = sint lo + sint ?x" by (rule sint64_add)
  with x n assms(2) show ?thesis
    by (simp add: RandomInt_def run_and_then call_rand_def)
qed

lemma length_alphabet: "length alphabet = 26"
  by (simp add: alphabet_def)

lemma run_random_bytes:
  assumes "rand_documented R"
  shows "\<exists>s k'. run (random_bytes R n) k = (Some s, k') \<and> length s = n \<and> set s \<subseteq> set alphabet"
proof (induction n arbitrary: k)
  case (Suc n)
  have bound: "sint (word_of_int (int (length alphabet)) :: int64) = 26"
    by (simp add: length_alphabet)
  let ?i = "Intn R k (word_of_int (int (length alphabet)))"
  have "0 \<le> sint ?i \<and> sint ?i < sint (word_of_int (int (length alphabet)) :: int64)"
    by (rule rand_documentedD(2) [OF assms]) (use bound in linarith)
  then have i: "0 \<le> sint ?i \<and> sint ?i < 26" unfolding bound .
  have "alphabet ! nat (sint ?i) \<in> set alphabet"
    by (intro nth_mem) (use i in \<open>unfold length_alphabet, linarith\<close>)
  moreover obtain s k' where "run (random_bytes R n) (Suc k) = (Some s, k')" "length s = n"
    "set s \<subseteq> set alphabet" using Suc.IH by blast
  ultimately show ?case using bound by (simp add: run_and_then call_rand_def)
qed simp

lemma alphabet_lower: "c \<in> set alphabet \<Longrightarrow> is_lower c"
  by (auto simp: alphabet_def is_lower_def byte_def)

text \<open>
  The random test data is valid input of the service: names of six lower-case letters,
  amounts from 0 to 1000, supported currencies.
\<close>

theorem random_data_valid:
  assumes "rand_documented R"
  shows "(\<exists>s k'. run (RandomOwner R) k = (Some s, k') \<and> length s = 6 \<and> ValidateUsername s = None) \<and>
    (\<exists>x k'. run (RandomMoney R) k = (Some x, k') \<and> 0 \<le> sint x \<and> sint x \<le> 1000) \<and>
    (\<exists>c k'. run (RandomCurrency R) k = (Some c, k') \<and> IsSupportedCurrency c)"
proof (intro conjI)
  show "\<exists>s k'. run (RandomOwner R) k = (Some s, k') \<and> length s = 6 \<and> ValidateUsername s = None"
    using run_random_bytes [OF assms, of 6 k] alphabet_lower
    by (force simp: RandomOwner_def RandomString_def Validate_None)
  show "\<exists>x k'. run (RandomMoney R) k = (Some x, k') \<and> 0 \<le> sint x \<and> sint x \<le> 1000"
    using run_RandomInt [OF assms, of 0 1000 k] by (auto simp: RandomMoney_def)
  obtain x where x: "run (RandomInt R 0 2) k = (Some x, Suc k)" "0 \<le> sint x" "sint x \<le> 2"
    using run_RandomInt [OF assms, of 0 2 k] by auto
  then have "nat (sint x) < 3" by simp
  then have "[USD, EUR, CAD] ! nat (sint x) \<in> {USD, EUR, CAD}"
    by (auto simp: less_Suc_eq numeral_3_eq_3)
  with x show "\<exists>c k'. run (RandomCurrency R) k = (Some c, k') \<and> IsSupportedCurrency c"
    by (simp add: RandomCurrency_def run_and_then IsSupportedCurrency_def)
qed

end
