(* ===== verification/Interfaces.thy ===== *)
theory Interfaces
  imports Store
begin

text \<open>
  The interfaces of package \<open>db\<close>: \<open>Querier\<close> of \<open>querier.go\<close>, a record of its methods;
  \<open>Store\<close> of \<open>store.go\<close>, which embeds it and adds the transactions and the ping; and their
  implementations, \<open>New\<close> and \<open>NewStore\<close>. The connection they are made on is the environment.
  The servers of this development call the methods of \<open>NewStore E\<close> by their names.
\<close>

record Querier =
  q_AddAccountBalance :: "AddAccountBalanceParams \<Rightarrow> Account db_op"
  q_BlockSession :: "uuid \<Rightarrow> Session db_op"
  q_BlockUserSessions :: "string \<Rightarrow> int64 db_op"
  q_CompleteIdempotencyKey :: "CompleteIdempotencyKeyParams \<Rightarrow> IdempotencyKey db_op"
  q_CreateAccount :: "CreateAccountParams \<Rightarrow> Account db_op"
  q_CreateEntry :: "CreateEntryParams \<Rightarrow> Entry db_op"
  q_CreateIdempotencyKey :: "CreateIdempotencyKeyParams \<Rightarrow> IdempotencyKey db_op"
  q_CreateSession :: "CreateSessionParams \<Rightarrow> Session db_op"
  q_CreateTransfer :: "CreateTransferParams \<Rightarrow> Transfer db_op"
  q_CreateUser :: "CreateUserParams \<Rightarrow> User db_op"
  q_DeleteAccount :: "int64 \<Rightarrow> unit db_op"
  q_GetAccount :: "int64 \<Rightarrow> Account db_op"
  q_GetAccountForUpdate :: "int64 \<Rightarrow> Account db_op"
  q_GetEntry :: "int64 \<Rightarrow> Entry db_op"
  q_GetIdempotencyKey :: "string \<times> string \<Rightarrow> IdempotencyKey db_op"
  q_GetSession :: "uuid \<Rightarrow> Session db_op"
  q_GetTransfer :: "int64 \<Rightarrow> Transfer db_op"
  q_GetUser :: "string \<Rightarrow> User db_op"
  q_ListAccounts :: "ListAccountsParams \<Rightarrow> Account list db_op"
  q_ListEntries :: "ListEntriesParams \<Rightarrow> Entry list db_op"
  q_ListTransfers :: "ListTransfersParams \<Rightarrow> Transfer list db_op"
  q_UpdateAccount :: "UpdateAccountParams \<Rightarrow> Account db_op"
  q_UpdateUser :: "UpdateUserParams \<Rightarrow> User db_op"

record StoreInterface = Querier +
  s_TransferTx :: "TransferTxParams \<Rightarrow> TransferTxResult db_op"
  s_IdempotentTransferTx :: "IdempotentTransferTxParams \<Rightarrow> TransferTxResult db_op"
  s_Ping :: "unit db_op"

text \<open>\<open>New\<close>: the queries on a connection.\<close>

definition New :: "env \<Rightarrow> Querier" where
  "New E = \<lparr>
     q_AddAccountBalance = AddAccountBalance E, q_BlockSession = BlockSession E,
     q_BlockUserSessions = BlockUserSessions E, q_CompleteIdempotencyKey = CompleteIdempotencyKey E,
     q_CreateAccount = CreateAccount E, q_CreateEntry = CreateEntry E,
     q_CreateIdempotencyKey = CreateIdempotencyKey E, q_CreateSession = CreateSession E,
     q_CreateTransfer = CreateTransfer E, q_CreateUser = CreateUser E,
     q_DeleteAccount = DeleteAccount E, q_GetAccount = GetAccount E,
     q_GetAccountForUpdate = GetAccountForUpdate E, q_GetEntry = GetEntry E,
     q_GetIdempotencyKey = GetIdempotencyKey E, q_GetSession = GetSession E,
     q_GetTransfer = GetTransfer E, q_GetUser = GetUser E, q_ListAccounts = ListAccounts E,
     q_ListEntries = ListEntries E, q_ListTransfers = ListTransfers E,
     q_UpdateAccount = UpdateAccount E, q_UpdateUser = UpdateUser E\<rparr>"

text \<open>
  \<open>WithTx\<close>: the queries on a transaction, whose connection is the one it was begun on; the receiver is
  not used.
\<close>

definition WithTx :: "Querier \<Rightarrow> env \<Rightarrow> Querier" where
  "WithTx q tx = New tx"

text \<open>\<open>NewStore\<close>: the embedded queries are promoted.\<close>

definition NewStore :: "env \<Rightarrow> StoreInterface" where
  "NewStore E = Querier.extend (New E)
     (StoreInterface.fields (TransferTx E) (IdempotentTransferTx E) (Ping E))"

section \<open>The contract of the interface\<close>

text \<open>
  A store whose every method keeps the integrity constraints: \<open>always_intros\<close> then gives the
  same of what is composed of its calls.
\<close>

locale store_interface =
  fixes S :: StoreInterface
  assumes updates:
      "always (on_db ok_kept) (q_AddAccountBalance S aa)" "always (on_db ok_kept) (q_UpdateAccount S ua)"
      "always (on_db ok_kept) (q_DeleteAccount S i)" "always (on_db ok_kept) (q_CreateAccount S ca)"
      "always (on_db ok_kept) (q_CreateEntry S ce)" "always (on_db ok_kept) (q_CreateTransfer S ct)"
      "always (on_db ok_kept) (q_CreateUser S cu)" "always (on_db ok_kept) (q_UpdateUser S uu)"
      "always (on_db ok_kept) (q_BlockSession S ui)" "always (on_db ok_kept) (q_BlockUserSessions S u)"
      "always (on_db ok_kept) (q_CreateSession S cs)" "always (on_db ok_kept) (q_CreateIdempotencyKey S ck)"
      "always (on_db ok_kept) (q_CompleteIdempotencyKey S ci)"
    and reads:
      "always (on_db ok_kept) (q_GetAccount S i)" "always (on_db ok_kept) (q_GetAccountForUpdate S i)"
      "always (on_db ok_kept) (q_ListAccounts S la)" "always (on_db ok_kept) (q_GetEntry S i)"
      "always (on_db ok_kept) (q_ListEntries S le)" "always (on_db ok_kept) (q_GetTransfer S i)"
      "always (on_db ok_kept) (q_ListTransfers S lt)" "always (on_db ok_kept) (q_GetUser S u)"
      "always (on_db ok_kept) (q_GetSession S ui)" "always (on_db ok_kept) (q_GetIdempotencyKey S pk)"
    and transactions:
      "always (on_db ok_kept) (s_TransferTx S tt)" "always (on_db ok_kept) (s_IdempotentTransferTx S it)"
      "always (on_db ok_kept) (s_Ping S)"
begin

text \<open>For example the pattern of the handlers that read an account before they move money.\<close>

lemma read_then_transfer:
  "always (on_db ok_kept) (q_GetAccount S i \<bind> (\<lambda>r. case r of
     Inl err \<Rightarrow> ret (Inl err) | Inr a \<Rightarrow> s_TransferTx S (arg a)))"
  by (intro ok.always_intros reads transactions)

end

interpretation sql_store: store_interface "NewStore E" for E
proof
  show "always (on_db ok_kept) (s_Ping (NewStore E))"
    unfolding NewStore_def StoreInterface.defs Querier.defs New_def Ping_def
    by (simp add: ok.query_rel ok.Q_refl)
qed (simp_all add: NewStore_def New_def Querier.defs StoreInterface.defs queries_ok ok.read_only_rel
    TransferTx_ok IdempotentTransferTx_ok)

end
