(* ===== verification/Migrations.thy ===== *)
theory Migrations
  imports Schema
begin

text \<open>
  The migrations of \<open>db/migration\<close> as data: the statements of each file, executed on a schema
  with the rows of its tables. The lemmas show that the migrations build exactly the constraints
  of Schema, that every down migration undoes its up migration, and on which data an up
  migration succeeds. Names of constraints that the files leave to PostgreSQL are made as it
  makes them, since a later file refers to one.
\<close>

section \<open>Schemas\<close>

datatype sql_type = Bigserial | Bigint | Varchar | Text | Boolean | Timestamptz | Uuid

datatype sql_default = Default_now | Default_zero_time | Default_false | Default_empty

datatype sql_value = Null | Int_value int | Text_value string | Bool_value bool | Time_value time | Uuid_value uuid

record column =
  column_name :: string
  column_type :: sql_type
  column_not_null :: bool
  column_default :: "sql_default option"

datatype table_constraint =
    Primary_key "string list"
  | Unique "string list"
  | Foreign_key string string string
  | Not_negative string

type_synonym row = "(string \<times> sql_value) list"

record table =
  table_name :: string
  table_columns :: "column list"
  table_constraints :: "(string \<times> table_constraint) list"
  table_indexes :: "string list list"
  table_comments :: "(string \<times> string) list"
  table_rows :: "row list"

type_synonym schema = "table list"

definition field :: "string \<Rightarrow> row \<Rightarrow> sql_value" where
  "field c r = (case map_of r c of None \<Rightarrow> Null | Some v \<Rightarrow> v)"

primrec has_type :: "sql_value \<Rightarrow> sql_type \<Rightarrow> bool" where
  "has_type Null ty = True"
| "has_type (Int_value i) ty = (ty \<in> {Bigserial, Bigint} \<and> in_int64 i)"
| "has_type (Text_value s) ty = (ty \<in> {Varchar, Text})"
| "has_type (Bool_value b) ty = (ty = Boolean)"
| "has_type (Time_value t) ty = (ty = Timestamptz)"
| "has_type (Uuid_value u) ty = (ty = Uuid)"

text \<open>A constraint on the rows of its table; of the schema it needs the tables that are referenced.\<close>

definition constraint_holds :: "schema \<Rightarrow> row list \<Rightarrow> table_constraint \<Rightarrow> bool" where
  "constraint_holds s rs c = (case c of
       Primary_key cs \<Rightarrow> distinct (map (\<lambda>r. map (\<lambda>c. field c r) cs) rs) \<and>
         (\<forall>r \<in> set rs. \<forall>c \<in> set cs. field c r \<noteq> Null)
     | Unique cs \<Rightarrow> distinct (filter (\<lambda>vs. Null \<notin> set vs) (map (\<lambda>r. map (\<lambda>c. field c r) cs) rs))
     | Foreign_key c t c' \<Rightarrow> (\<forall>r \<in> set rs. field c r = Null \<or>
         (case lookup table_name t s of None \<Rightarrow> False
          | Some T \<Rightarrow> field c r \<in> set (map (field c') (table_rows T))))
     | Not_negative c \<Rightarrow> (\<forall>r \<in> set rs. case field c r of Int_value i \<Rightarrow> 0 \<le> i | _ \<Rightarrow> True))"

definition table_ok :: "schema \<Rightarrow> table \<Rightarrow> bool" where
  "table_ok s T \<longleftrightarrow>
     (\<forall>r \<in> set (table_rows T). \<forall>c \<in> set (table_columns T).
        has_type (field (column_name c) r) (column_type c) \<and>
        (column_not_null c \<longrightarrow> field (column_name c) r \<noteq> Null)) \<and>
     (\<forall>(n, c) \<in> set (table_constraints T). constraint_holds s (table_rows T) c)"

definition schema_ok :: "schema \<Rightarrow> bool" where
  "schema_ok s \<longleftrightarrow> (\<forall>T \<in> set s. table_ok s T)"

section \<open>Statements\<close>

text \<open>The flags say \<open>IF EXISTS\<close>; a constraint without a name gets one from PostgreSQL.\<close>

datatype ddl =
    Create_table string "column list" "table_constraint list"
  | Create_index string "string list"
  | Comment_on_column string string string
  | Add_constraint string "string option" table_constraint
  | Drop_constraint bool string bool string
  | Drop_table bool string

primrec constraint_columns :: "table_constraint \<Rightarrow> string list" where
  "constraint_columns (Primary_key cs) = cs"
| "constraint_columns (Unique cs) = cs"
| "constraint_columns (Foreign_key c t c') = [c]"
| "constraint_columns (Not_negative c) = [c]"

definition constraint_name :: "string \<Rightarrow> table_constraint \<Rightarrow> string" where
  "constraint_name t c = (case c of
       Primary_key _ \<Rightarrow> t @ ''_pkey''
     | Unique cs \<Rightarrow> t @ concat (map (\<lambda>c. CHR ''_'' # c) cs) @ ''_key''
     | Foreign_key c _ _ \<Rightarrow> t @ CHR ''_'' # c @ ''_fkey''
     | Not_negative c \<Rightarrow> t @ CHR ''_'' # c @ ''_check'')"

definition on_table :: "string \<Rightarrow> schema \<Rightarrow> (table \<Rightarrow> error + table) \<Rightarrow> error + schema" where
  "on_table t s f = (case lookup table_name t s of
       None \<Rightarrow> Inl (PqError ''undefined_table'' '''')
     | Some T \<Rightarrow> (case f T of
           Inl e \<Rightarrow> Inl e
         | Inr T' \<Rightarrow> Inr (update_where (\<lambda>U. table_name U = t) (\<lambda>_. T') s)))"

definition column_names :: "table \<Rightarrow> string set" where
  "column_names T = set (map column_name (table_columns T))"

text \<open>What a foreign key needs: a primary key or unique constraint on the column it references.\<close>

definition references_key :: "schema \<Rightarrow> table_constraint \<Rightarrow> bool" where
  "references_key s c = (case c of
       Foreign_key _ t c' \<Rightarrow> (case lookup table_name t s of None \<Rightarrow> False
         | Some T \<Rightarrow> list_ex (\<lambda>(n, k). k = Primary_key [c'] \<or> k = Unique [c']) (table_constraints T))
     | _ \<Rightarrow> True)"

definition referenced :: "schema \<Rightarrow> string \<Rightarrow> (string \<Rightarrow> bool) \<Rightarrow> bool" where
  "referenced s t p = list_ex (\<lambda>T. list_ex (\<lambda>(n, c).
       case c of Foreign_key _ t' c' \<Rightarrow> t' = t \<and> p c' | _ \<Rightarrow> False) (table_constraints T)) s"

definition exec_ddl :: "ddl \<Rightarrow> schema \<Rightarrow> error + schema" where
  "exec_ddl st s = (case st of
       Create_table t cols cs \<Rightarrow>
         if lookup table_name t s \<noteq> None then Inl (PqError ''duplicate_table'' '''')
         else Inr (s @ [\<lparr>table_name = t, table_columns = cols,
           table_constraints = map (\<lambda>c. (constraint_name t c, c)) cs,
           table_indexes = [], table_comments = [], table_rows = []\<rparr>])
     | Create_index t cs \<Rightarrow> on_table t s (\<lambda>T.
         if set cs \<subseteq> column_names T then Inr (T\<lparr>table_indexes := table_indexes T @ [cs]\<rparr>)
         else Inl (PqError ''undefined_column'' ''''))
     | Comment_on_column t c text \<Rightarrow> on_table t s (\<lambda>T.
         if c \<in> column_names T then Inr (T\<lparr>table_comments := table_comments T @ [(c, text)]\<rparr>)
         else Inl (PqError ''undefined_column'' ''''))
     | Add_constraint t name c \<Rightarrow> on_table t s (\<lambda>T.
         let n = (case name of None \<Rightarrow> constraint_name t c | Some n \<Rightarrow> n) in
         if \<not> set (constraint_columns c) \<subseteq> column_names T then Inl (PqError ''undefined_column'' '''')
         else if \<not> references_key s c then Inl (PqError ''invalid_foreign_key'' '''')
         else if map_of (table_constraints T) n \<noteq> None then Inl (PqError ''duplicate_object'' '''')
         else if \<not> constraint_holds s (table_rows T) c then Inl (PqError ''integrity_constraint_violation'' n)
         else Inr (T\<lparr>table_constraints := table_constraints T @ [(n, c)]\<rparr>))
     | Drop_constraint if_table t if_constraint n \<Rightarrow>
         if if_table \<and> lookup table_name t s = None then Inr s
         else on_table t s (\<lambda>T. case map_of (table_constraints T) n of
             None \<Rightarrow> if if_constraint then Inr T else Inl (PqError ''undefined_object'' '''')
           | Some c \<Rightarrow>
               if (case c of Primary_key cs \<Rightarrow> referenced s t (\<lambda>c'. cs = [c'])
                   | Unique cs \<Rightarrow> referenced s t (\<lambda>c'. cs = [c']) | _ \<Rightarrow> False)
               then Inl (PqError ''dependent_objects_still_exist'' '''')
               else Inr (T\<lparr>table_constraints := filter (\<lambda>(m, c). m \<noteq> n) (table_constraints T)\<rparr>))
     | Drop_table if_exists t \<Rightarrow>
         if lookup table_name t s = None then
           (if if_exists then Inr s else Inl (PqError ''undefined_table'' ''''))
         else if referenced (filter (\<lambda>T. table_name T \<noteq> t) s) t (\<lambda>_. True) then
           Inl (PqError ''dependent_objects_still_exist'' '''')
         else Inr (filter (\<lambda>T. table_name T \<noteq> t) s))"

text \<open>A file is executed as one transaction.\<close>

primrec run_ddl :: "ddl list \<Rightarrow> schema \<Rightarrow> error + schema" where
  "run_ddl [] s = Inr s"
| "run_ddl (st # sts) s = (case exec_ddl st s of Inl e \<Rightarrow> Inl e | Inr s' \<Rightarrow> run_ddl sts s')"

section \<open>The files\<close>

definition required :: "string \<Rightarrow> sql_type \<Rightarrow> sql_default option \<Rightarrow> column" where
  "required n ty dflt = \<lparr>column_name = n, column_type = ty, column_not_null = True, column_default = dflt\<rparr>"

definition init_schema_up :: "ddl list" where
  "init_schema_up =
     [Create_table ''accounts''
        [required ''id'' Bigserial None, required ''owner'' Varchar None, required ''balance'' Bigint None,
         required ''currency'' Varchar None, required ''created_at'' Timestamptz (Some Default_now)]
        [Primary_key [''id'']],
      Create_table ''entries''
        [required ''id'' Bigserial None, required ''account_id'' Bigint None, required ''amount'' Bigint None,
         required ''created_at'' Timestamptz (Some Default_now)]
        [Primary_key [''id'']],
      Create_table ''transfers''
        [required ''id'' Bigserial None, required ''from_account_id'' Bigint None,
         required ''to_account_id'' Bigint None, required ''amount'' Bigint None,
         required ''created_at'' Timestamptz (Some Default_now)]
        [Primary_key [''id'']],
      Create_index ''accounts'' [''owner''],
      Create_index ''entries'' [''account_id''],
      Create_index ''transfers'' [''from_account_id''],
      Create_index ''transfers'' [''to_account_id''],
      Create_index ''transfers'' [''from_account_id'', ''to_account_id''],
      Comment_on_column ''entries'' ''amount'' ''can be negative or positive'',
      Comment_on_column ''transfers'' ''amount'' ''must be positive'',
      Add_constraint ''entries'' None (Foreign_key ''account_id'' ''accounts'' ''id''),
      Add_constraint ''transfers'' None (Foreign_key ''from_account_id'' ''accounts'' ''id''),
      Add_constraint ''transfers'' None (Foreign_key ''to_account_id'' ''accounts'' ''id'')]"

definition init_schema_down :: "ddl list" where
  "init_schema_down = [Drop_table True ''entries'', Drop_table True ''transfers'', Drop_table True ''accounts'']"

definition add_users_up :: "ddl list" where
  "add_users_up =
     [Create_table ''users''
        [required ''username'' Varchar None, required ''hashed_password'' Varchar None,
         required ''full_name'' Varchar None, required ''email'' Varchar None,
         required ''password_changed_at'' Timestamptz (Some Default_zero_time),
         required ''created_at'' Timestamptz (Some Default_now)]
        [Primary_key [''username''], Unique [''email'']],
      Add_constraint ''accounts'' (Some ''owner_currency_key'') (Unique [''owner'', ''currency'']),
      Add_constraint ''accounts'' None (Foreign_key ''owner'' ''users'' ''username'')]"

definition add_users_down :: "ddl list" where
  "add_users_down =
     [Drop_constraint True ''accounts'' True ''owner_currency_key'',
      Drop_constraint True ''accounts'' True ''accounts_owner_fkey'',
      Drop_table True ''users'']"

definition add_sessions_up :: "ddl list" where
  "add_sessions_up =
     [Create_table ''sessions''
        [required ''id'' Uuid None, required ''username'' Varchar None, required ''refresh_token'' Varchar None,
         required ''user_agent'' Varchar None, required ''client_ip'' Varchar None,
         required ''is_blocked'' Boolean (Some Default_false), required ''expires_at'' Timestamptz None,
         required ''created_at'' Timestamptz (Some Default_now)]
        [Primary_key [''id'']],
      Add_constraint ''sessions'' None (Foreign_key ''username'' ''users'' ''username'')]"

definition add_sessions_down :: "ddl list" where
  "add_sessions_down = [Drop_table True ''sessions'']"

definition add_balance_check_up :: "ddl list" where
  "add_balance_check_up =
     [Add_constraint ''accounts'' (Some ''accounts_balance_non_negative'') (Not_negative ''balance'')]"

definition add_balance_check_down :: "ddl list" where
  "add_balance_check_down = [Drop_constraint False ''accounts'' False ''accounts_balance_non_negative'']"

definition add_idempotency_keys_up :: "ddl list" where
  "add_idempotency_keys_up =
     [Create_table ''idempotency_keys''
        [required ''owner'' Varchar None, required ''key'' Varchar None, required ''request_hash'' Varchar None,
         required ''response_body'' Text (Some Default_empty),
         required ''created_at'' Timestamptz (Some Default_now)]
        [Primary_key [''owner'', ''key'']]]"

definition add_idempotency_keys_down :: "ddl list" where
  "add_idempotency_keys_down = [Drop_table False ''idempotency_keys'']"

text \<open>The files in the order of their versions, each with the one that undoes it.\<close>

definition migrations :: "(ddl list \<times> ddl list) list" where
  "migrations =
     [(init_schema_up, init_schema_down), (add_users_up, add_users_down),
      (add_sessions_up, add_sessions_down), (add_balance_check_up, add_balance_check_down),
      (add_idempotency_keys_up, add_idempotency_keys_down)]"

text \<open>The schema after the first \<open>n\<close> migrations of an empty database.\<close>

definition schema_version :: "nat \<Rightarrow> error + schema" where
  "schema_version n = run_ddl (concat (map fst (take n migrations))) []"

section \<open>The schema they build\<close>

text \<open>The tables with the rows \<open>f\<close> after \<open>n\<close> migrations, written out.\<close>

definition accounts_table :: "nat \<Rightarrow> row list \<Rightarrow> table" where
  "accounts_table n rs =
     \<lparr>table_name = ''accounts'',
      table_columns = [required ''id'' Bigserial None, required ''owner'' Varchar None,
        required ''balance'' Bigint None, required ''currency'' Varchar None,
        required ''created_at'' Timestamptz (Some Default_now)],
      table_constraints = (''accounts_pkey'', Primary_key [''id'']) #
        (if n < 2 then [] else
          [(''owner_currency_key'', Unique [''owner'', ''currency'']),
           (''accounts_owner_fkey'', Foreign_key ''owner'' ''users'' ''username'')]) @
        (if n < 4 then [] else [(''accounts_balance_non_negative'', Not_negative ''balance'')]),
      table_indexes = [[''owner'']], table_comments = [], table_rows = rs\<rparr>"

definition entries_table :: "row list \<Rightarrow> table" where
  "entries_table rs =
     \<lparr>table_name = ''entries'',
      table_columns = [required ''id'' Bigserial None, required ''account_id'' Bigint None,
        required ''amount'' Bigint None, required ''created_at'' Timestamptz (Some Default_now)],
      table_constraints = [(''entries_pkey'', Primary_key [''id'']),
        (''entries_account_id_fkey'', Foreign_key ''account_id'' ''accounts'' ''id'')],
      table_indexes = [[''account_id'']],
      table_comments = [(''amount'', ''can be negative or positive'')], table_rows = rs\<rparr>"

definition transfers_table :: "row list \<Rightarrow> table" where
  "transfers_table rs =
     \<lparr>table_name = ''transfers'',
      table_columns = [required ''id'' Bigserial None, required ''from_account_id'' Bigint None,
        required ''to_account_id'' Bigint None, required ''amount'' Bigint None,
        required ''created_at'' Timestamptz (Some Default_now)],
      table_constraints = [(''transfers_pkey'', Primary_key [''id'']),
        (''transfers_from_account_id_fkey'', Foreign_key ''from_account_id'' ''accounts'' ''id''),
        (''transfers_to_account_id_fkey'', Foreign_key ''to_account_id'' ''accounts'' ''id'')],
      table_indexes = [[''from_account_id''], [''to_account_id''], [''from_account_id'', ''to_account_id'']],
      table_comments = [(''amount'', ''must be positive'')], table_rows = rs\<rparr>"

definition users_table :: "row list \<Rightarrow> table" where
  "users_table rs =
     \<lparr>table_name = ''users'',
      table_columns = [required ''username'' Varchar None, required ''hashed_password'' Varchar None,
        required ''full_name'' Varchar None, required ''email'' Varchar None,
        required ''password_changed_at'' Timestamptz (Some Default_zero_time),
        required ''created_at'' Timestamptz (Some Default_now)],
      table_constraints = [(''users_pkey'', Primary_key [''username'']), (''users_email_key'', Unique [''email''])],
      table_indexes = [], table_comments = [], table_rows = rs\<rparr>"

definition sessions_table :: "row list \<Rightarrow> table" where
  "sessions_table rs =
     \<lparr>table_name = ''sessions'',
      table_columns = [required ''id'' Uuid None, required ''username'' Varchar None,
        required ''refresh_token'' Varchar None, required ''user_agent'' Varchar None,
        required ''client_ip'' Varchar None, required ''is_blocked'' Boolean (Some Default_false),
        required ''expires_at'' Timestamptz None, required ''created_at'' Timestamptz (Some Default_now)],
      table_constraints = [(''sessions_pkey'', Primary_key [''id'']),
        (''sessions_username_fkey'', Foreign_key ''username'' ''users'' ''username'')],
      table_indexes = [], table_comments = [], table_rows = rs\<rparr>"

definition keys_table :: "row list \<Rightarrow> table" where
  "keys_table rs =
     \<lparr>table_name = ''idempotency_keys'',
      table_columns = [required ''owner'' Varchar None, required ''key'' Varchar None,
        required ''request_hash'' Varchar None, required ''response_body'' Text (Some Default_empty),
        required ''created_at'' Timestamptz (Some Default_now)],
      table_constraints = [(''idempotency_keys_pkey'', Primary_key [''owner'', ''key''])],
      table_indexes = [], table_comments = [], table_rows = rs\<rparr>"

definition tables :: "nat \<Rightarrow> (string \<Rightarrow> row list) \<Rightarrow> schema" where
  "tables n f =
     (if n < 1 then [] else [accounts_table n (f ''accounts''), entries_table (f ''entries''),
        transfers_table (f ''transfers'')]) @
     (if n < 2 then [] else [users_table (f ''users'')]) @
     (if n < 3 then [] else [sessions_table (f ''sessions'')]) @
     (if n < 5 then [] else [keys_table (f ''idempotency_keys'')])"

lemmas tables_defs = tables_def accounts_table_def entries_table_def transfers_table_def users_table_def
  sessions_table_def keys_table_def

lemmas files = init_schema_up_def init_schema_down_def add_users_up_def add_users_down_def add_sessions_up_def
  add_sessions_down_def add_balance_check_up_def add_balance_check_down_def add_idempotency_keys_up_def
  add_idempotency_keys_down_def

lemmas executed = exec_ddl_def on_table_def constraint_name_def column_names_def references_key_def required_def
  constraint_holds_def referenced_def Let_def

text \<open>Other rows in the tables of a schema.\<close>

definition fill :: "(string \<Rightarrow> row list) \<Rightarrow> schema \<Rightarrow> schema" where
  "fill f s = map (\<lambda>T. T\<lparr>table_rows := f (table_name T)\<rparr>) s"

lemma fill_tables [simp]: "fill f (tables n g) = tables n f"
  by (simp add: fill_def tables_defs)

lemma version_tables: "list_all (\<lambda>n. schema_version n = Inr (tables n (\<lambda>_. []))) [0, 1, 2, 3, 4, 5]"
  by code_simp

section \<open>The constraints of Schema are those of the migrations\<close>

text \<open>The rows of the model's tables.\<close>

definition user_row :: "User \<Rightarrow> row" where
  "user_row u = [(''username'', Text_value (User_Username u)),
     (''hashed_password'', Text_value (User_HashedPassword u)), (''full_name'', Text_value (User_FullName u)),
     (''email'', Text_value (User_Email u)), (''password_changed_at'', Time_value (User_PasswordChangedAt u)),
     (''created_at'', Time_value (User_CreatedAt u))]"

definition account_row :: "Account \<Rightarrow> row" where
  "account_row a = [(''id'', Int_value (sint (Account_ID a))), (''owner'', Text_value (Account_Owner a)),
     (''balance'', Int_value (sint (Account_Balance a))), (''currency'', Text_value (Account_Currency a)),
     (''created_at'', Time_value (Account_CreatedAt a))]"

definition entry_row :: "Entry \<Rightarrow> row" where
  "entry_row e = [(''id'', Int_value (sint (Entry_ID e))),
     (''account_id'', Int_value (sint (Entry_AccountID e))), (''amount'', Int_value (sint (Entry_Amount e))),
     (''created_at'', Time_value (Entry_CreatedAt e))]"

definition transfer_row :: "Transfer \<Rightarrow> row" where
  "transfer_row t = [(''id'', Int_value (sint (Transfer_ID t))),
     (''from_account_id'', Int_value (sint (Transfer_FromAccountID t))),
     (''to_account_id'', Int_value (sint (Transfer_ToAccountID t))),
     (''amount'', Int_value (sint (Transfer_Amount t))), (''created_at'', Time_value (Transfer_CreatedAt t))]"

definition session_row :: "Session \<Rightarrow> row" where
  "session_row s = [(''id'', Uuid_value (Session_ID s)), (''username'', Text_value (Session_Username s)),
     (''refresh_token'', Text_value (Session_RefreshToken s)), (''user_agent'', Text_value (Session_UserAgent s)),
     (''client_ip'', Text_value (Session_ClientIp s)), (''is_blocked'', Bool_value (Session_IsBlocked s)),
     (''expires_at'', Time_value (Session_ExpiresAt s)), (''created_at'', Time_value (Session_CreatedAt s))]"

definition key_row :: "IdempotencyKey \<Rightarrow> row" where
  "key_row k = [(''owner'', Text_value (IdempotencyKey_Owner k)), (''key'', Text_value (IdempotencyKey_Key k)),
     (''request_hash'', Text_value (IdempotencyKey_RequestHash k)),
     (''response_body'', Text_value (IdempotencyKey_ResponseBody k)),
     (''created_at'', Time_value (IdempotencyKey_CreatedAt k))]"

definition rows_of :: "database \<Rightarrow> string \<Rightarrow> row list" where
  "rows_of d t =
     (if t = ''users'' then map user_row (users d)
      else if t = ''accounts'' then map account_row (accounts d)
      else if t = ''entries'' then map entry_row (entries d)
      else if t = ''transfers'' then map transfer_row (transfers d)
      else if t = ''sessions'' then map session_row (sessions d)
      else if t = ''idempotency_keys'' then map key_row (idempotency_keys d)
      else [])"

text \<open>The ids come from the sequences of the \<open>bigserial\<close> columns.\<close>

definition ids_from_sequences :: "database \<Rightarrow> bool" where
  "ids_from_sequences d \<longleftrightarrow>
     list_all (\<lambda>a. 1 \<le> sint (Account_ID a) \<and> sint (Account_ID a) \<le> int (account_seq d)) (accounts d) \<and>
     list_all (\<lambda>e. 1 \<le> sint (Entry_ID e) \<and> sint (Entry_ID e) \<le> int (entry_seq d)) (entries d) \<and>
     list_all (\<lambda>t. 1 \<le> sint (Transfer_ID t) \<and> sint (Transfer_ID t) \<le> int (transfer_seq d)) (transfers d)"

lemma distinct_map_inj: "(\<And>x y. g x = g y \<longleftrightarrow> h x = h y) \<Longrightarrow> distinct (map g xs) \<longleftrightarrow> distinct (map h xs)"
  by (induction xs) (auto simp: image_iff)

lemma unique_map: "(\<And>x. P (g x)) \<Longrightarrow> filter P (map g xs) = map g xs"
  by (induction xs) auto

lemma in_int64_sint [simp]: "in_int64 (sint (x :: int64))"
  using sint_range_size [of x] by (simp add: in_int64_def word_size)

declare sint64_inj [simp]

text \<open>Table by table.\<close>

lemma users_table_ok: "table_ok s (users_table (map user_row us)) \<longleftrightarrow>
    distinct (map User_Username us) \<and> distinct (map User_Email us)"
  using distinct_map_inj [of "\<lambda>u. [Text_value (User_Username u)]" User_Username us]
    distinct_map_inj [of "\<lambda>u. [Text_value (User_Email u)]" User_Email us]
  by (simp add: table_ok_def users_table_def required_def constraint_holds_def field_def user_row_def comp_def
      unique_map)

lemma accounts_table_ok:
  assumes "lookup table_name ''users'' s = Some (users_table (map user_row us))"
  shows "table_ok s (accounts_table 5 (map account_row as)) \<longleftrightarrow>
    distinct (map Account_ID as) \<and> distinct (map (\<lambda>a. (Account_Owner a, Account_Currency a)) as) \<and>
    (\<forall>a \<in> set as. 0 \<le> sint (Account_Balance a) \<and> Account_Owner a \<in> User_Username ` set us)"
  using assms distinct_map_inj [of "\<lambda>a. [Int_value (sint (Account_ID a))]" Account_ID as]
    distinct_map_inj [of "\<lambda>a. [Text_value (Account_Owner a), Text_value (Account_Currency a)]"
      "\<lambda>a. (Account_Owner a, Account_Currency a)" as]
  by (auto simp: table_ok_def accounts_table_def users_table_def required_def constraint_holds_def field_def account_row_def
      user_row_def comp_def unique_map)

lemma entries_table_ok:
  assumes "lookup table_name ''accounts'' s = Some (accounts_table 5 (map account_row as))"
  shows "table_ok s (entries_table (map entry_row es)) \<longleftrightarrow>
    distinct (map Entry_ID es) \<and> (\<forall>e \<in> set es. Entry_AccountID e \<in> Account_ID ` set as)"
  using assms distinct_map_inj [of "\<lambda>e. [Int_value (sint (Entry_ID e))]" Entry_ID es]
  by (auto simp: table_ok_def accounts_table_def entries_table_def required_def constraint_holds_def field_def account_row_def
      entry_row_def comp_def)

lemma transfers_table_ok:
  assumes "lookup table_name ''accounts'' s = Some (accounts_table 5 (map account_row as))"
  shows "table_ok s (transfers_table (map transfer_row ts)) \<longleftrightarrow>
    distinct (map Transfer_ID ts) \<and> (\<forall>t \<in> set ts.
      Transfer_FromAccountID t \<in> Account_ID ` set as \<and> Transfer_ToAccountID t \<in> Account_ID ` set as)"
  using assms distinct_map_inj [of "\<lambda>t. [Int_value (sint (Transfer_ID t))]" Transfer_ID ts]
  by (auto simp: table_ok_def accounts_table_def transfers_table_def required_def constraint_holds_def field_def account_row_def
      transfer_row_def comp_def)

lemma sessions_table_ok:
  assumes "lookup table_name ''users'' s = Some (users_table (map user_row us))"
  shows "table_ok s (sessions_table (map session_row ss)) \<longleftrightarrow>
    distinct (map Session_ID ss) \<and> (\<forall>r \<in> set ss. Session_Username r \<in> User_Username ` set us)"
  using assms distinct_map_inj [of "\<lambda>r. [Uuid_value (Session_ID r)]" Session_ID ss]
  by (auto simp: table_ok_def users_table_def sessions_table_def required_def constraint_holds_def field_def user_row_def
      session_row_def comp_def)

lemma keys_table_ok: "table_ok s (keys_table (map key_row ks)) \<longleftrightarrow> distinct (map key_of ks)"
  using distinct_map_inj [of "\<lambda>k. [Text_value (IdempotencyKey_Owner k), Text_value (IdempotencyKey_Key k)]" key_of ks]
  by (simp add: table_ok_def keys_table_def required_def constraint_holds_def field_def key_row_def key_of_def comp_def)

text \<open>
  C16: The invariant \<open>db_ok\<close> is what the migrations say: they run through on an empty database,
  and the tables satisfy the types and constraints of the schema they leave exactly if \<open>db_ok\<close>
  holds, except for what it says of the sequences behind the ids.
\<close>

theorem constraints_are_the_migrations:
  "\<exists>s. schema_version 5 = Inr s \<and>
     (\<forall>d. db_ok d \<longleftrightarrow> schema_ok (fill (rows_of d) s) \<and> ids_from_sequences d)"
proof -
  have "schema_version 5 = Inr (tables 5 (\<lambda>_. []))" using version_tables by simp
  moreover have "db_ok d \<longleftrightarrow> schema_ok (tables 5 (rows_of d)) \<and> ids_from_sequences d" for d
  proof -
    let ?s = "tables 5 (rows_of d)"
    have s: "lookup table_name ''users'' ?s = Some (users_table (map user_row (users d)))"
      "lookup table_name ''accounts'' ?s = Some (accounts_table 5 (map account_row (accounts d)))"
      by (simp_all add: tables_defs rows_of_def)
    have "schema_ok ?s \<longleftrightarrow> table_ok ?s (accounts_table 5 (map account_row (accounts d))) \<and>
        table_ok ?s (entries_table (map entry_row (entries d))) \<and>
        table_ok ?s (transfers_table (map transfer_row (transfers d))) \<and>
        table_ok ?s (users_table (map user_row (users d))) \<and>
        table_ok ?s (sessions_table (map session_row (sessions d))) \<and>
        table_ok ?s (keys_table (map key_row (idempotency_keys d)))"
      by (simp add: schema_ok_def tables_def rows_of_def)
    then show ?thesis
      unfolding accounts_table_ok [OF s(1)] entries_table_ok [OF s(2)] transfers_table_ok [OF s(2)] users_table_ok
        sessions_table_ok [OF s(1)] keys_table_ok
      by (auto simp: ok_defs ids_from_sequences_def list_all_iff)
  qed
  ultimately show ?thesis by simp
qed

section \<open>Up and down\<close>

text \<open>
  C17: Every down migration undoes its up migration, whatever rows the tables hold by then: it
  succeeds, leaves the schema of the version before, indexes and comments included, and keeps
  the rows of the tables that stay.
\<close>

theorem migrations_down_undo_up:
  assumes "n < length migrations"
  shows "\<exists>s s'. schema_version n = Inr s \<and> schema_version (Suc n) = Inr s' \<and>
    (\<forall>f. run_ddl (snd (migrations ! n)) (fill f s') = Inr (fill f s))"
proof -
  from assms consider "n = 0" | "n = 1" | "n = 2" | "n = 3" | "n = 4"
    by (auto simp: migrations_def less_Suc_eq numeral_eq_Suc)
  then have "schema_version n = Inr (tables n (\<lambda>_. [])) \<and> schema_version (Suc n) = Inr (tables (Suc n) (\<lambda>_. [])) \<and>
      run_ddl (snd (migrations ! n)) (tables (Suc n) f) = Inr (tables n f)" for f
    by cases (use version_tables in \<open>simp_all add: eval_nat_numeral\<close>,
      simp_all add: migrations_def files executed tables_defs)
  then show ?thesis by auto
qed

theorem migrations_down_undo_up_witness:
  "run_ddl add_users_down (tables 2 (\<lambda>t. if t = ''accounts'' then [account_row (example_account 1 ''ann'' 100)] else []))
     = Inr (tables 1 (\<lambda>t. if t = ''accounts'' then [account_row (example_account 1 ''ann'' 100)] else []))"
proof -
  have "schema_version 1 = Inr (tables 1 (\<lambda>_. []))" "schema_version (Suc 1) = Inr (tables 2 (\<lambda>_. []))"
    using version_tables by (simp_all add: eval_nat_numeral)
  with migrations_down_undo_up [of 1] show ?thesis by (simp add: migrations_def)
qed

text \<open>
  Whether an up migration succeeds on rows depends on two of them: the one that gives accounts an
  owner among the users, none of which exist yet, and the check of the balances.
\<close>

definition data_allows :: "nat \<Rightarrow> (string \<Rightarrow> row list) \<Rightarrow> bool" where
  "data_allows n f \<longleftrightarrow> (n = 1 \<longrightarrow> f ''accounts'' = []) \<and>
     (n = 3 \<longrightarrow> list_all (\<lambda>r. case field ''balance'' r of Int_value i \<Rightarrow> 0 \<le> i | _ \<Rightarrow> True) (f ''accounts''))"

lemma owners_required:
  "schema_ok (tables 1 f) \<Longrightarrow> r \<in> set (f ''accounts'') \<Longrightarrow> field ''owner'' r \<noteq> Null"
  by (auto simp: schema_ok_def tables_def table_ok_def accounts_table_def required_def)

lemma up_tables:
  assumes "n < 5" and "schema_ok (tables n f)"
  shows "if data_allows n f
     then run_ddl (fst (migrations ! n)) (tables n f) =
       Inr (tables (Suc n) (\<lambda>t. if lookup table_name t (tables n f) = None then [] else f t))
     else isl (run_ddl (fst (migrations ! n)) (tables n f))"
proof -
  from assms(1) consider "n = 0" | "n = 1" | "n = 2" | "n = 3" | "n = 4" by linarith
  then show ?thesis
  proof cases
    case 2
    show ?thesis
    proof (cases "f ''accounts'' = []")
      case True
      with 2 show ?thesis by (simp add: data_allows_def migrations_def files executed tables_defs)
    next
      case False
      then obtain r where "r \<in> set (f ''accounts'')" by (cases "f ''accounts''") auto
      with assms(2) owners_required 2 have "\<exists>r \<in> set (f ''accounts''). field ''owner'' r \<noteq> Null" by auto
      with 2 False show ?thesis
        by (simp add: data_allows_def migrations_def files executed tables_defs)
    qed
  qed (simp_all add: data_allows_def migrations_def files executed tables_defs list_all_iff)
qed

text \<open>
  C18: An up migration keeps the rows of all tables and leaves the new ones empty, or it fails. It
  fails in two cases only: the users cannot be added while there are accounts, nor the
  balance check while one is overdrawn. What a failed migration leaves is not stated.
\<close>

theorem migrations_up_on_data:
  assumes "n < length migrations" and "schema_version n = Inr s" and "schema_ok (fill f s)"
  shows "\<exists>s'. schema_version (Suc n) = Inr s' \<and>
    (if data_allows n f
     then run_ddl (fst (migrations ! n)) (fill f s) =
       Inr (fill (\<lambda>t. if lookup table_name t s = None then [] else f t) s')
     else isl (run_ddl (fst (migrations ! n)) (fill f s)))"
proof -
  have n: "n < 5" using assms(1) by (simp add: migrations_def)
  then have "n \<in> set [0, 1, 2, 3, 4, 5]" "Suc n \<in> set [0, 1, 2, 3, 4, 5]" by auto
  with version_tables have v: "schema_version n = Inr (tables n (\<lambda>_. []))"
    "schema_version (Suc n) = Inr (tables (Suc n) (\<lambda>_. []))"
    unfolding list_all_iff by blast+
  then have s: "s = tables n (\<lambda>_. [])" using assms(2) by simp
  have "lookup table_name t (tables n g) = None \<longleftrightarrow> lookup table_name t (tables n h) = None" for t g h
    by (auto simp: tables_defs)
  then have "(\<lambda>t. if lookup table_name t (tables n f) = None then [] else f t) =
      (\<lambda>t. if lookup table_name t s = None then [] else f t)"
    unfolding s by metis
  with up_tables [OF n, of f] assms(3) v show ?thesis unfolding s by simp
qed

theorem migrations_up_on_data_witness:
  "isl (run_ddl add_users_up (fill (\<lambda>t. if t = ''accounts'' then
       [account_row (example_account 1 ''ann'' 100)] else []) (tables 1 (\<lambda>_. []))))"
proof -
  let ?f = "\<lambda>t. if t = ''accounts'' then [account_row (example_account 1 ''ann'' 100)] else []"
  have "schema_version 1 = Inr (tables 1 (\<lambda>_. []))" using version_tables by simp
  moreover have "schema_ok (fill ?f (tables 1 (\<lambda>_. [])))"
    unfolding fill_tables
    by (simp add: schema_ok_def tables_defs table_ok_def required_def constraint_holds_def field_def
        account_row_def example_account_def in_int64_def)
  ultimately show ?thesis
    using migrations_up_on_data [of 1 "tables 1 (\<lambda>_. [])" ?f]
    by (simp add: migrations_def data_allows_def)
qed

end
