(* ===== verification/Rpc_Wire.thy ===== *)
theory Rpc_Wire
  imports Gateway
begin

text \<open>
  The rest of \<open>pb/service_bank_grpc.pb.go\<close>, the client stubs and the description of the
  service that a server registers, and the functions of the gateway that make a client for an
  endpoint. The gRPC library in between (its connection, its codec, its table of services) is a
  parameter, and what it documents is the hypothesis \<open>connected\<close>; under it, a call of a stub is a
  call of the service, or fails in transport before or after the service has run.
\<close>

section \<open>Client stubs\<close>

text \<open>
  \<open>ClientConnInterface\<close>: \<open>Invoke\<close> with the name of the method, the message, and the type of the
  answer, of which there are two.
\<close>

record ClientConn =
  Invoke_User :: "Context \<Rightarrow> string \<Rightarrow> rpc_request \<Rightarrow> pbUser rpc"
  Invoke_Login :: "Context \<Rightarrow> string \<Rightarrow> rpc_request \<Rightarrow> LoginUserResponse rpc"

definition bankClient_CreateUser :: "ClientConn \<Rightarrow> Context \<Rightarrow> CreateUserRequest \<Rightarrow> pbUser rpc" where
  "bankClient_CreateUser cc ctx inp =
     try_do (Invoke_User cc ctx Bank_CreateUser_FullMethodName (RpcCreateUser inp)) (\<lambda>out. ret (Inr out))"

definition bankClient_UpdateUser :: "ClientConn \<Rightarrow> Context \<Rightarrow> UpdateUserRequest \<Rightarrow> pbUser rpc" where
  "bankClient_UpdateUser cc ctx inp =
     try_do (Invoke_User cc ctx Bank_UpdateUser_FullMethodName (RpcUpdateUser inp)) (\<lambda>out. ret (Inr out))"

definition bankClient_LoginUser :: "ClientConn \<Rightarrow> Context \<Rightarrow> LoginUserRequest \<Rightarrow> LoginUserResponse rpc" where
  "bankClient_LoginUser cc ctx inp =
     try_do (Invoke_Login cc ctx Bank_LoginUser_FullMethodName (RpcLoginUser inp)) (\<lambda>out. ret (Inr out))"

definition NewBankClient :: "ClientConn \<Rightarrow> Bank" where
  "NewBankClient cc =
     \<lparr>Bank_CreateUser = bankClient_CreateUser cc, Bank_UpdateUser = bankClient_UpdateUser cc,
      Bank_LoginUser = bankClient_LoginUser cc\<rparr>"

section \<open>The description of the service\<close>

text \<open>
  What a method of the description gets: the context, the bytes of the message with a
  decoder for each type, and the interceptor, at the two types of answers.
\<close>

record 'b codec =
  Marshal :: "rpc_request \<Rightarrow> 'b"
  Unmarshal_CreateUserRequest :: "'b \<Rightarrow> status_error + CreateUserRequest"
  Unmarshal_UpdateUserRequest :: "'b \<Rightarrow> status_error + UpdateUserRequest"
  Unmarshal_LoginUserRequest :: "'b \<Rightarrow> status_error + LoginUserRequest"
  Marshal_reply :: "rpc_reply \<Rightarrow> 'b"
  Unmarshal_User :: "'b \<Rightarrow> status_error + pbUser"
  Unmarshal_LoginUserResponse :: "'b \<Rightarrow> status_error + LoginUserResponse"

record UnaryServerInterceptor =
  intercept_User :: "pbUser interceptor"
  intercept_Login :: "LoginUserResponse interceptor"

type_synonym 'b method_impl =
  "'b codec \<Rightarrow> Bank \<Rightarrow> Context \<Rightarrow> 'b \<Rightarrow> UnaryServerInterceptor option \<Rightarrow> rpc_reply rpc"

record 'b MethodDesc =
  MethodName :: string
  Handler :: "'b method_impl"

record 'b ServiceDesc =
  ServiceName :: string
  Methods :: "'b MethodDesc list"
  Metadata_file :: string

definition as_reply :: "('m \<Rightarrow> rpc_reply) \<Rightarrow> 'm rpc \<Rightarrow> rpc_reply rpc" where
  "as_reply f m = try_do m (\<lambda>x. ret (Inr (f x)))"

definition Bank_ServiceDesc :: "'b ServiceDesc" where
  "Bank_ServiceDesc =
     \<lparr>ServiceName = ''pb.Bank'',
      Methods =
        [\<lparr>MethodName = ''CreateUser'',
          Handler = (\<lambda>C srv ctx b icpt. as_reply UserReply
            (Bank_CreateUser_Handler srv ctx (Unmarshal_CreateUserRequest C b) (map_option intercept_User icpt)))\<rparr>,
         \<lparr>MethodName = ''UpdateUser'',
          Handler = (\<lambda>C srv ctx b icpt. as_reply UserReply
            (Bank_UpdateUser_Handler srv ctx (Unmarshal_UpdateUserRequest C b) (map_option intercept_User icpt)))\<rparr>,
         \<lparr>MethodName = ''LoginUser'',
          Handler = (\<lambda>C srv ctx b icpt. as_reply LoginReply
            (Bank_LoginUser_Handler srv ctx (Unmarshal_LoginUserRequest C b) (map_option intercept_Login icpt)))\<rparr>],
      Metadata_file = ''service_bank.proto''\<rparr>"

text \<open>The services of a gRPC server, by their names.\<close>

type_synonym 'b registrar = "('b ServiceDesc \<times> Bank) list"

definition RegisterBankServer :: "'b registrar \<Rightarrow> Bank \<Rightarrow> 'b registrar" where
  "RegisterBankServer s srv = s @ [(Bank_ServiceDesc, srv)]"

text \<open>Methods a server does not have itself are those of the embedded struct.\<close>

definition unimplemented :: "string \<Rightarrow> 'm rpc" where
  "unimplemented name =
     ret (Inl (status_Errorf CodeUnimplemented (Errorf (''method '' @ name @ '' not implemented''))))"

definition UnimplementedBankServer :: Bank where
  "UnimplementedBankServer =
     \<lparr>Bank_CreateUser = (\<lambda>_ _. unimplemented ''CreateUser''),
      Bank_UpdateUser = (\<lambda>_ _. unimplemented ''UpdateUser''),
      Bank_LoginUser = (\<lambda>_ _. unimplemented ''LoginUser'')\<rparr>"

lemma bank_server_overrides:
  "bank_server E s = UnimplementedBankServer\<lparr>Bank_CreateUser := \<lambda>_. rpc_CreateUser E,
     Bank_UpdateUser := rpc_UpdateUser E s, Bank_LoginUser := rpc_LoginUser E s\<rparr>"
  by (simp add: bank_server_def UnimplementedBankServer_def)

section \<open>Clients of an endpoint\<close>

definition RegisterBankHandler ::
    "gateway_runtime \<Rightarrow> ClientConn \<Rightarrow> error option \<times> (gateway_request \<Rightarrow> gateway_reply op)" where
  "RegisterBankHandler G conn = (None, RegisterBankHandlerClient G (NewBankClient conn))"

datatype conn_fate = No_client | Closed_at_once | Closed_when_done

text \<open>
  With the error it returns, the handlers the mux has afterwards, and when the connection is closed.
  \<open>grpc.NewClient\<close> does not connect: it fails only on an endpoint or options it cannot use.
\<close>

definition RegisterBankHandlerFromEndpoint ::
    "gateway_runtime \<Rightarrow> (string \<Rightarrow> error + ClientConn) \<Rightarrow> string \<Rightarrow>
     error option \<times> (gateway_request \<Rightarrow> gateway_reply op) \<times> conn_fate" where
  "RegisterBankHandlerFromEndpoint G grpc_NewClient endpoint =
     (case grpc_NewClient endpoint of
        Inl err \<Rightarrow> (Some err, \<lambda>_. ret GwNotRouted, No_client)
      | Inr conn \<Rightarrow>
          (case RegisterBankHandler G conn of (err, handler) \<Rightarrow>
             (err, handler, if err \<noteq> None then Closed_at_once else Closed_when_done)))"

section \<open>A connection to a server\<close>

text \<open>
  What becomes of a call on a connection. It may fail on its way to the server (no connection,
  a message over the limits, a deadline that has passed), or on the way back, when the method has run;
  the client is told a status that is not the method's.
\<close>

datatype call_fate = Delivered | Not_sent status_error | Answer_lost status_error

definition on_wire :: "(world \<Rightarrow> call_fate) \<Rightarrow> 'm rpc \<Rightarrow> 'm rpc" where
  "on_wire fate m = State (\<lambda>w. case fate w of
     Delivered \<Rightarrow> run m w
   | Not_sent err \<Rightarrow> (Inl err, w)
   | Answer_lost err \<Rightarrow> (Inl err, snd (run m w)))"

lemma run_on_wire:
  "run (on_wire fate m) w = (case fate w of
     Delivered \<Rightarrow> run m w
   | Not_sent err \<Rightarrow> (Inl err, w)
   | Answer_lost err \<Rightarrow> (Inl err, snd (run m w)))"
  by (simp add: on_wire_def)

text \<open>
  What gRPC documents: \<open>Invoke\<close> of \<open>/service/method\<close> runs that method of the registered service
  on the encoded message, in the context as it arrives, with the server's interceptor, and
  decodes the answer, unless the call fails in transport, which the code has no say in; what the
  codec encodes it decodes.
\<close>

definition received :: "(rpc_reply \<Rightarrow> status_error + 'm) \<Rightarrow> rpc_reply rpc \<Rightarrow> 'm rpc" where
  "received dec m = try_do m (\<lambda>x. ret (dec x))"

type_synonym fates = "Context \<Rightarrow> string \<Rightarrow> rpc_request \<Rightarrow> world \<Rightarrow> call_fate"

definition connected ::
    "'b codec \<Rightarrow> (Context \<Rightarrow> Context) \<Rightarrow> fates \<Rightarrow> UnaryServerInterceptor option \<Rightarrow> 'b registrar \<Rightarrow>
     ClientConn \<Rightarrow> bool" where
  "connected C arrive fate icpt s cc \<longleftrightarrow>
     (\<forall>(desc, srv) \<in> set s. \<forall>M \<in> set (Methods desc). \<forall>ctx msg.
        let name = CHR ''/'' # ServiceName desc @ CHR ''/'' # MethodName M;
            reply = Handler M C srv (arrive ctx) (Marshal C msg) icpt in
        Invoke_User cc ctx name msg =
          on_wire (fate ctx name msg) (received (\<lambda>x. Unmarshal_User C (Marshal_reply C x)) reply) \<and>
        Invoke_Login cc ctx name msg =
          on_wire (fate ctx name msg) (received (\<lambda>x. Unmarshal_LoginUserResponse C (Marshal_reply C x)) reply))"

definition codec_ok :: "'b codec \<Rightarrow> bool" where
  "codec_ok C \<longleftrightarrow>
     (\<forall>m. Unmarshal_CreateUserRequest C (Marshal C (RpcCreateUser m)) = Inr m) \<and>
     (\<forall>m. Unmarshal_UpdateUserRequest C (Marshal C (RpcUpdateUser m)) = Inr m) \<and>
     (\<forall>m. Unmarshal_LoginUserRequest C (Marshal C (RpcLoginUser m)) = Inr m) \<and>
     (\<forall>u. Unmarshal_User C (Marshal_reply C (UserReply u)) = Inr u) \<and>
     (\<forall>l. Unmarshal_LoginUserResponse C (Marshal_reply C (LoginReply l)) = Inr l)"

text \<open>The interceptor of the program.\<close>

definition grpc_logger :: "env \<Rightarrow> UnaryServerInterceptor" where
  "grpc_logger E = \<lparr>intercept_User = logged E, intercept_Login = logged E\<rparr>"

lemma try_do_ret [simp]: "try_do m (\<lambda>x. ret (Inr x)) = m"
  by (rule state.expand, rule ext) (simp add: run_try_do split: prod.split sum.split)

lemma received_as_reply:
  "(\<And>x. dec (f x) = Inr x) \<Longrightarrow> received dec (as_reply f m) = m"
  by (rule state.expand, rule ext)
    (simp add: received_def as_reply_def run_try_do split: prod.split sum.split)

text \<open>Through a connection, a stub is the method of the server within its interceptor, on the wire.\<close>

lemma connected_methods:
  assumes "connected C arrive fate icpt (RegisterBankServer s srv) cc" and "codec_ok C"
  shows "bankClient_CreateUser cc ctx cu = on_wire (fate ctx ''/pb.Bank/CreateUser'' (RpcCreateUser cu))
      (Bank_CreateUser_Handler srv (arrive ctx) (Inr cu) (map_option intercept_User icpt))"
    and "bankClient_UpdateUser cc ctx uu = on_wire (fate ctx ''/pb.Bank/UpdateUser'' (RpcUpdateUser uu))
      (Bank_UpdateUser_Handler srv (arrive ctx) (Inr uu) (map_option intercept_User icpt))"
    and "bankClient_LoginUser cc ctx lu = on_wire (fate ctx ''/pb.Bank/LoginUser'' (RpcLoginUser lu))
      (Bank_LoginUser_Handler srv (arrive ctx) (Inr lu) (map_option intercept_Login icpt))"
  using assms
  by (simp_all add: connected_def RegisterBankServer_def Bank_ServiceDesc_def Let_def codec_ok_def received_as_reply
      bankClient_CreateUser_def bankClient_UpdateUser_def bankClient_LoginUser_def
      Bank_CreateUser_FullMethodName_def Bank_UpdateUser_FullMethodName_def Bank_LoginUser_FullMethodName_def)

text \<open>The logger does not change an answer.\<close>

lemma run_logged:
  "run (logged E name m) w = (case run m (w\<lparr>tick := Suc (tick w)\<rparr>) of (r, w') \<Rightarrow> (r, w'\<lparr>tick := Suc (tick w')\<rparr>))"
  by (simp add: logged_def GrpcLogger_def Let_def run_time_Now split: prod.split)

text \<open>
  What a remote call is answered: the answer of the method within the server's logger, or the status of
  the transport, with the world as it was or as the method has left it.
\<close>

definition remote_call :: "env \<Rightarrow> Server \<Rightarrow> string \<Rightarrow> Context \<Rightarrow> rpc_request \<Rightarrow> call_fate \<Rightarrow> world \<Rightarrow> gateway_reply \<times> world"
where
  "remote_call E s name ctx msg fate w =
     (case (fate, run (logged E name (serve_rpc E s ctx msg)) w) of
        (Not_sent err, _) \<Rightarrow> (GwError err, w)
      | (Answer_lost err, (_, w')) \<Rightarrow> (GwError err, w')
      | (Delivered, (Inl err, w')) \<Rightarrow> (GwError err, w')
      | (Delivered, (Inr m, w')) \<Rightarrow> (GwMessage m, w'))"

definition remote_answer ::
    "env \<Rightarrow> Server \<Rightarrow> (Context \<Rightarrow> Context) \<Rightarrow> fates \<Rightarrow> string \<Rightarrow> status_error + Context \<Rightarrow>
     status_error + rpc_request \<Rightarrow> world \<Rightarrow> gateway_reply \<times> world" where
  "remote_answer E s arrive fate name ctx msg w =
     (case (ctx, msg) of
        (Inl err, _) \<Rightarrow> (GwError err, w)
      | (Inr _, Inl err) \<Rightarrow> (GwError err, w)
      | (Inr c, Inr r) \<Rightarrow> remote_call E s name (arrive c) r (fate c name r w) w)"

lemma run_remote_handler:
  assumes "\<And>ctx. call ctx req =
      decode_into zero d (\<lambda>m. on_wire (fate ctx name (rpc m)) (logged E name (meth (arrive ctx) m)))"
    and "\<And>ctx m. serve_rpc E s ctx (rpc m) = try_do (meth ctx m) (\<lambda>x. ret (Inr (fwd x)))"
  shows "run (gateway_handler annotate name call fwd req) w =
    remote_answer E s arrive fate name (annotate req name) (message zero d rpc) w"
  by (cases d) (auto simp: gateway_handler_def assms decode_into_def message_def run_try_do run_logged run_on_wire
      remote_answer_def remote_call_def split: sum.splits prod.splits call_fate.splits)

text \<open>
  C32: The gateway whose client is connected to the gRPC server is the gRPC service over a network: a
  request on one of the three routes is the call of that method on the server, in the context as it
  arrives and within the server's logger, and is answered with the method's message or status; or
  the call fails in transport, and the answer is the status of that, with nothing done on the server
  or with the method run once. Nothing else is served. The connection is closed when the context is
  done; if no client can be made for the endpoint, the error is returned and nothing is served.
\<close>

theorem remote_gateway_is_the_service:
  assumes "connected C arrive fate (Some (grpc_logger E)) (RegisterBankServer reg (bank_server E s)) cc" and "codec_ok C"
  shows "\<exists>h. RegisterBankHandlerFromEndpoint G new_client endpoint =
      (case new_client endpoint of
         Inl err \<Rightarrow> (Some err, \<lambda>_. ret GwNotRouted, No_client)
       | Inr conn \<Rightarrow> (None, h conn, Closed_when_done)) \<and>
    (\<forall>req w. run (h cc req) w =
      (case gateway_route G req of
         None \<Rightarrow> (GwNotRouted, w)
       | Some (name, msg) \<Rightarrow> remote_answer E s arrive fate name (AnnotateContext G req name) msg w))"
proof -
  let ?h = "\<lambda>conn. RegisterBankHandlerClient G (NewBankClient conn)"
  note stubs = connected_methods [OF assms]
  have stub: "Bank_CreateUser (NewBankClient cc) ctx cu =
      on_wire (fate ctx ''/pb.Bank/CreateUser'' (RpcCreateUser cu)) (logged E ''/pb.Bank/CreateUser'' (rpc_CreateUser E cu))"
    "Bank_UpdateUser (NewBankClient cc) ctx uu =
      on_wire (fate ctx ''/pb.Bank/UpdateUser'' (RpcUpdateUser uu)) (logged E ''/pb.Bank/UpdateUser'' (rpc_UpdateUser E s (arrive ctx) uu))"
    "Bank_LoginUser (NewBankClient cc) ctx lu =
      on_wire (fate ctx ''/pb.Bank/LoginUser'' (RpcLoginUser lu)) (logged E ''/pb.Bank/LoginUser'' (rpc_LoginUser E s (arrive ctx) lu))"
    for ctx cu uu lu
    by (simp_all add: NewBankClient_def stubs Bank_CreateUser_Handler_def Bank_UpdateUser_Handler_def
        Bank_LoginUser_Handler_def method_handler_def grpc_logger_def bank_server_def
        Bank_CreateUser_FullMethodName_def Bank_UpdateUser_FullMethodName_def Bank_LoginUser_FullMethodName_def)
  have "run (gateway_handler (AnnotateContext G) ''/pb.Bank/CreateUser''
      (\<lambda>ctx. request_Bank_CreateUser_0 G ctx (NewBankClient cc)) UserReply req) w =
      remote_answer E s arrive fate ''/pb.Bank/CreateUser'' (AnnotateContext G req ''/pb.Bank/CreateUser'')
        (message zero_CreateUserRequest (Decode_CreateUserRequest G (gw_Body req)) RpcCreateUser) w" for req w
    by (rule run_remote_handler [where meth = "\<lambda>ctx. rpc_CreateUser E"])
      (simp_all add: request_Bank_CreateUser_0_def stub serve_rpc_def)
  moreover have "run (gateway_handler (AnnotateContext G) ''/pb.Bank/UpdateUser''
      (\<lambda>ctx. request_Bank_UpdateUser_0 G ctx (NewBankClient cc)) UserReply req) w =
      remote_answer E s arrive fate ''/pb.Bank/UpdateUser'' (AnnotateContext G req ''/pb.Bank/UpdateUser'')
        (message zero_UpdateUserRequest (Decode_UpdateUserRequest G (gw_Body req)) RpcUpdateUser) w" for req w
    by (rule run_remote_handler [where meth = "rpc_UpdateUser E s"])
      (simp_all add: request_Bank_UpdateUser_0_def stub serve_rpc_def)
  moreover have "run (gateway_handler (AnnotateContext G) ''/pb.Bank/LoginUser''
      (\<lambda>ctx. request_Bank_LoginUser_0 G ctx (NewBankClient cc)) LoginReply req) w =
      remote_answer E s arrive fate ''/pb.Bank/LoginUser'' (AnnotateContext G req ''/pb.Bank/LoginUser'')
        (message zero_LoginUserRequest (Decode_LoginUserRequest G (gw_Body req)) RpcLoginUser) w" for req w
    by (rule run_remote_handler [where meth = "rpc_LoginUser E s"])
      (simp_all add: request_Bank_LoginUser_0_def stub serve_rpc_def)
  ultimately have "run (?h cc req) w = (case gateway_route G req of None \<Rightarrow> (GwNotRouted, w)
      | Some (name, msg) \<Rightarrow> remote_answer E s arrive fate name (AnnotateContext G req name) msg w)" for req w
    by (simp add: RegisterBankHandlerClient_def gateway_route_def zero_CreateUserRequest_def
        zero_UpdateUserRequest_def zero_LoginUserRequest_def)
  then show ?thesis
    by (intro exI [of _ ?h]) (simp add: RegisterBankHandlerFromEndpoint_def RegisterBankHandler_def split: sum.split)
qed

section \<open>An example\<close>

text \<open>
  A codec that does not encode, and a connection that loses the answer of every sign-in and does not
  send updates.
\<close>

definition example_codec :: "(rpc_request + rpc_reply) codec" where
  "example_codec =
     \<lparr>Marshal = Inl,
      Unmarshal_CreateUserRequest = (\<lambda>b. case b of Inl (RpcCreateUser m) \<Rightarrow> Inr m
        | _ \<Rightarrow> Inl (status_Errorf CodeInternal (OtherErr ''codec''))),
      Unmarshal_UpdateUserRequest = (\<lambda>b. case b of Inl (RpcUpdateUser m) \<Rightarrow> Inr m
        | _ \<Rightarrow> Inl (status_Errorf CodeInternal (OtherErr ''codec''))),
      Unmarshal_LoginUserRequest = (\<lambda>b. case b of Inl (RpcLoginUser m) \<Rightarrow> Inr m
        | _ \<Rightarrow> Inl (status_Errorf CodeInternal (OtherErr ''codec''))),
      Marshal_reply = Inr,
      Unmarshal_User = (\<lambda>b. case b of Inr (UserReply u) \<Rightarrow> Inr u
        | _ \<Rightarrow> Inl (status_Errorf CodeInternal (OtherErr ''codec''))),
      Unmarshal_LoginUserResponse = (\<lambda>b. case b of Inr (LoginReply l) \<Rightarrow> Inr l
        | _ \<Rightarrow> Inl (status_Errorf CodeInternal (OtherErr ''codec'')))\<rparr>"

definition example_dispatch :: "env \<Rightarrow> Server \<Rightarrow> Context \<Rightarrow> string \<Rightarrow> rpc_request \<Rightarrow> rpc_reply rpc" where
  "example_dispatch E s ctx name msg =
     (case List.find (\<lambda>M. name = ''/pb.Bank/'' @ MethodName M) (Methods Bank_ServiceDesc) of
        None \<Rightarrow> unimplemented name
      | Some M \<Rightarrow> Handler M example_codec (bank_server E s) ctx (Inl msg) (Some (grpc_logger E)))"

definition unavailable :: status_error where
  "unavailable = status_Errorf CodeUnavailable (OtherErr ''connection closed'')"

definition example_fates :: fates where
  "example_fates ctx name msg w = (case msg of
     RpcCreateUser _ \<Rightarrow> Delivered | RpcUpdateUser _ \<Rightarrow> Not_sent unavailable | RpcLoginUser _ \<Rightarrow> Answer_lost unavailable)"

definition example_conn :: "env \<Rightarrow> Server \<Rightarrow> ClientConn" where
  "example_conn E s =
     \<lparr>Invoke_User = (\<lambda>ctx name msg. on_wire (example_fates ctx name msg)
        (received (\<lambda>x. Unmarshal_User example_codec (Inr x)) (example_dispatch E s ctx name msg))),
      Invoke_Login = (\<lambda>ctx name msg. on_wire (example_fates ctx name msg)
        (received (\<lambda>x. Unmarshal_LoginUserResponse example_codec (Inr x)) (example_dispatch E s ctx name msg)))\<rparr>"

lemma example_connected:
  "codec_ok example_codec"
  "connected example_codec id example_fates (Some (grpc_logger E)) (RegisterBankServer [] (bank_server E s)) (example_conn E s)"
  by (simp_all add: codec_ok_def example_codec_def connected_def RegisterBankServer_def example_conn_def
      example_dispatch_def Bank_ServiceDesc_def Let_def)

theorem remote_gateway_is_the_service_witness:
  "\<exists>h st w. RegisterBankHandlerFromEndpoint example_gateway (\<lambda>_. Inr (example_conn example_env example_server)) ''h:1'' =
       (None, h, Closed_when_done) \<and>
     run (h (example_post ''/v1/create_user'')) start_world = (GwError st, w) \<and> status_code st = CodeInvalidArgument \<and>
     run (h ((example_post ''/v1/update_user'')\<lparr>gw_Method := ''PATCH''\<rparr>)) start_world = (GwError unavailable, start_world)"
proof -
  obtain h where h: "RegisterBankHandlerFromEndpoint example_gateway
      (\<lambda>_. Inr (example_conn example_env example_server)) ''h:1'' =
      (None, h (example_conn example_env example_server), Closed_when_done)"
    "\<And>req. run (h (example_conn example_env example_server) req) start_world =
      (case gateway_route example_gateway req of None \<Rightarrow> (GwNotRouted, start_world)
       | Some (name, msg) \<Rightarrow> remote_answer example_env example_server id example_fates name
           (AnnotateContext example_gateway req name) msg start_world)"
    using remote_gateway_is_the_service [OF example_connected(2,1), where G = example_gateway
        and new_client = "\<lambda>_. Inr (example_conn example_env example_server)" and endpoint = "''h:1''"
        and E = example_env and s = example_server] by auto
  have "validateCreateUserRequest example_env zero_CreateUserRequest \<noteq> []"
    using empty_signup_fields [of example_env] by auto
  then have "\<exists>st w. run (h (example_conn example_env example_server) (example_post ''/v1/create_user'')) start_world =
      (GwError st, w) \<and> status_code st = CodeInvalidArgument"
    unfolding h(2)
    by (simp add: gateway_route_def example_gateway_def example_post_def message_def remote_answer_def remote_call_def
        example_fates_def run_logged serve_rpc_def rpc_CreateUser_def Let_def invalidArgumentError_def run_try_do
        flip: zero_CreateUserRequest_def)
  moreover have "run (h (example_conn example_env example_server) ((example_post ''/v1/update_user'')\<lparr>gw_Method := ''PATCH''\<rparr>))
      start_world = (GwError unavailable, start_world)"
    unfolding h(2)
    by (simp add: gateway_route_def example_gateway_def example_post_def message_def remote_answer_def remote_call_def
        example_fates_def split: prod.split)
  ultimately show ?thesis using h(1) by blast
qed

end
