(* ===== verification/Spec2Isabelle.thy ===== *)
theory Spec2Isabelle
  imports Server_Races Server_End Concurrent_Sessions Sequential_Runs Deployment Random_Data Interfaces Migrations Rpc_Wire
begin

text \<open>
  A model of the banking server of this repository (module \<open>github.com/tywangq/banking-system\<close>)
  and the theorems that make it correct.

  \<^bold>\<open>The program.\<close> Users own accounts in one of three currencies and move money between accounts
  of the same currency. PostgreSQL holds the tables; \<open>db/sqlc\<close> has the queries and, in
  \<open>store.go\<close>, the transactions. Two servers share the store: the Gin router of \<open>api/\<close>
  (accounts, transfers, sign-in, sessions) and the gRPC service of \<open>gapi/\<close> (users, sign-in),
  which an HTTP gateway exposes too. A request is authorized by a token of package \<open>token\<close>; a
  refresh token is backed by a row of \<open>sessions\<close>. A transfer may carry an idempotency key,
  which makes a retry return the stored answer of the first attempt. \<open>main.go\<close> loads the
  configuration, migrates the database and starts the gRPC server and the gateway.

  \<^bold>\<open>How the model is made.\<close> The state of the world (theory World) is the tables, the sequences
  behind the \<open>bigserial\<close> columns and a counter of the effects done so far. Every handler and
  method is a function in the state monad over it; one that may fail returns a sum, the Go error
  on the left. What the program only calls is a parameter, the record \<open>env\<close>: clocks, random ids,
  bcrypt, the cryptography of the tokens, JSON, and \<open>net\<close>, which decides for each round trip to
  the database whether it succeeds, is lost before the statement or after it. Theorems that do
  not mention \<open>net\<close> hold under every pattern of failures. Integers have the width of the source
  (\<open>int64\<close>, \<open>int32\<close>) and wrap as Go's do, while PostgreSQL reports what is out of range; strings
  are sequences of bytes. Where the code relies on a library, its documented behaviour is a
  named hypothesis and a witness instantiates it.

  \<^bold>\<open>The theories\<close>, in the order they build on each other.
  \<^item> Prelude, Go_Strings: machine integers, the effect monad with its rules for run relations,
    rows as lists; the standard library on strings that the code uses.
  \<^item> Models, World, Examples: the records of \<open>db/sqlc/models.go\<close> and the parameters of the
    methods; the world and its primitive effects; a concrete world for the witnesses.
  \<^item> Query_Ledger, Query_Identity: each query of \<open>db/sqlc/*.sql.go\<close>, as its SQL text on the
    tables (\<open>sql_Foo\<close>) and as the method (\<open>Foo\<close>). Schema: the constraints of the tables
    as the invariant \<open>db_ok\<close>, kept by every statement. Migrations: the files of \<open>db/migration\<close>
    as statements on schemas with rows; \<open>db_ok\<close> is what they leave.
  \<^item> Store: \<open>store.go\<close>, a transaction without interruption. Interfaces: \<open>Querier\<close> and \<open>Store\<close>
    with \<open>New\<close>, \<open>WithTx\<close> and \<open>NewStore\<close>. Ledger: what transfers keep (the total, the drift of each account
    from its entries). Transfer_Spec: the abstract ledger, a map from ids to balances, that
    \<open>TransferTx\<close> refines.
  \<^item> Tx_Program, Concurrency, Serial, Retries, Concurrent_Constraints, Key_Rows: the same
    transactions as programs that pause at every statement; a step relation that interleaves any
    number of them, with row versions, locks and lost connections; and what it guarantees: lock
    discipline, no deadlock and termination, serialisability, at most one commit per key, the
    constraints of the schema, and that a row of \<open>idempotency_keys\<close> is only seen complete.
  \<^item> Transfer_Script: the handler of \<open>POST /transfers\<close> as a process that pauses at every call of
    the store.
  \<^item> Token, Util, Settings, Random_Data: packages \<open>token\<close>, \<open>val\<close> and \<open>util\<close>, with \<open>LoadConfig\<close> and
    the random test data.
  \<^item> Http, Api_Account, Api_Transfer, Api_User, Api_Server: the Gin server with its middleware,
    handlers and routes. Gapi: the gRPC service and the loggers. Gateway: the generated service
    code and the HTTP gateway. Rpc_Wire: the client stubs, the description of the service and the
    functions that connect the gateway to it, over a network on which a call may fail before or after
    the method has run. Startup: \<open>main.go\<close> and the mux of the gateway server.
    Deployment: all entrances of the running program at once.
  \<^item> Api_Contract: the contract between handlers and tables, for single statements
    (locale \<open>statement_contract\<close>) and with the transactions (\<open>store_contract\<close>), and, in
    \<open>api_contract\<close>, that whatever the store keeps both servers keep; interpreted with
    the constraints, the money measures and the history. Api_Idempotency, Api_Session: what
    attempts under a key and what sessions do over any further requests.
  \<^item> Handler_Proc, Handler_Calls: every handler and RPC as a process that pauses at each call of the
    store, the token maker, bcrypt or the clock, and that hands a transaction over to the
    database; what all these calls keep (locale \<open>call_contract\<close>).
    Open_System: the concurrent transactions in a server that goes on, where transactions begin at
    any time and the statements of other handlers run between theirs; the invariants of Serial,
    Retries, Concurrent_Constraints and Key_Rows there, with the relations between tables that a
    step keeps (locale \<open>open_api\<close>).
  \<^item> Interleaving: requests to both servers that arrive at any time, interleaved call by call, their
    transactions statement by statement (\<open>serve_step\<close>). What holds in every such run: the books
    (Interleaving), the balances as a sequence of transfers that were asked for (Server_Ledger),
    the answers of requests under one key (Server_Races), an answer for all requests (Server_End),
    and signing out (Concurrent_Sessions, over Before_Answer: what must have happened before an
    answer). Tx_Alone, Sequential_Runs: requests served one after another by the functions of the
    handlers, with their failures, are such a run.
  \<^item> This theory: the properties of whole runs of both servers.

  \<^bold>\<open>What the theorems show.\<close> For any requests to both servers in any order: the constraints
  hold, money is neither made nor lost, the books are append-only. A transfer is atomic, is
  decided by the balance alone, refines the abstract ledger, and moves money once per
  idempotency key, both when the attempts follow each other (whatever connections fail) and when they
  race. In every run in which requests to both servers arrive, interleave and fail at will, the books are
  kept; the balances are those of transfers their users asked for and may make, in the order of the
  commits; requests that race under a key get the same answer, and what each is answered follows from the
  result of its transaction: one that loses the race is answered with what the winner stored, unless its
  rollback failed; nothing deadlocks and all requests can be answered; a token
  is only renewed for a session that is live meanwhile, and a session that is signed out stays
  signed out. Every down migration undoes its up migration. Sign-out and update touch only the
  caller's own data, the middleware lets only verified tokens through. The validators, the page arithmetic,
  the fingerprint and the tokens have theorems on their outcomes. The gateway is the service
  it stands for, nothing is served before the migrations are applied, and the probes agree on
  both servers.

  \<^bold>\<open>Concurrency.\<close> The database is at READ COMMITTED. A statement sees the committed rows and the
  writes of its own transaction; a row that is written, and a key that is inserted, is locked
  until the transaction ends; a statement that needs a lock of another transaction waits. The
  locks that foreign keys take (FOR KEY SHARE) do not conflict with updates of other columns,
  and no concurrent transaction deletes a row, so they are left out. A statement that fails takes no
  lock: its transaction is rolled back next. The \<open>CHECK\<close> of a balance is evaluated once the row is locked, which
  PostgreSQL may do before; a statement on many rows, such as \<open>BlockUserSessions\<close>, is one step. In
  Concurrency all transactions have begun in the first state, each with its own \<open>now()\<close>; in Interleaving they begin when a handler gets to them, and the
  record of the run says for which request. \<open>tx_step i\<close> is what transaction \<open>i\<close> and the database do, \<open>tx_fault i\<close> adds lost
  connections and lost answers. A handler reads outside of its transaction, what is committed.
  The code is translated twice, then, as functions and as programs and processes that pause; the lemmas
  \<open>exec_transferTx_prog\<close>, \<open>exec_claimAndTransfer_prog\<close>, \<open>exec_createTransfer\<close> and \<open>exec_handle\<close> say that the
  two agree when nothing interrupts them, and \<open>sequential_runs_are_runs\<close> ties their runs. The world
  counts effects by a tick; a transaction that runs among others may take any number of them.

  \<^bold>\<open>Bounds and fuel.\<close> There is no fuel: every loop of the code is over a list or a counter and is
  structural here. That concurrent runs end is a theorem, by a well-founded order on \<open>act\<close> and
  \<open>work_step\<close>; only arrivals can go on for ever.
  Sequences are bounded by \<open>max_int64\<close> as in PostgreSQL.

  \<^bold>\<open>Not modelled.\<close> The mocks (\<open>db/mock\<close>), the embedded documentation (\<open>doc/statik\<close>) and \<open>tools/\<close>,
  which are generated or only for the build; the reflection data of the \<open>.pb.go\<close> files, which only
  the protobuf library reads; JSON, header and URL encodings (a body is the value it decodes to);
  the cleaning of request paths; the text of the logs; the plans and the cost of queries. Of the
  migrations a column default is recorded but not executed: the statements of the queries give it. A
  migration that fails has no resulting schema, and the mark of a dirty version that golang-migrate
  then leaves is not kept. A password is hashed and the clock read in one step of \<open>UpdateUser\<close>. In
  Deployment requests to the three entrances are served one at a time, in any order; their
  interleaving is that of \<open>serve_step\<close>. The runs of \<open>main\<close> take the answer of \<open>LoadConfig\<close> as a parameter,
  since they hold for any; Settings has the function itself, over the documented part of viper.
\<close>

section \<open>Properties of the whole server\<close>

lemma sum_zero_nonneg:
  "(\<Sum>a\<leftarrow>rows. (f a :: int)) = 0 \<Longrightarrow> (\<And>a. a \<in> set rows \<Longrightarrow> 0 \<le> f a) \<Longrightarrow> a \<in> set rows \<Longrightarrow> f a = 0"
proof (induction rows)
  case (Cons x rows)
  have "0 \<le> (\<Sum>a\<leftarrow>rows. f a)" using Cons.prems(2) by (intro sum_list_nonneg) auto
  moreover have "0 \<le> f x" using Cons.prems(2) by simp
  ultimately have "f x = 0" "(\<Sum>a\<leftarrow>rows. f a) = 0" using Cons.prems(1) by simp_all
  with Cons show ?case by auto
qed simp

text \<open>
  C40: The server by itself is a closed system: on a fresh database, whatever requests are
  served, every account has balance 0 and no transfer without a key is ever answered 200.
  Money has to be put into accounts by other means than this interface.
\<close>

theorem no_money_enters:
  assumes "Server_tokenMaker srv = PasetoMaker E k"
    and "w = snd (run_all (handle E srv) calls start_world)"
  shows "(\<forall>a \<in> set (accounts (db w)). Account_Balance a = 0) \<and>
    status (fst (run (createTransfer E p '''' body) w)) \<noteq> 200"
proof
  have ok: "db_ok (db w)" and total: "total_balance (db w) = 0"
    using ok_api.handle_all_rel [OF assms(1), of start_world calls]
      money_api.handle_all_rel [OF assms(1), of start_world calls] db_ok_empty assms(2)
    by (auto simp: start_world_def ok_kept_def money_kept_def total_balance_def empty_db_def)
  have zero: "sint (Account_Balance a) = 0" if "a \<in> set (accounts (db w))" for a
    using sum_zero_nonneg [of "\<lambda>a. sint (Account_Balance a)" "accounts (db w)" a] total ok that
    by (auto simp: total_balance_def db_ok_def accounts_ok_def)
  then show "\<forall>a \<in> set (accounts (db w)). Account_Balance a = 0"
    by (metis sint_0 sint64_inj)
  show "status (fst (run (createTransfer E p '''' body) w)) \<noteq> 200"
  proof
    assume 200: "status (fst (run (createTransfer E p '''' body) w)) = 200"
    obtain rsp w' where run: "run (createTransfer E p '''' body) w = (rsp, w')" by fastforce
    from run show False
    proof (cases rule: createTransfer_stages)
      case (entered req w1)
      from entered(4) have "run (transfer_plainly E req (transfer_params req)) w1 = (rsp, w')" by simp
      then show False
      proof (cases rule: transfer_plainly_cases)
        case (ok r)
        have "abs_transfer (transferRequest_FromAccountID req) (transferRequest_ToAccountID req)
            (sint (transferRequest_Amount req)) (abs_ledger (db w)) \<noteq> None"
          using TransferTx_rows [OF ok(2)] entered by (auto simp: transfer_params_def authorized_def)
        then obtain a where a: "lookup Account_ID (transferRequest_FromAccountID req) (accounts (db w)) = Some a"
          "0 \<le> sint (Account_Balance a) - sint (transferRequest_Amount req)"
          by (auto simp: abs_transfer_def abs_ledger_def split: option.splits if_splits)
        moreover have "0 < sint (transferRequest_Amount req)"
          using entered(2) by (simp add: authorized_def transferRequest_valid_def)
        ultimately show False using zero lookup_SomeD [OF a(1)] by auto
      qed (use 200 run in auto)
    qed (use 200 run in auto)
  qed
qed

theorem no_money_enters_witness:
  "status (fst (run (createTransfer example_env (example_payload ''ann'') '''' (Some (example_request 30)))
     (snd (run_all (handle example_env example_server) [Http (PostUsers None)] start_world)))) \<noteq> 200"
  using no_money_enters [OF example_server_maker refl] by blast

end
